(* ===== verification/Go_Prelude.thy ===== *)
theory Go_Prelude
  imports Main "HOL-Library.Multiset" "HOL-Library.Char_ord" "HOL-Library.List_Lexorder"
begin

text \<open>
  The Go language and the parts of its standard library the operator uses: integers of 32 and 64
  bits with their wrap-around, truncating division, \<open>for i := range n\<close>, decimal formatting
  and parsing (\<open>fmt\<close> with \<open>%d\<close> and \<open>%v\<close>, \<open>strconv.Atoi\<close>), the functions of
  \<open>strings\<close>, instants and durations (\<open>time.Time\<close>, \<open>time.Duration\<close>), and a stable
  sort driven by a comparison function. Every type is a plain HOL type, so the components compute.

  An \<open>int32\<close> or \<open>int64\<close> value is an \<^typ>\<open>int\<close>; an operation of the source that can
  leave the range is wrapped by \<open>wrap32\<close> or \<open>wrap64\<close>, and \<open>in32\<close>, \<open>in64\<close> say that a
  value is in range. A Go string is a sequence of bytes, hence a \<^typ>\<open>string\<close>.
\<close>

named_theorems go_arith "range facts of the fixed-width integers"
named_theorems go_str "facts on formatting and parsing"


section \<open>Fixed-width integers\<close>

type_synonym int32 = int
type_synonym int64 = int

definition in32 :: "int \<Rightarrow> bool" where
  "in32 x \<longleftrightarrow> - (2 ^ 31) \<le> x \<and> x < 2 ^ 31"

definition in64 :: "int \<Rightarrow> bool" where
  "in64 x \<longleftrightarrow> - (2 ^ 63) \<le> x \<and> x < 2 ^ 63"

definition wrap32 :: "int \<Rightarrow> int32" where
  "wrap32 x = (x + 2 ^ 31) mod 2 ^ 32 - 2 ^ 31"

definition wrap64 :: "int \<Rightarrow> int64" where
  "wrap64 x = (x + 2 ^ 63) mod 2 ^ 64 - 2 ^ 63"

text \<open>Go's \<open>/\<close> on integers truncates towards zero.\<close>

definition tdiv :: "int \<Rightarrow> int \<Rightarrow> int" where
  "tdiv a b = sgn a * sgn b * (\<bar>a\<bar> div \<bar>b\<bar>)"

text \<open>\<open>for i := range n\<close> runs over \<open>0, \<dots>, n - 1\<close>, and not at all for a non-positive \<open>n\<close>.\<close>

definition range_int :: "int \<Rightarrow> int list" where
  "range_int n = [0..n - 1]"

lemma wrap32_id [simp]: "in32 x \<Longrightarrow> wrap32 x = x"
  by (simp add: in32_def wrap32_def)

lemma wrap64_id [simp]: "in64 x \<Longrightarrow> wrap64 x = x"
  by (simp add: in64_def wrap64_def)

lemma in32_wrap32 [simp]: "in32 (wrap32 x)"
proof -
  have "0 \<le> (x + 2 ^ 31) mod 2 ^ 32" "(x + 2 ^ 31) mod 2 ^ 32 < 2 ^ 32"
    by simp_all
  then show ?thesis by (simp add: in32_def wrap32_def)
qed

lemma in32_mono [go_arith]: "in32 b \<Longrightarrow> 0 \<le> a \<Longrightarrow> a \<le> b \<Longrightarrow> in32 a"
  by (simp add: in32_def)

lemma in32_between [go_arith]: "in32 a \<Longrightarrow> in32 b \<Longrightarrow> a \<le> x \<Longrightarrow> x \<le> b \<Longrightarrow> in32 x"
  by (simp add: in32_def)

lemma in32_numeral [simp]:
  "in32 0" "in32 1" "in32 (- 1)"
  "in32 (numeral n) = (numeral n < (2 ^ 31 :: int))"
  by (auto simp: in32_def intro: order_trans [of _ 0])

lemma set_range_int [simp]: "set (range_int n) = {0..<n}"
  by (auto simp: range_int_def)

lemma distinct_range_int [simp]: "distinct (range_int n)"
  by (simp add: range_int_def)

lemma length_range_int [simp]: "length (range_int n) = nat n"
  by (simp add: range_int_def)

lemma tdiv_nonneg [simp]: "0 \<le> a \<Longrightarrow> 0 < b \<Longrightarrow> tdiv a b = a div b"
  by (cases "a = 0") (simp_all add: tdiv_def)


section \<open>Decimal numbers\<close>

definition digit :: "nat \<Rightarrow> char" where
  "digit d = ''0123456789'' ! d"

definition is_digit :: "char \<Rightarrow> bool" where
  "is_digit c \<longleftrightarrow> c \<in> set ''0123456789''"

definition digit_val :: "char \<Rightarrow> nat" where
  "digit_val c = of_char c - 48"

fun utoa :: "nat \<Rightarrow> string" where
  "utoa n = (if n < 10 then [digit n] else utoa (n div 10) @ [digit (n mod 10)])"

declare utoa.simps [simp del]

text \<open>\<open>fmt.Sprintf("%d", i)\<close>.\<close>

definition itoa :: "int \<Rightarrow> string" where
  "itoa i = (if i < 0 then ''-'' @ utoa (nat (- i)) else utoa (nat i))"

fun digits_val :: "nat \<Rightarrow> string \<Rightarrow> nat option" where
  "digits_val acc [] = Some acc"
| "digits_val acc (c # cs) = (if is_digit c then digits_val (10 * acc + digit_val c) cs else None)"

text \<open>
  \<open>strconv.Atoi\<close>: an optional sign and at least one decimal digit; \<open>None\<close> stands for the
  error, of a malformed number or of one outside the 64-bit range.
\<close>

definition atoi :: "string \<Rightarrow> int64 option" where
  "atoi s =
     (let neg = (s \<noteq> [] \<and> hd s = CHR ''-'');
          ds = (if s \<noteq> [] \<and> (hd s = CHR ''-'' \<or> hd s = CHR ''+'') then tl s else s)
      in if ds = [] then None
         else case digits_val 0 ds of
             None \<Rightarrow> None
           | Some n \<Rightarrow> (let i = (if neg then - int n else int n) in if in64 i then Some i else None))"

lemma digit_cases: "d < 10 \<Longrightarrow> d \<in> {0, 1, 2, 3, 4, 5, 6, 7, 8, 9 :: nat}"
  by auto

lemma is_digit_digit [simp]: "d < 10 \<Longrightarrow> is_digit (digit d)"
  by (drule digit_cases) (auto simp: is_digit_def digit_def)

lemma digit_val_digit [simp]: "d < 10 \<Longrightarrow> digit_val (digit d) = d"
  by (drule digit_cases) (auto simp: digit_val_def digit_def)

lemma set_utoa: "c \<in> set (utoa n) \<Longrightarrow> is_digit c"
proof (induction n rule: utoa.induct)
  case (1 n)
  then show ?case
    by (cases "n < 10") (auto simp: utoa.simps [of n])
qed

lemma utoa_neq_Nil [simp]: "utoa n \<noteq> []"
  by (subst utoa.simps) simp

lemma digits_val_append:
  "digits_val acc (xs @ ys) =
     (case digits_val acc xs of None \<Rightarrow> None | Some a \<Rightarrow> digits_val a ys)"
  by (induction xs arbitrary: acc) auto

lemma digits_val_utoa [go_str]: "digits_val 0 (utoa n) = Some n"
proof (induction n rule: utoa.induct)
  case (1 n)
  show ?case
  proof (cases "n < 10")
    case True
    then show ?thesis by (simp add: utoa.simps [of n])
  next
    case False
    with "1.IH" show ?thesis
      by (simp add: utoa.simps [of n] digits_val_append)
  qed
qed

lemma utoa_inject [simp]: "utoa m = utoa n \<longleftrightarrow> m = n"
  by (metis digits_val_utoa option.inject)

lemma hd_utoa: "is_digit (hd (utoa n))"
  by (rule set_utoa [of _ n]) simp

lemma not_is_digit [simp]:
  "\<not> is_digit CHR ''-''" "\<not> is_digit CHR ''+''" "\<not> is_digit CHR ''.''" "\<not> is_digit CHR '':''"
  by (simp_all add: is_digit_def)

lemma itoa_inject [simp]: "itoa i = itoa j \<longleftrightarrow> i = j"
proof -
  have "utoa n \<noteq> CHR ''-'' # s" for n s
    using hd_utoa [of n] by (metis list.sel(1) not_is_digit(1))
  then show ?thesis
    by (auto simp: itoa_def eq_commute [of "_ # _" "utoa _"])
qed

lemma itoa_nonneg_chars: "0 \<le> i \<Longrightarrow> c \<in> set (itoa i) \<Longrightarrow> is_digit c"
  by (auto simp: itoa_def dest: set_utoa)

lemma atoi_itoa [go_str]:
  assumes "in64 i"
  shows "atoi (itoa i) = Some i"
proof (cases "i < 0")
  case True
  with assms show ?thesis
    by (simp add: atoi_def itoa_def digits_val_utoa)
next
  case False
  have "hd (utoa (nat i)) \<noteq> CHR ''-''" "hd (utoa (nat i)) \<noteq> CHR ''+''"
    using hd_utoa [of "nat i"] by (metis not_is_digit(1), metis hd_utoa not_is_digit(2))
  with False assms show ?thesis
    by (simp add: atoi_def itoa_def digits_val_utoa)
qed


section \<open>Strings\<close>

text \<open>\<open>strings.LastIndex\<close> of a one-byte pattern: \<open>-1\<close> when the byte does not occur.\<close>

definition LastIndex :: "string \<Rightarrow> char \<Rightarrow> int" where
  "LastIndex s c =
     (let js = filter (\<lambda>j. s ! j = c) [0..<length s] in if js = [] then - 1 else int (last js))"

definition HasPrefix :: "string \<Rightarrow> string \<Rightarrow> bool" where
  "HasPrefix s p \<longleftrightarrow> take (length p) s = p"

definition HasSuffix :: "string \<Rightarrow> string \<Rightarrow> bool" where
  "HasSuffix s p \<longleftrightarrow> length p \<le> length s \<and> drop (length s - length p) s = p"

text \<open>\<open>strings.Join\<close>, and \<open>%v\<close> of a slice: the elements in brackets, separated by a space.\<close>

fun join :: "string \<Rightarrow> string list \<Rightarrow> string" where
  "join sep [] = []"
| "join sep [x] = x"
| "join sep (x # y # ys) = x @ sep @ join sep (y # ys)"

definition fmt_strings :: "string list \<Rightarrow> string" where
  "fmt_strings xs = ''['' @ join '' '' xs @ '']''"

definition fmt_ints :: "int list \<Rightarrow> string" where
  "fmt_ints xs = fmt_strings (map itoa xs)"

lemma LastIndex_append:
  assumes "c \<notin> set q"
  shows "LastIndex (p @ c # q) c = int (length p)"
proof -
  let ?s = "p @ c # q"
  have "[0..<length ?s] = [0..<length p] @ [length p] @ [Suc (length p)..<length ?s]"
    by (metis (no_types, lifting) append_Cons append_Nil le_add1 length_append length_Cons
        upt_conv_Cons upt_add_eq_append add_Suc_right le0 less_add_Suc1 add_0)
  moreover have "filter (\<lambda>j. ?s ! j = c) [Suc (length p)..<length ?s] = []"
  proof -
    have "?s ! j \<noteq> c" if "Suc (length p) \<le> j" "j < length ?s" for j
    proof -
      have "?s ! j = q ! (j - Suc (length p))"
        using that by (simp add: nth_append)
      moreover have "j - Suc (length p) < length q"
        using that by simp
      ultimately show ?thesis using assms nth_mem by metis
    qed
    then show ?thesis unfolding filter_empty_conv set_upt by auto
  qed
  ultimately have "filter (\<lambda>j. ?s ! j = c) [0..<length ?s] =
      filter (\<lambda>j. ?s ! j = c) [0..<length p] @ [length p]"
    by (simp only: filter_append append_Nil2) simp
  then show ?thesis
    by (simp only: LastIndex_def Let_def) simp
qed

lemma LastIndex_absent: "c \<notin> set s \<Longrightarrow> LastIndex s c = - 1"
  by (auto simp: LastIndex_def filter_empty_conv)

lemma fmt_strings_neq_Nil [simp]: "fmt_strings xs \<noteq> []"
  by (simp add: fmt_strings_def)


section \<open>Instants and durations\<close>

text \<open>
  A \<open>time.Time\<close> is the number of nanoseconds since Go's zero time, so \<open>IsZero\<close> is
  \<open>= 0\<close>. A \<open>time.Duration\<close> is a signed 64-bit number of nanoseconds; \<open>Sub\<close> saturates.
\<close>

type_synonym gotime = int
type_synonym duration = int

definition nanosecond :: duration where "nanosecond = 1"
definition millisecond :: duration where "millisecond = 1000000"
definition second :: duration where "second = 1000000000"
definition minute :: duration where "minute = 60000000000"
definition hour :: duration where "hour = 3600000000000"

lemmas duration_units [simp] =
  nanosecond_def millisecond_def second_def minute_def hour_def

definition IsZero :: "gotime \<Rightarrow> bool" where
  "IsZero t \<longleftrightarrow> t = 0"

definition After :: "gotime \<Rightarrow> gotime \<Rightarrow> bool" where
  "After t u \<longleftrightarrow> u < t"

definition Before :: "gotime \<Rightarrow> gotime \<Rightarrow> bool" where
  "Before t u \<longleftrightarrow> t < u"

definition Add :: "gotime \<Rightarrow> duration \<Rightarrow> gotime" where
  "Add t d = t + d"

definition Sub :: "gotime \<Rightarrow> gotime \<Rightarrow> duration" where
  "Sub t u = max (- (2 ^ 63)) (min (2 ^ 63 - 1) (t - u))"

lemmas time_defs [simp] = IsZero_def After_def Before_def Add_def

lemma Sub_less_iff: "0 < d \<Longrightarrow> in64 d \<Longrightarrow> Sub t u < d \<longleftrightarrow> t - u < d"
  by (auto simp: Sub_def in64_def)

lemma le_Sub_iff: "0 \<le> d \<Longrightarrow> in64 d \<Longrightarrow> d \<le> Sub t u \<longleftrightarrow> d \<le> t - u"
  by (auto simp: Sub_def in64_def)


section \<open>Sorting with a comparison function\<close>

text \<open>
  \<open>slices.SortStableFunc\<close>: each element in turn moves left past every neighbour it compares
  below. The sorted part is kept reversed, so that the neighbour on its left is the head.
\<close>

fun insert_back :: "('a \<Rightarrow> 'a \<Rightarrow> int) \<Rightarrow> 'a \<Rightarrow> 'a list \<Rightarrow> 'a list" where
  "insert_back cmp x [] = [x]"
| "insert_back cmp x (y # ys) = (if cmp x y < 0 then y # insert_back cmp x ys else x # y # ys)"

definition SortStableFunc :: "('a \<Rightarrow> 'a \<Rightarrow> int) \<Rightarrow> 'a list \<Rightarrow> 'a list" where
  "SortStableFunc cmp xs = rev (fold (insert_back cmp) xs [])"

lemma mset_insert_back [simp]: "mset (insert_back cmp x ys) = add_mset x (mset ys)"
  by (induction ys) auto

lemma mset_fold_insert_back: "mset (fold (insert_back cmp) xs ys) = mset xs + mset ys"
  by (induction xs arbitrary: ys) auto

lemma mset_SortStableFunc [simp]: "mset (SortStableFunc cmp xs) = mset xs"
  by (simp add: SortStableFunc_def mset_fold_insert_back)

lemma set_SortStableFunc [simp]: "set (SortStableFunc cmp xs) = set xs"
  by (metis mset_SortStableFunc set_mset_mset)

text \<open>
  A comparison that puts a class \<open>P\<close> of elements below all others keeps that class in front,
  whatever it answers inside each class.
\<close>

lemma insert_back_class:
  assumes "\<And>a b. P a \<Longrightarrow> \<not> P b \<Longrightarrow> cmp a b < 0" and "\<And>a b. \<not> P a \<Longrightarrow> P b \<Longrightarrow> 0 < cmp a b"
  shows "sorted_wrt (\<lambda>a b. P a \<longrightarrow> P b) ys \<Longrightarrow> sorted_wrt (\<lambda>a b. P a \<longrightarrow> P b) (insert_back cmp x ys)"
proof (induction ys)
  case Nil
  show ?case by simp
next
  case (Cons y ys)
  have "set (insert_back cmp x ys) = insert x (set ys)"
    by (metis mset_insert_back set_mset_add_mset_insert set_mset_mset)
  moreover have "P x" if "P y" "cmp x y < 0"
    using that assms(2) [of x y] by (cases "P x") simp_all
  moreover have "P y" if "P x" "\<not> cmp x y < 0"
    using that assms(1) [of x y] by (cases "P y") simp_all
  ultimately show ?case using Cons by (cases "cmp x y < 0"; cases "P y"; cases "P x") simp_all
qed

lemma SortStableFunc_class:
  assumes "\<And>a b. P a \<Longrightarrow> \<not> P b \<Longrightarrow> cmp a b < 0" and "\<And>a b. \<not> P a \<Longrightarrow> P b \<Longrightarrow> 0 < cmp a b"
  shows "sorted_wrt (\<lambda>a b. P b \<longrightarrow> P a) (SortStableFunc cmp xs)"
proof -
  have "sorted_wrt (\<lambda>a b. P a \<longrightarrow> P b) (fold (insert_back cmp) xs ys)"
    if "sorted_wrt (\<lambda>a b. P a \<longrightarrow> P b) ys" for ys
    using that
  proof (induction xs arbitrary: ys)
    case (Cons x xs)
    show ?case
      using Cons.IH [OF insert_back_class [where P = P, OF assms Cons.prems]] by simp
  qed simp
  from this [of "[]"] show ?thesis
    by (simp add: SortStableFunc_def sorted_wrt_rev)
qed

end
