(* ===== verification/API_Types.thy ===== *)
theory API_Types
  imports Go_Prelude Complex_Main
begin

text \<open>
  The KahunaCluster resource, from \<open>src/api/v1alpha1/kahunacluster_types.go\<close>: one record per
  struct, fields in the struct's order, each prefixed by a tag of its struct because HOL record
  fields share one name space. A pointer is an \<open>option\<close>, a Go map a partial function, a slice a
  list. Kubernetes types that the operator only copies from the spec into a pod (resources,
  tolerations, security contexts) are an opaque serialised value; of those it reads (pods,
  conditions, secret references) the fields it reads are modelled.

  The admission rules the CRD carries as \<open>kubebuilder:validation\<close> markers are the predicates
  \<open>valid_spec\<close> (what the API server accepts) and \<open>valid_update\<close> (what it accepts as an
  edit); they are the hypotheses under which the operator's arithmetic stays in range.
\<close>


section \<open>Kubernetes values the resource refers to\<close>

type_synonym opaque = string
type_synonym quantity = rat

record SecretKeySelector =
  sks_Name :: string
  sks_Key :: string

datatype ConditionStatus = ConditionTrue | ConditionFalse | ConditionUnknown

record Condition =
  cond_Type :: string
  cond_Status :: ConditionStatus
  cond_Reason :: string
  cond_Message :: string
  cond_LastTransitionTime :: gotime

record PodCondition =
  pc_Type :: string
  pc_Status :: ConditionStatus

record Pod =
  pod_Name :: string
  pod_UID :: string
  pod_DeletionTimestamp :: "gotime option"
  pod_Annotations :: "string \<rightharpoonup> string"
  pod_Containers :: "(string \<times> string) list" \<comment> \<open>name and image\<close>
  pod_PodIP :: string
  pod_Conditions :: "PodCondition list"


section \<open>Spec\<close>

record VolumeSpec =
  vs_Size :: quantity
  vs_StorageClassName :: "string option"
  vs_AccessModes :: "string list"

record StorageSpec =
  sto_Backend :: string
  sto_Revision :: string
  sto_WALBackend :: string
  sto_WALRevision :: string
  sto_Data :: VolumeSpec
  sto_WAL :: "VolumeSpec option"
  sto_SyncWrites :: "bool option"
  sto_DirectReads :: "bool option"
  sto_SharedMemory :: "bool option"
  sto_SharedMemoryBudgetMB :: "int32 option"
  sto_SharedMemtableBudgetMB :: "int32 option"
  sto_PVCRetentionPolicy :: string

record CertManagerIssuerRef =
  cir_Name :: string
  cir_Kind :: string
  cir_Group :: string

record CertManagerSpec =
  cms_IssuerRef :: CertManagerIssuerRef
  cms_Duration :: "duration option"
  cms_RenewBefore :: "duration option"

record TLSSpec =
  tls_SecretRef :: "string option"
  tls_KeystoreKey :: string
  tls_PasswordSecretRef :: "SecretKeySelector option"
  tls_CertManager :: "CertManagerSpec option"
  tls_InsecureSkipVerify :: "bool option"

record PortsSpec =
  prt_HTTP :: int32
  prt_HTTPS :: int32
  prt_InternalHTTP :: int32
  prt_Raft :: int32

record RaftSpec =
  rft_HeartbeatIntervalMs :: "int32 option"
  rft_VotingTimeoutMs :: "int32 option"
  rft_StartElectionTimeoutMs :: "int32 option"
  rft_EndElectionTimeoutMs :: "int32 option"
  rft_EnableCheckQuorum :: "bool option"
  rft_GossipIntervalMs :: "int32 option"
  rft_GossipFanout :: "int32 option"
  rft_PingTimeoutMs :: "int32 option"
  rft_IndirectPingFanout :: "int32 option"
  rft_SuspicionTimeoutMs :: "int32 option"
  rft_DeadMemberEvictionGraceMs :: "int32 option"
  rft_BackfillThreshold :: "int32 option"
  rft_MaxBackfillEntriesPerRound :: "int32 option"
  rft_LearnerPromotionLag :: "int32 option"
  rft_LearnerPromotionStableWindowMs :: "int32 option"

record TransactionsSpec =
  txn_DefaultTimeoutMs :: "int32 option"
  txn_DefaultAdmissionWaitMs :: "int32 option"
  txn_MaxAdmissionWaitMs :: "int32 option"
  txn_MaxConcurrentTransactions :: "int32 option"
  txn_MaxConcurrentSessions :: "int32 option"

record WorkersSpec =
  wrk_Locks :: "int32 option"
  wrk_KeyValue :: "int32 option"
  wrk_Sequencer :: "int32 option"
  wrk_BackgroundWriter :: "int32 option"

record ReplicationSpec =
  rep_Factor :: int32

record AutoscalingSpec =
  aus_MinReplicas :: int32
  aus_MaxReplicas :: int32
  aus_TargetWritesPerSecond :: "int32 option"
  aus_TargetQueueDepth :: "int32 option"
  aus_ScaleUpStabilizationSeconds :: "int32 option"
  aus_ScaleDownStabilizationSeconds :: "int32 option"
  aus_TolerancePercent :: "int32 option"

record BackupVolumeSpec =
  bvs_ClaimName :: "string option"
  bvs_Claim :: "VolumeSpec option"

record BackupRetentionSpec =
  brs_MaxChains :: "int32 option"
  brs_MaxAge :: "duration option"
  brs_MaxBytes :: "quantity option"

record BackupSpec =
  bks_Schedule :: string
  bks_IncrementalSchedule :: string
  bks_Suspend :: "bool option"
  bks_Timeout :: "duration option"
  bks_Volume :: BackupVolumeSpec
  bks_ClusterID :: string
  bks_MACKeySecretRef :: "SecretKeySelector option"
  bks_Retention :: "BackupRetentionSpec option"

record KahunaClusterSpec =
  sp_Replicas :: "int32 option"
  sp_Replication :: "ReplicationSpec option"
  sp_Autoscaling :: "AutoscalingSpec option"
  sp_Backup :: "BackupSpec option"
  sp_Image :: string
  sp_ImagePullPolicy :: string
  sp_ImagePullSecrets :: "string list"
  sp_Partitions :: "int32 option"
  sp_Storage :: StorageSpec
  sp_TLS :: TLSSpec
  sp_Ports :: "PortsSpec option"
  sp_Raft :: "RaftSpec option"
  sp_Transactions :: "TransactionsSpec option"
  sp_Workers :: "WorkersSpec option"
  sp_LogLevel :: string
  sp_ExtraArgs :: "string list"
  sp_Resources :: opaque
  sp_NodeSelector :: "string \<rightharpoonup> string"
  sp_Tolerations :: "opaque list"
  sp_Affinity :: "opaque option"
  sp_TopologySpreadConstraints :: "opaque list"
  sp_PodAnnotations :: "string \<rightharpoonup> string"
  sp_PodLabels :: "string \<rightharpoonup> string"
  sp_ServiceAccountName :: string
  sp_PodSecurityContext :: "opaque option"
  sp_SecurityContext :: "opaque option"
  sp_TerminationGracePeriodSeconds :: "int64 option"
  sp_PodDisruptionBudget :: "bool option"


section \<open>Status\<close>

datatype ClusterPhase =
    PhasePending
  | PhaseBootstrapping
  | PhaseRunning
  | PhaseScalingUp
  | PhaseScalingDown
  | PhaseUpgrading
  | PhaseDegraded

record MemberStatus =
  ms_PodName :: string
  ms_Endpoint :: string
  ms_NodeID :: int32
  ms_Role :: string
  ms_JoinedVersion :: int64
  ms_Ready :: bool

record AutoscalingStatus =
  ast_DesiredReplicas :: int32
  ast_RecommendedReplicas :: int32
  ast_WritesPerSecondPerNode :: "int64 option"
  ast_QueueDepthPerNode :: "int64 option"
  ast_AboveTargetSince :: "gotime option"
  ast_BelowTargetSince :: "gotime option"
  ast_LastScaleTime :: "gotime option"

record BackupStatus =
  bst_LastFullScheduleTime :: "gotime option"
  bst_LastIncrementalScheduleTime :: "gotime option"
  bst_LastSuccessfulTime :: "gotime option"
  bst_LastBackupID :: string
  bst_LastBackupType :: string
  bst_ConsecutiveFailures :: int32
  bst_LastFailureTime :: "gotime option"
  bst_LastFailureMessage :: string
  bst_UnclaimedSince :: "gotime option"
  bst_LastUnclaimedTime :: "gotime option"

text \<open>The phase is an option: a status that was never written has the empty phase.\<close>

record KahunaClusterStatus =
  st_ObservedGeneration :: int64
  st_Phase :: "ClusterPhase option"
  st_Replicas :: int32
  st_ReadyReplicas :: int32
  st_Voters :: int32
  st_Learners :: int32
  st_MembershipVersion :: int64
  st_Members :: "MemberStatus list"
  st_Bootstrapped :: bool
  st_BootstrapSize :: int32
  st_CurrentImage :: string
  st_LabelSelector :: string
  st_UpdatePartition :: "int32 option"
  st_Autoscaling :: "AutoscalingStatus option"
  st_Backup :: "BackupStatus option"
  st_Conditions :: "Condition list"

record KahunaCluster =
  kc_Name :: string
  kc_Namespace :: string
  kc_Generation :: int64
  kc_Spec :: KahunaClusterSpec
  kc_Status :: KahunaClusterStatus

abbreviation kc_Autoscaling :: "KahunaCluster \<Rightarrow> AutoscalingSpec option" where
  "kc_Autoscaling c \<equiv> sp_Autoscaling (kc_Spec c)"

abbreviation kc_TLS :: "KahunaCluster \<Rightarrow> TLSSpec" where
  "kc_TLS c \<equiv> sp_TLS (kc_Spec c)"

text \<open>The zero value of the status structs.\<close>

definition AutoscalingStatus_zero :: AutoscalingStatus where
  "AutoscalingStatus_zero = \<lparr>
     ast_DesiredReplicas = 0, ast_RecommendedReplicas = 0, ast_WritesPerSecondPerNode = None,
     ast_QueueDepthPerNode = None, ast_AboveTargetSince = None, ast_BelowTargetSince = None,
     ast_LastScaleTime = None\<rparr>"

definition BackupStatus_zero :: BackupStatus where
  "BackupStatus_zero = \<lparr>
     bst_LastFullScheduleTime = None, bst_LastIncrementalScheduleTime = None,
     bst_LastSuccessfulTime = None, bst_LastBackupID = [], bst_LastBackupType = [],
     bst_ConsecutiveFailures = 0, bst_LastFailureTime = None, bst_LastFailureMessage = [],
     bst_UnclaimedSince = None, bst_LastUnclaimedTime = None\<rparr>"

definition KahunaClusterStatus_zero :: KahunaClusterStatus where
  "KahunaClusterStatus_zero = \<lparr>
     st_ObservedGeneration = 0, st_Phase = None, st_Replicas = 0, st_ReadyReplicas = 0,
     st_Voters = 0, st_Learners = 0, st_MembershipVersion = 0, st_Members = [],
     st_Bootstrapped = False, st_BootstrapSize = 0, st_CurrentImage = [], st_LabelSelector = [],
     st_UpdatePartition = None, st_Autoscaling = None, st_Backup = None, st_Conditions = []\<rparr>"


section \<open>Condition types\<close>

definition ConditionAvailable :: string where "ConditionAvailable = ''Available''"
definition ConditionProgressing :: string where "ConditionProgressing = ''Progressing''"
definition ConditionRosterConverged :: string where "ConditionRosterConverged = ''RosterConverged''"
definition ConditionAutoscalingLimited :: string where
  "ConditionAutoscalingLimited = ''AutoscalingLimited''"
definition ConditionBackupFailing :: string where "ConditionBackupFailing = ''BackupFailing''"
definition ConditionBackupVolumeReady :: string where
  "ConditionBackupVolumeReady = ''BackupVolumeReady''"

lemmas condition_types =
  ConditionAvailable_def ConditionProgressing_def ConditionRosterConverged_def
  ConditionAutoscalingLimited_def ConditionBackupFailing_def ConditionBackupVolumeReady_def


section \<open>Admission rules\<close>

definition valid_storage :: "StorageSpec \<Rightarrow> bool" where
  "valid_storage s \<longleftrightarrow>
     sto_Backend s \<in> {''rocksdb'', ''sqlite'', ''memory''} \<and>
     sto_WALBackend s \<in> {''rocksdb'', ''sqlite'', ''memory''} \<and>
     pred_option (\<lambda>n. 1 \<le> n) (sto_SharedMemoryBudgetMB s) \<and>
     pred_option (\<lambda>n. 1 \<le> n) (sto_SharedMemtableBudgetMB s) \<and>
     sto_PVCRetentionPolicy s \<in> {''Retain'', ''Delete''}"

definition valid_tls :: "TLSSpec \<Rightarrow> bool" where
  "valid_tls t \<longleftrightarrow> (tls_SecretRef t \<noteq> None) \<noteq> (tls_CertManager t \<noteq> None)"

definition valid_replication :: "ReplicationSpec \<Rightarrow> bool" where
  "valid_replication r \<longleftrightarrow> 1 \<le> rep_Factor r \<and> rep_Factor r \<le> 3"

definition valid_autoscaling :: "AutoscalingSpec \<Rightarrow> bool" where
  "valid_autoscaling a \<longleftrightarrow>
     3 \<le> aus_MinReplicas a \<and> 3 \<le> aus_MaxReplicas a \<and>
     aus_MinReplicas a \<le> aus_MaxReplicas a \<and>
     in32 (aus_MinReplicas a) \<and> in32 (aus_MaxReplicas a) \<and>
     (aus_TargetWritesPerSecond a \<noteq> None \<or> aus_TargetQueueDepth a \<noteq> None) \<and>
     pred_option (\<lambda>n. 1 \<le> n \<and> in32 n) (aus_TargetWritesPerSecond a) \<and>
     pred_option (\<lambda>n. 1 \<le> n \<and> in32 n) (aus_TargetQueueDepth a) \<and>
     pred_option (\<lambda>n. 0 \<le> n \<and> in32 n) (aus_ScaleUpStabilizationSeconds a) \<and>
     pred_option (\<lambda>n. 0 \<le> n \<and> in32 n) (aus_ScaleDownStabilizationSeconds a) \<and>
     pred_option (\<lambda>n. 0 \<le> n \<and> n \<le> 100) (aus_TolerancePercent a)"

definition valid_backup :: "BackupSpec \<Rightarrow> bool" where
  "valid_backup b \<longleftrightarrow>
     1 \<le> length (bks_Schedule b) \<and>
     (bvs_ClaimName (bks_Volume b) \<noteq> None) \<noteq> (bvs_Claim (bks_Volume b) \<noteq> None) \<and>
     pred_option (\<lambda>n. 1 \<le> length n) (bvs_ClaimName (bks_Volume b)) \<and>
     length (bks_ClusterID b) \<le> 253 \<and>
     pred_option (\<lambda>r. pred_option (\<lambda>n. 1 \<le> n) (brs_MaxChains r)) (bks_Retention b)"

definition valid_spec :: "KahunaClusterSpec \<Rightarrow> bool" where
  "valid_spec s \<longleftrightarrow>
     pred_option (\<lambda>n. 1 \<le> n \<and> in32 n \<and> n \<noteq> 2) (sp_Replicas s) \<and>
     pred_option (\<lambda>n. 1 \<le> n) (sp_Partitions s) \<and>
     (sp_Autoscaling s = None \<or> sp_Replication s \<noteq> None) \<and>
     sp_LogLevel s \<in> {''Trace'', ''Debug'', ''Information'', ''Warning'', ''Error'', ''Critical'', ''None''} \<and>
     valid_storage (sp_Storage s) \<and> valid_tls (sp_TLS s) \<and>
     pred_option valid_replication (sp_Replication s) \<and>
     pred_option valid_autoscaling (sp_Autoscaling s) \<and>
     pred_option valid_backup (sp_Backup s)"

definition valid_update :: "KahunaClusterSpec \<Rightarrow> KahunaClusterSpec \<Rightarrow> bool" where
  "valid_update old new \<longleftrightarrow>
     valid_spec new \<and>
     (sp_Replicas old = Some 1) = (sp_Replicas new = Some 1) \<and>
     sp_Partitions new = sp_Partitions old \<and>
     sto_Backend (sp_Storage new) = sto_Backend (sp_Storage old) \<and>
     sto_Revision (sp_Storage new) = sto_Revision (sp_Storage old) \<and>
     sto_WALBackend (sp_Storage new) = sto_WALBackend (sp_Storage old) \<and>
     sto_WALRevision (sp_Storage new) = sto_WALRevision (sp_Storage old)"

lemma valid_autoscaling_bounds:
  assumes "valid_autoscaling a"
  shows "3 \<le> aus_MinReplicas a" "aus_MinReplicas a \<le> aus_MaxReplicas a"
    "in32 (aus_MinReplicas a)" "in32 (aus_MaxReplicas a)"
  using assms by (simp_all add: valid_autoscaling_def)

lemma valid_spec_autoscaling:
  "valid_spec s \<Longrightarrow> sp_Autoscaling s = Some a \<Longrightarrow> valid_autoscaling a"
  by (simp add: valid_spec_def)

lemma valid_spec_replicas:
  "valid_spec s \<Longrightarrow> sp_Replicas s = Some n \<Longrightarrow> 1 \<le> n \<and> in32 n \<and> n \<noteq> 2"
  by (simp add: valid_spec_def)


section \<open>An example resource\<close>

text \<open>A three-node cluster as a user would declare it, used to show that hypotheses can hold.\<close>

definition example_storage :: StorageSpec where
  "example_storage = \<lparr>sto_Backend = ''rocksdb'', sto_Revision = ''v1'', sto_WALBackend = ''rocksdb'',
     sto_WALRevision = ''v1'', sto_Data = \<lparr>vs_Size = 10, vs_StorageClassName = None, vs_AccessModes = []\<rparr>,
     sto_WAL = None, sto_SyncWrites = None, sto_DirectReads = None, sto_SharedMemory = None,
     sto_SharedMemoryBudgetMB = None, sto_SharedMemtableBudgetMB = None,
     sto_PVCRetentionPolicy = ''Retain''\<rparr>"

definition example_tls :: TLSSpec where
  "example_tls = \<lparr>tls_SecretRef = Some ''keystore'', tls_KeystoreKey = [], tls_PasswordSecretRef = None,
     tls_CertManager = None, tls_InsecureSkipVerify = None\<rparr>"

definition example_spec :: KahunaClusterSpec where
  "example_spec = KahunaClusterSpec.make
     (Some 3) None None None ''kahuna:1.12.5'' [] [] None example_storage example_tls
     None None None None ''Information'' [] [] Map.empty [] None [] Map.empty Map.empty []
     None None None None"

lemma example_spec_fields [simp]:
  "sp_Replicas example_spec = Some 3" "sp_Replication example_spec = None"
  "sp_Autoscaling example_spec = None" "sp_Backup example_spec = None"
  "sp_Image example_spec = ''kahuna:1.12.5''" "sp_Partitions example_spec = None"
  "sp_Storage example_spec = example_storage" "sp_TLS example_spec = example_tls"
  "sp_Ports example_spec = None" "sp_LogLevel example_spec = ''Information''"
  "sp_ExtraArgs example_spec = []" "sp_PodLabels example_spec = Map.empty"
  "sp_PodAnnotations example_spec = Map.empty"
  by (simp_all add: example_spec_def KahunaClusterSpec.make_def)

definition example_cluster :: KahunaCluster where
  "example_cluster = \<lparr>kc_Name = ''db'', kc_Namespace = ''prod'', kc_Generation = 1,
     kc_Spec = example_spec, kc_Status = KahunaClusterStatus_zero\<rparr>"

definition example_autoscaling :: AutoscalingSpec where
  "example_autoscaling = \<lparr>aus_MinReplicas = 3, aus_MaxReplicas = 9,
     aus_TargetWritesPerSecond = Some 100, aus_TargetQueueDepth = None,
     aus_ScaleUpStabilizationSeconds = None, aus_ScaleDownStabilizationSeconds = None,
     aus_TolerancePercent = None\<rparr>"

definition example_pod :: "string \<Rightarrow> string \<Rightarrow> Pod" where
  "example_pod name ip = \<lparr>pod_Name = name, pod_UID = name, pod_DeletionTimestamp = None,
     pod_Annotations = Map.empty, pod_Containers = [(''kahuna'', ''kahuna:1.12.5'')], pod_PodIP = ip,
     pod_Conditions = [\<lparr>pc_Type = ''Ready'', pc_Status = ConditionTrue\<rparr>]\<rparr>"

lemma example_valid:
  "valid_spec (kc_Spec example_cluster)" "valid_autoscaling example_autoscaling"
  by (simp_all add: example_cluster_def valid_spec_def valid_storage_def example_storage_def
      valid_tls_def example_tls_def example_autoscaling_def valid_autoscaling_def)

end
