(* ===== verification/Go_Float.thy ===== *)
theory Go_Float
  imports Go_Prelude Complex_Main "HOL-Library.Log_Nat"
begin

text \<open>
  Go's \<open>float64\<close>: IEEE 754 binary64 with rounding to nearest, ties to even. A finite value is
  the rational number it stands for, and every operation is the exact one followed by \<open>rnd\<close>. The
  sign of a zero is not represented: the operator divides only by numbers converted from integers,
  where a zero is positive, so no result depends on it.

  The result of converting a float to an integer type that cannot hold it is left to the
  implementation by the language, so it is a parameter (\<open>f64_impl\<close>) of the definitions that convert.
\<close>

datatype f64 = Fin rat | PInf | NInf | NaN

record f64_impl =
  impl_int32 :: "f64 \<Rightarrow> int32"
  impl_int64 :: "f64 \<Rightarrow> int64"


section \<open>Rounding\<close>

definition ilog2 :: "rat \<Rightarrow> int" where
  "ilog2 x = (let (p, q) = quotient_of x; e = bitlen p - bitlen q
              in if 2 powi e \<le> x then e else e - 1)"

definition round_even :: "rat \<Rightarrow> int" where
  "round_even y = (let f = \<lfloor>y\<rfloor>; d = y - of_int f
                   in if d < 1 / 2 \<or> (d = 1 / 2 \<and> even f) then f else f + 1)"

text \<open>The exponent of the unit in the last place: 53 significant bits, fewer when subnormal.\<close>

definition ulp_exp :: "rat \<Rightarrow> int" where
  "ulp_exp x = max (ilog2 \<bar>x\<bar>) (- 1022) - 52"

definition f64_limit :: rat where
  "f64_limit = 2 ^ 1024"

definition rnd :: "rat \<Rightarrow> f64" where
  "rnd x =
     (if x = 0 then Fin 0
      else let r = of_int (round_even (x / 2 powi ulp_exp x)) * 2 powi ulp_exp x
           in if r \<ge> f64_limit then PInf else if r \<le> - f64_limit then NInf else Fin r)"


section \<open>Operations\<close>

fun f_add :: "f64 \<Rightarrow> f64 \<Rightarrow> f64" where
  "f_add (Fin x) (Fin y) = rnd (x + y)"
| "f_add NaN _ = NaN"
| "f_add _ NaN = NaN"
| "f_add PInf NInf = NaN"
| "f_add NInf PInf = NaN"
| "f_add PInf _ = PInf"
| "f_add _ PInf = PInf"
| "f_add NInf _ = NInf"
| "f_add _ NInf = NInf"

fun f_neg :: "f64 \<Rightarrow> f64" where
  "f_neg (Fin x) = Fin (- x)"
| "f_neg PInf = NInf"
| "f_neg NInf = PInf"
| "f_neg NaN = NaN"

definition f_sub :: "f64 \<Rightarrow> f64 \<Rightarrow> f64" where
  "f_sub a b = f_add a (f_neg b)"

definition f_sign_inf :: "rat \<Rightarrow> f64" where
  "f_sign_inf s = (if s = 0 then NaN else if 0 < s then PInf else NInf)"

fun f_mul :: "f64 \<Rightarrow> f64 \<Rightarrow> f64" where
  "f_mul (Fin x) (Fin y) = rnd (x * y)"
| "f_mul NaN _ = NaN"
| "f_mul _ NaN = NaN"
| "f_mul PInf (Fin y) = f_sign_inf y"
| "f_mul NInf (Fin y) = f_sign_inf (- y)"
| "f_mul (Fin x) PInf = f_sign_inf x"
| "f_mul (Fin x) NInf = f_sign_inf (- x)"
| "f_mul PInf PInf = PInf"
| "f_mul NInf NInf = PInf"
| "f_mul PInf NInf = NInf"
| "f_mul NInf PInf = NInf"

fun f_div :: "f64 \<Rightarrow> f64 \<Rightarrow> f64" where
  "f_div (Fin x) (Fin y) = (if y = 0 then f_sign_inf x else rnd (x / y))"
| "f_div NaN _ = NaN"
| "f_div _ NaN = NaN"
| "f_div (Fin _) PInf = Fin 0"
| "f_div (Fin _) NInf = Fin 0"
| "f_div PInf (Fin y) = (if y < 0 then NInf else PInf)"
| "f_div NInf (Fin y) = (if y < 0 then PInf else NInf)"
| "f_div _ _ = NaN"

fun f_less :: "f64 \<Rightarrow> f64 \<Rightarrow> bool" where
  "f_less (Fin x) (Fin y) = (x < y)"
| "f_less NaN _ = False"
| "f_less _ NaN = False"
| "f_less NInf NInf = False"
| "f_less NInf _ = True"
| "f_less _ NInf = False"
| "f_less PInf _ = False"
| "f_less (Fin _) PInf = True"

fun f_abs :: "f64 \<Rightarrow> f64" where
  "f_abs (Fin x) = Fin \<bar>x\<bar>"
| "f_abs NInf = PInf"
| "f_abs x = x"

text \<open>The built-in \<open>max\<close>: a NaN operand makes the result NaN.\<close>

definition f_max :: "f64 \<Rightarrow> f64 \<Rightarrow> f64" where
  "f_max a b = (if a = NaN \<or> b = NaN then NaN else if f_less a b then b else a)"

definition of_int64 :: "int \<Rightarrow> f64" where
  "of_int64 i = rnd (of_int i)"

text \<open>\<open>math.Ceil\<close> and \<open>math.Round\<close>, which rounds halves away from zero.\<close>

fun f_ceil :: "f64 \<Rightarrow> f64" where
  "f_ceil (Fin x) = Fin (of_int \<lceil>x\<rceil>)"
| "f_ceil x = x"

fun f_round :: "f64 \<Rightarrow> f64" where
  "f_round (Fin x) = Fin (of_int (if x < 0 then - \<lfloor>- x + 1 / 2\<rfloor> else \<lfloor>x + 1 / 2\<rfloor>))"
| "f_round x = x"

definition trunc :: "rat \<Rightarrow> int" where
  "trunc x = (if x < 0 then - \<lfloor>- x\<rfloor> else \<lfloor>x\<rfloor>)"

definition to_int32 :: "f64_impl \<Rightarrow> f64 \<Rightarrow> int32" where
  "to_int32 impl a = (case a of Fin x \<Rightarrow> if in32 (trunc x) then trunc x else impl_int32 impl a
                      | _ \<Rightarrow> impl_int32 impl a)"

definition to_int64 :: "f64_impl \<Rightarrow> f64 \<Rightarrow> int64" where
  "to_int64 impl a = (case a of Fin x \<Rightarrow> if in64 (trunc x) then trunc x else impl_int64 impl a
                      | _ \<Rightarrow> impl_int64 impl a)"

text \<open>A value that is a number at least zero, possibly infinite.\<close>

fun f_nonneg :: "f64 \<Rightarrow> bool" where
  "f_nonneg (Fin x) = (0 \<le> x)"
| "f_nonneg PInf = True"
| "f_nonneg _ = False"

fun f_pos :: "f64 \<Rightarrow> bool" where
  "f_pos (Fin x) = (0 < x)"
| "f_pos PInf = True"
| "f_pos _ = False"


section \<open>Facts on rounding\<close>

lemma f64_limit_ge: "2 ^ 53 \<le> f64_limit" "0 < f64_limit"
  unfolding f64_limit_def by (rule power_increasing, simp, simp) (rule zero_less_power, simp)

lemma powi_le_cancel: "2 powi m \<le> (2 powi n :: rat) \<longleftrightarrow> m \<le> n"
proof
  assume "2 powi m \<le> (2 powi n :: rat)"
  then show "m \<le> n"
    by (rule contrapos_pp) (simp add: not_le power_int_strict_increasing)
qed (simp add: power_int_increasing)

lemma powi_diff: "(2::rat) powi (m - n) = 2 powi m / 2 powi n"
  by (simp add: power_int_diff)

lemma of_int_pow2_bounds:
  assumes "2 ^ (b - 1) \<le> p" "p < 2 ^ b" "1 \<le> b"
  shows "(2::rat) powi (int b - 1) \<le> of_int p" "of_int p < (2::rat) powi int b"
proof -
  have "int b - 1 = int (b - 1)" using assms(3) by (simp add: of_nat_diff)
  then have "(2::rat) powi (int b - 1) = of_int (2 ^ (b - 1))"
    by (simp only: power_int_of_nat of_int_power of_int_numeral)
  then show "(2::rat) powi (int b - 1) \<le> of_int p"
    using assms(1) by (simp only: of_int_le_iff)
  have "(2::rat) powi int b = of_int (2 ^ b)"
    by (simp only: power_int_of_nat of_int_power of_int_numeral)
  then show "of_int p < (2::rat) powi int b"
    using assms(2) by (simp only: of_int_less_iff)
qed

lemma ilog2_bounds:
  assumes "0 < x"
  shows "2 powi ilog2 x \<le> x" "x < 2 powi (ilog2 x + 1)"
proof -
  obtain p q where pq: "quotient_of x = (p, q)" by (cases "quotient_of x")
  have q: "0 < q" using quotient_of_denom_pos [OF pq] .
  have x: "x = of_int p / of_int q" using quotient_of_div [OF pq] .
  have p: "0 < p" using assms x q by (simp add: zero_less_divide_iff)
  define bp where "bp = nat (bitlen p)"
  define bq where "bq = nat (bitlen q)"
  have bpos: "1 \<le> bitlen p" "1 \<le> bitlen q"
    using p q by (auto simp: bitlen_alt_def)
  have P: "2 ^ (bp - 1) \<le> p" "p < 2 ^ bp" and Q: "2 ^ (bq - 1) \<le> q" "q < 2 ^ bq"
    using bitlen_bounds [OF p] bitlen_bounds [OF q] bpos
    by (simp_all add: bp_def bq_def nat_diff_distrib)
  have bb: "1 \<le> bp" "1 \<le> bq" "bitlen p = int bp" "bitlen q = int bq"
    using bpos by (auto simp: bp_def bq_def)
  have P': "(2::rat) powi (int bp - 1) \<le> of_int p" "of_int p < (2::rat) powi int bp"
    using of_int_pow2_bounds [OF P bb(1)] .
  have Q': "(2::rat) powi (int bq - 1) \<le> of_int q" "of_int q < (2::rat) powi int bq"
    using of_int_pow2_bounds [OF Q bb(2)] .
  have up: "x < 2 powi (int bp - int bq + 1)"
  proof -
    have "x < 2 powi int bp / of_int q"
      using P'(2) q by (simp add: x divide_strict_right_mono)
    also have "\<dots> \<le> 2 powi int bp / 2 powi (int bq - 1)"
      using Q'(1) q by (intro divide_left_mono) auto
    also have "\<dots> = 2 powi (int bp - (int bq - 1))"
      by (simp only: powi_diff)
    also have "int bp - (int bq - 1) = int bp - int bq + 1" by simp
    finally show ?thesis .
  qed
  have low: "2 powi (int bp - int bq - 1) \<le> x"
  proof -
    have "int bp - int bq - 1 = (int bp - 1) - int bq" by simp
    then have "2 powi (int bp - int bq - 1) = (2::rat) powi (int bp - 1) / 2 powi int bq"
      by (simp only: powi_diff)
    also have "\<dots> \<le> 2 powi (int bp - 1) / of_int q"
      using Q'(2) q by (intro divide_left_mono) auto
    also have "\<dots> \<le> x"
      using P'(1) q by (simp add: x divide_right_mono)
    finally show ?thesis .
  qed
  show "2 powi ilog2 x \<le> x" "x < 2 powi (ilog2 x + 1)"
    using up low by (auto simp: ilog2_def pq bb Let_def)
qed

lemma round_even_of_int [simp]: "round_even (of_int n) = n"
  by (simp add: round_even_def)

lemma round_even_mono_int:
  assumes "of_int n \<le> y"
  shows "n \<le> round_even y"
proof -
  from assms have "n \<le> \<lfloor>y\<rfloor>" by (simp add: le_floor_iff)
  then show ?thesis by (simp add: round_even_def Let_def)
qed

lemma rnd_nonneg:
  assumes "0 \<le> x"
  shows "f_nonneg (rnd x)"
proof -
  have "0 \<le> x / 2 powi ulp_exp x" using assms by simp
  then have "0 \<le> round_even (x / 2 powi ulp_exp x)"
    by (intro round_even_mono_int) simp
  then have "0 \<le> of_int (round_even (x / 2 powi ulp_exp x)) * (2::rat) powi ulp_exp x"
    by simp
  moreover have "\<not> r \<le> - f64_limit" if "0 \<le> r" for r :: rat
    using that f64_limit_ge(2) by linarith
  ultimately show ?thesis by (auto simp: rnd_def Let_def)
qed

text \<open>A normal number never rounds below the power of two at or below it, hence never to zero.\<close>

lemma rnd_pos:
  assumes "2 powi (- 1022) \<le> x"
  shows "f_pos (rnd x)"
proof -
  have x: "0 < x" using assms by (rule less_le_trans [rotated]) simp
  have e: "- 1022 \<le> ilog2 x"
  proof (rule ccontr)
    assume "\<not> - 1022 \<le> ilog2 x"
    then have "(2::rat) powi (ilog2 x + 1) \<le> 2 powi (- 1022)"
      unfolding powi_le_cancel by linarith
    with ilog2_bounds(2) [OF x] assms show False by linarith
  qed
  let ?u = "(2::rat) powi (ilog2 x - 52)"
  have "(2::rat) powi ilog2 x = 2 ^ 52 * ?u"
    by (simp add: powi_diff)
  then have "2 ^ 52 * ?u \<le> x" using ilog2_bounds(1) [OF x] by simp
  then have "2 ^ 52 \<le> x / ?u" by (simp add: pos_le_divide_eq)
  then have "2 ^ 52 \<le> round_even (x / ?u)"
    by (intro round_even_mono_int) simp
  then have "0 < of_int (round_even (x / ?u)) * ?u" by simp
  moreover have "ulp_exp x = ilog2 x - 52" using e x by (simp add: ulp_exp_def)
  ultimately have "0 < of_int (round_even (x / 2 powi ulp_exp x)) * (2::rat) powi ulp_exp x" by simp
  then show ?thesis using x f64_limit_ge(2) by (auto simp: rnd_def Let_def)
qed

text \<open>Integers of up to 53 bits are represented exactly.\<close>

lemma rnd_of_int:
  assumes "\<bar>n\<bar> < 2 ^ 53"
  shows "rnd (of_int n) = Fin (of_int n)"
proof (cases "n = 0")
  case True
  then show ?thesis by (simp add: rnd_def)
next
  case False
  let ?x = "of_int n :: rat"
  have x: "1 \<le> \<bar>?x\<bar>" using False by linarith
  have "(2::rat) powi ilog2 \<bar>?x\<bar> \<le> \<bar>?x\<bar>" using ilog2_bounds(1) [of "\<bar>?x\<bar>"] x by simp
  also have lt: "\<bar>?x\<bar> < 2 ^ 53"
  proof -
    have "of_int \<bar>n\<bar> < (of_int (2 ^ 53) :: rat)" using assms by (simp only: of_int_less_iff)
    then show ?thesis by (simp only: of_int_abs of_int_power of_int_numeral)
  qed
  finally have "\<not> (2::rat) powi 53 \<le> 2 powi ilog2 \<bar>?x\<bar>" by simp
  then have le: "ilog2 \<bar>?x\<bar> \<le> 52" unfolding powi_le_cancel by simp
  have ge: "0 \<le> ilog2 \<bar>?x\<bar>"
  proof (rule ccontr)
    assume "\<not> 0 \<le> ilog2 \<bar>?x\<bar>"
    then have "(2::rat) powi (ilog2 \<bar>?x\<bar> + 1) \<le> 2 powi 0" unfolding powi_le_cancel by linarith
    moreover have "\<bar>?x\<bar> < 2 powi (ilog2 \<bar>?x\<bar> + 1)" using x by (intro ilog2_bounds(2)) linarith
    ultimately show False using x by simp
  qed
  define k where "k = nat (52 - ilog2 \<bar>?x\<bar>)"
  have u: "ulp_exp ?x = - int k" using le ge by (simp add: ulp_exp_def k_def)
  have "?x / 2 powi ulp_exp ?x = of_int (n * 2 ^ k)"
    by (simp add: u power_int_minus divide_inverse)
  then have "of_int (round_even (?x / 2 powi ulp_exp ?x)) * 2 powi ulp_exp ?x = ?x"
    by (simp only: round_even_of_int) (simp add: u power_int_minus)
  moreover have "\<bar>?x\<bar> < f64_limit"
    using lt f64_limit_ge(1) by linarith
  ultimately show ?thesis using False by (auto simp: rnd_def Let_def)
qed

lemma of_int64_exact: "\<bar>n\<bar> < 2 ^ 53 \<Longrightarrow> of_int64 n = Fin (of_int n)"
  by (simp add: of_int64_def rnd_of_int)

lemma rnd_exact_int [simp]:
  "\<bar>numeral n :: int\<bar> < 2 ^ 53 \<Longrightarrow> rnd (numeral n) = Fin (numeral n)"
  "rnd 0 = Fin 0" "rnd 1 = Fin 1"
  using rnd_of_int [of "numeral n"] rnd_of_int [of 0] rnd_of_int [of 1] by simp_all

lemma f_nonneg_add: "f_nonneg a \<Longrightarrow> f_nonneg b \<Longrightarrow> f_nonneg (f_add a b)"
  by (cases a; cases b) (auto intro: rnd_nonneg)

lemma f_nonneg_div: "f_nonneg a \<Longrightarrow> f_pos b \<Longrightarrow> b \<noteq> PInf \<Longrightarrow> f_nonneg (f_div a b)"
  by (cases a; cases b) (auto intro!: rnd_nonneg)

text \<open>Rounding does not pass a power of two, so a moderate number stays finite.\<close>

lemma round_even_le_int:
  assumes "y \<le> of_int n"
  shows "round_even y \<le> n"
proof (cases "\<lfloor>y\<rfloor> = n")
  case True
  then have "of_int n \<le> y" by (simp add: le_floor_iff [symmetric])
  with assms have "y = of_int n" by (rule antisym)
  then show ?thesis by simp
next
  case False
  with floor_mono [OF assms] have "\<lfloor>y\<rfloor> < n" by simp
  then show ?thesis by (simp add: round_even_def Let_def)
qed

lemma rnd_le_powi:
  assumes "0 < x" "x \<le> 2 powi e" "- 1000 \<le> e" "e \<le> 1000"
  shows "\<exists>r. rnd x = Fin r \<and> 0 \<le> r \<and> r \<le> 2 powi e"
proof -
  define u where "u = (2::rat) powi ulp_exp x"
  define n where "n = round_even (x / u)"
  define r where "r = of_int n * u"
  have u: "0 < u" by (simp add: u_def)
  have "2 powi ilog2 x \<le> (2::rat) powi e"
    using ilog2_bounds(1) [OF assms(1)] assms(2) by (rule order_trans)
  then have "ilog2 x \<le> e" unfolding powi_le_cancel .
  then have le: "ulp_exp x \<le> e" using assms(1,3) by (simp add: ulp_exp_def)
  define j where "j = nat (e - ulp_exp x)"
  have "e = int j + ulp_exp x" using le by (simp add: j_def)
  then have "(2::rat) powi e = 2 powi int j * u" unfolding u_def by (simp add: power_int_add)
  then have k: "(2::rat) powi e = of_int (2 ^ j) * u"
    unfolding power_int_of_nat of_int_power of_int_numeral .
  have "x / u \<le> of_int (2 ^ j)"
    using assms(2) unfolding k pos_divide_le_eq [OF u] .
  then have "n \<le> 2 ^ j" unfolding n_def by (rule round_even_le_int)
  then have "(of_int n :: rat) \<le> of_int (2 ^ j)" unfolding of_int_le_iff .
  then have rk: "r \<le> 2 powi e" unfolding k r_def using u by (intro mult_right_mono) linarith+
  have "(2::rat) powi e < 2 powi 1024"
    by (rule power_int_strict_increasing) (use assms(4) in simp_all)
  also have "(2::rat) powi 1024 = f64_limit"
    unfolding f64_limit_def by (rule power_int_numeral)
  finally have rl: "\<not> f64_limit \<le> r" using rk by linarith
  have "f_nonneg (rnd x)" using assms(1) by (intro rnd_nonneg) simp
  moreover have "rnd x = (if r \<ge> f64_limit then PInf else if r \<le> - f64_limit then NInf else Fin r)"
    using assms(1) unfolding rnd_def Let_def r_def n_def u_def by simp
  ultimately show ?thesis using rk rl by (cases "r \<le> - f64_limit") simp_all
qed

lemma rnd_le_pow:
  assumes "0 < x" "x \<le> 2 ^ k" "k \<le> 1000"
  shows "\<exists>r. rnd x = Fin r \<and> 0 \<le> r \<and> r \<le> 2 ^ k"
  using rnd_le_powi [of x "int k"] assms by (simp add: power_int_of_nat)

lemma of_int64_bounds:
  assumes "1 \<le> n" "in64 n"
  shows "\<exists>r. of_int64 n = Fin r \<and> 1 \<le> r \<and> r \<le> 2 ^ 63"
proof -
  have n: "1 \<le> (of_int n :: rat)" using assms(1) by simp
  have "of_int n \<le> (of_int (2 ^ 63) :: rat)"
    using assms(2) unfolding of_int_le_iff in64_def by linarith
  then have "\<exists>r. rnd (of_int n) = Fin r \<and> 0 \<le> r \<and> r \<le> 2 ^ 63"
    using n by (intro rnd_le_pow) simp_all
  then obtain r where r: "rnd (of_int n) = Fin r" "r \<le> 2 ^ 63" by blast
  have "1 \<le> r"
  proof (cases "n < 2 ^ 53")
    case True
    then show ?thesis using r(1) rnd_of_int [of n] assms(1) by simp
  next
    case False
    then have b: "of_int (2 ^ 53) \<le> (of_int n :: rat)" unfolding of_int_le_iff by linarith
    let ?x = "of_int n :: rat" let ?u = "(2::rat) powi (ilog2 ?x - 52)"
    have "2 powi 53 < (2::rat) powi (ilog2 ?x + 1)"
      using b ilog2_bounds(2) [of ?x] n by simp
    then have "\<not> (2::rat) powi (ilog2 ?x + 1) \<le> 2 powi 53" by simp
    then have e: "53 \<le> ilog2 ?x" unfolding powi_le_cancel by linarith
    then have up: "ulp_exp ?x = ilog2 ?x - 52" using n by (simp add: ulp_exp_def)
    have "(2::rat) powi ilog2 ?x = 2 ^ 52 * ?u" by (simp add: powi_diff)
    then have "2 ^ 52 * ?u \<le> ?x" using ilog2_bounds(1) [of ?x] n by simp
    moreover have "1 * ?u \<le> 2 ^ 52 * ?u" by (rule mult_right_mono) simp_all
    ultimately have "1 * ?u \<le> ?x" by (rule order_trans [rotated])
    then have "1 \<le> ?x / ?u" by (simp add: pos_le_divide_eq)
    then have "1 \<le> round_even (?x / ?u)" by (intro round_even_mono_int) simp
    moreover have "(2::rat) powi 0 \<le> ?u" unfolding powi_le_cancel using e by simp
    ultimately have "1 * 1 \<le> of_int (round_even (?x / ?u)) * ?u"
      by (intro mult_mono) simp_all
    moreover have "r = of_int (round_even (?x / ?u)) * ?u"
      using r(1) n by (simp add: rnd_def Let_def up split: if_splits)
    ultimately show ?thesis by simp
  qed
  with r show ?thesis by (auto simp: of_int64_def)
qed

text \<open>A tenth, and every smaller positive number, stays well below one.\<close>

lemma rnd_small: "0 < x \<Longrightarrow> x \<le> 1 / 2 \<Longrightarrow> f_less (rnd x) (Fin 1)"
  using rnd_le_powi [of x "- 1"] by (auto simp: power_int_minus)

text \<open>One possible implementation of the conversions the language leaves open.\<close>

definition example_impl :: f64_impl where
  "example_impl = \<lparr>impl_int32 = (\<lambda>_. - (2 ^ 31)), impl_int64 = (\<lambda>_. - (2 ^ 63))\<rparr>"

end
