(* ===== verification/Kahuna_Client.thy ===== *)
theory Kahuna_Client
  imports Go_Prelude Go_Float
begin

text \<open>
  The client of the Kahuna server's cluster endpoints, from \<open>src/internal/kahuna/client.go\<close>: the
  roster, placement, metrics and backup documents with their methods, and the HTTP calls that read
  them. The transport (\<open>http.Client\<close>) and the JSON decoder are parameters: a call is a request
  record (method, URL, body, deadline) answered by an error or a response, and decoding takes the
  body and the value decoded into, and returns the new value with an optional error.

  \<open>goerr\<close> is every error the operator builds or receives, with the wrapping of \<open>%w\<close> kept, so
  that \<open>errors.Is\<close> and \<open>errors.As\<close> are functions on it and \<open>err_text\<close> is \<open>Error()\<close>.
\<close>


section \<open>Errors\<close>

record BackupError =
  be_StatusCode :: int
  be_Outcome :: string
  be_Detail :: string

datatype api_reason = NotFound | AlreadyExists | Conflict | NoMatch | OtherReason

datatype goerr =
    Errorf string
  | ErrPlacementUnsupported
  | BackupErr BackupError
  | UnclaimedErr "string list"
  | APIErr api_reason string
  | WrapErr string goerr

definition BackupError_Error :: "BackupError \<Rightarrow> string" where
  "BackupError_Error e =
     (if be_Detail e = [] then
        ''backup refused with HTTP '' @ itoa (be_StatusCode e) @ '' ('' @ be_Outcome e @ '')''
      else
        ''backup refused with HTTP '' @ itoa (be_StatusCode e) @ '' ('' @ be_Outcome e @ ''): '' @ be_Detail e)"

fun err_text :: "goerr \<Rightarrow> string" where
  "err_text (Errorf s) = s"
| "err_text ErrPlacementUnsupported = ''the server does not support replica placement''"
| "err_text (BackupErr e) = BackupError_Error e"
| "err_text (UnclaimedErr rs) = ''no node took the backup: '' @ join ''; '' rs"
| "err_text (APIErr _ s) = s"
| "err_text (WrapErr p e) = p @ '': '' @ err_text e"

fun is_placement_unsupported :: "goerr \<Rightarrow> bool" where
  "is_placement_unsupported ErrPlacementUnsupported = True"
| "is_placement_unsupported (WrapErr _ e) = is_placement_unsupported e"
| "is_placement_unsupported _ = False"

fun as_BackupError :: "goerr \<Rightarrow> BackupError option" where
  "as_BackupError (BackupErr e) = Some e"
| "as_BackupError (WrapErr _ e) = as_BackupError e"
| "as_BackupError _ = None"

fun as_unclaimed :: "goerr \<Rightarrow> string list option" where
  "as_unclaimed (UnclaimedErr rs) = Some rs"
| "as_unclaimed (WrapErr _ e) = as_unclaimed e"
| "as_unclaimed _ = None"

fun api_error_reason :: "goerr \<Rightarrow> api_reason option" where
  "api_error_reason (APIErr r _) = Some r"
| "api_error_reason (WrapErr _ e) = api_error_reason e"
| "api_error_reason _ = None"


section \<open>The roster\<close>

definition RoleVoter :: string where "RoleVoter = ''Voter''"
definition RoleLearner :: string where "RoleLearner = ''Learner''"
definition RoleLeaving :: string where "RoleLeaving = ''Leaving''"
definition RoleNotMember :: string where "RoleNotMember = ''NotMember''"

lemmas roles = RoleVoter_def RoleLearner_def RoleLeaving_def RoleNotMember_def

record Member =
  mem_Endpoint :: string
  mem_NodeID :: int32
  mem_Role :: string
  mem_JoinedVersion :: int64

definition IsWitness :: "Member \<Rightarrow> bool" where
  "IsWitness m \<longleftrightarrow> mem_NodeID m = 0 \<and> HasSuffix (mem_Endpoint m) '':0''"

record Membership =
  mbr_MembershipVersion :: int64
  mbr_Members :: "Member list"
  mbr_LocalRole :: string
  mbr_Initialized :: bool

definition Voters :: "Membership \<Rightarrow> Member list" where
  "Voters m = filter (\<lambda>mem. mem_Role mem = RoleVoter) (mbr_Members m)"

definition HasVoter :: "Membership \<Rightarrow> string \<Rightarrow> bool" where
  "HasVoter m endpoint \<longleftrightarrow>
     list_ex (\<lambda>mem. mem_Endpoint mem = endpoint \<and> mem_Role mem = RoleVoter) (mbr_Members m)"

definition Contains :: "Membership \<Rightarrow> string \<Rightarrow> bool" where
  "Contains m endpoint \<longleftrightarrow> list_ex (\<lambda>mem. mem_Endpoint mem = endpoint) (mbr_Members m)"

record Health =
  hea_Ready :: bool
  hea_Initialized :: bool
  hea_LocalRole :: string


section \<open>Leaving\<close>

definition OutcomeCommitted :: string where "OutcomeCommitted = ''Committed''"
definition OutcomeNotAMember :: string where "OutcomeNotAMember = ''NotAMember''"
definition OutcomeRefusedInsufficientVoters :: string where
  "OutcomeRefusedInsufficientVoters = ''RefusedInsufficientVoters''"

lemmas leave_outcomes =
  OutcomeCommitted_def OutcomeNotAMember_def OutcomeRefusedInsufficientVoters_def

record LeaveResult =
  lr_Left :: bool
  lr_Outcome :: string
  lr_MembershipVersion :: int64
  lr_Retryable :: bool
  lr_Reason :: string

definition Removed :: "LeaveResult \<Rightarrow> bool" where
  "Removed l \<longleftrightarrow> lr_Outcome l = OutcomeCommitted \<or> lr_Outcome l = OutcomeNotAMember"


section \<open>Placement\<close>

definition PartitionStateActive :: string where "PartitionStateActive = ''Active''"

record ReplicaPlacement =
  rp_Endpoint :: string
  rp_Role :: string

record PartitionPlacement =
  pp_PartitionID :: int32
  pp_State :: string
  pp_EffectiveReplicationFactor :: int32
  pp_Replicas :: "ReplicaPlacement list"

record Placement =
  plc_ReplicationFactor :: int32
  plc_RebalancerEnabled :: bool
  plc_Initialized :: bool
  plc_Partitions :: "PartitionPlacement list"

definition FullyReplicated :: "Placement \<Rightarrow> int32 list" where
  "FullyReplicated p = map pp_PartitionID
     (filter (\<lambda>part. pp_PartitionID part > 0 \<and> pp_State part = PartitionStateActive \<and>
        pp_Replicas part = []) (plc_Partitions p))"


section \<open>Metrics\<close>

definition MetricKindCounter :: string where "MetricKindCounter = ''Counter''"
definition MetricKindGauge :: string where "MetricKindGauge = ''Gauge''"

record MetricRow =
  mr_Metric :: string
  mr_Tags :: string
  mr_Kind :: string
  mr_Count :: int64
  mr_Total :: "f64 option"
  mr_Last :: "f64 option"

record Metrics =
  mtr_Rows :: "MetricRow list"
  mtr_MonotonicMs :: int64

fun CounterTotal_loop :: "string \<Rightarrow> MetricRow list \<Rightarrow> f64 \<times> bool \<Rightarrow> f64 \<times> bool" where
  "CounterTotal_loop metric [] acc = acc"
| "CounterTotal_loop metric (r # rs) (tot, found) =
     CounterTotal_loop metric rs
       (case mr_Total r of
          Some v \<Rightarrow> if mr_Metric r = metric \<and> mr_Kind r = MetricKindCounter
                    then (f_add tot v, True) else (tot, found)
        | None \<Rightarrow> (tot, found))"

definition CounterTotal :: "Metrics \<Rightarrow> string \<Rightarrow> f64 \<times> bool" where
  "CounterTotal m metric = CounterTotal_loop metric (mtr_Rows m) (Fin 0, False)"

fun GaugeSum_loop :: "string \<Rightarrow> MetricRow list \<Rightarrow> f64 \<times> bool \<Rightarrow> f64 \<times> bool" where
  "GaugeSum_loop metric [] acc = acc"
| "GaugeSum_loop metric (r # rs) (tot, found) =
     GaugeSum_loop metric rs
       (case mr_Last r of
          Some v \<Rightarrow> if mr_Metric r = metric \<and> mr_Kind r = MetricKindGauge
                    then (f_add tot v, True) else (tot, found)
        | None \<Rightarrow> (tot, found))"

definition GaugeSum :: "Metrics \<Rightarrow> string \<Rightarrow> f64 \<times> bool" where
  "GaugeSum m metric = GaugeSum_loop metric (mtr_Rows m) (Fin 0, False)"


section \<open>Backups\<close>

definition BackupTypeFull :: string where "BackupTypeFull = ''Full''"
definition BackupTypeIncremental :: string where "BackupTypeIncremental = ''Incremental''"

definition BackupOutcomeNotBackupCoordinator :: string where
  "BackupOutcomeNotBackupCoordinator = ''NotBackupCoordinator''"
definition BackupOutcomeRetryableLeadershipLoss :: string where
  "BackupOutcomeRetryableLeadershipLoss = ''RetryableLeadershipLoss''"
definition BackupOutcomeCutUnverified :: string where
  "BackupOutcomeCutUnverified = ''CutUnverified''"
definition BackupOutcomeNotConfigured :: string where
  "BackupOutcomeNotConfigured = ''NotConfigured''"
definition BackupOutcomeParentMissing :: string where
  "BackupOutcomeParentMissing = ''ParentMissing''"
definition BackupOutcomeTopologyChanged :: string where
  "BackupOutcomeTopologyChanged = ''TopologyChanged''"
definition BackupOutcomePartitionCaptureFailed :: string where
  "BackupOutcomePartitionCaptureFailed = ''PartitionCaptureFailed''"

lemmas backup_outcomes =
  BackupOutcomeNotBackupCoordinator_def BackupOutcomeRetryableLeadershipLoss_def
  BackupOutcomeCutUnverified_def BackupOutcomeNotConfigured_def BackupOutcomeParentMissing_def
  BackupOutcomeTopologyChanged_def BackupOutcomePartitionCaptureFailed_def

record BackupInfo =
  bi_BackupID :: string
  bi_Type :: string
  bi_ParentBackupID :: string
  bi_ClusterID :: string
  bi_CoordinatorNode :: string
  bi_ActualKind :: string
  bi_SubstitutionReason :: string

definition TryAnotherNode :: "BackupError \<Rightarrow> bool" where
  "TryAnotherNode e \<longleftrightarrow>
     be_Outcome e \<in> {BackupOutcomeNotBackupCoordinator, BackupOutcomeRetryableLeadershipLoss,
       BackupOutcomeCutUnverified, BackupOutcomeNotConfigured,
       BackupOutcomeTopologyChanged, BackupOutcomePartitionCaptureFailed}"

definition ClearsOnRetry :: "BackupError \<Rightarrow> bool" where
  "ClearsOnRetry e \<longleftrightarrow>
     be_Outcome e \<in> {BackupOutcomeNotBackupCoordinator, BackupOutcomeRetryableLeadershipLoss,
       BackupOutcomeCutUnverified, BackupOutcomeTopologyChanged, BackupOutcomePartitionCaptureFailed}"


section \<open>The HTTP client\<close>

record http_request =
  rq_Method :: string
  rq_URL :: string
  rq_Body :: "string option"
  rq_ContentType :: "string option"
  rq_Timeout :: "duration option" \<comment> \<open>the client's own bound, if any\<close>

record http_response =
  rs_StatusCode :: int
  rs_Header :: "string \<Rightarrow> string" \<comment> \<open>empty for an absent header, as \<open>Header.Get\<close>\<close>
  rs_Body :: "goerr + string" \<comment> \<open>a read error, or the bytes of the body\<close>

text \<open>
  \<open>hc_New\<close> is the error \<open>http.NewRequestWithContext\<close> may return, \<open>hc_Do\<close> the transport.
\<close>

record HTTPClient =
  hc_New :: "http_request \<Rightarrow> goerr option"
  hc_Do :: "http_request \<Rightarrow> goerr + http_response"
  hc_ReadTimeout :: duration
  hc_LeaveTimeout :: duration

type_synonym 'a decoder = "string \<Rightarrow> 'a \<Rightarrow> 'a \<times> goerr option"

definition DefaultReadTimeout :: duration where "DefaultReadTimeout = 5 * second"
definition DefaultLeaveTimeout :: duration where "DefaultLeaveTimeout = 150 * second"

definition bound :: "duration \<Rightarrow> duration option" where
  "bound d = (if d \<le> 0 then None else Some d)"

text \<open>\<open>io.ReadAll(io.LimitReader(resp.Body, 1<<20))\<close>.\<close>

definition read_body :: "http_response \<Rightarrow> goerr + string" where
  "read_body r = (case rs_Body r of Inl e \<Rightarrow> Inl e | Inr b \<Rightarrow> Inr (take (2 ^ 20) b))"

definition StatusOK :: int where "StatusOK = 200"
definition StatusNotFound :: int where "StatusNotFound = 404"
definition StatusServiceUnavailable :: int where "StatusServiceUnavailable = 503"

lemmas status_codes [simp] = StatusOK_def StatusNotFound_def StatusServiceUnavailable_def

text \<open>\<open>get\<close> returns the status code, the value decoded into, and the error.\<close>

definition http_get :: "HTTPClient \<Rightarrow> duration option \<Rightarrow> string \<Rightarrow> 'a decoder \<Rightarrow> 'a \<Rightarrow> int \<times> 'a \<times> goerr option" where
  "http_get c timeout url dec out =
     (let req = \<lparr>rq_Method = ''GET'', rq_URL = url, rq_Body = None, rq_ContentType = None, rq_Timeout = timeout\<rparr>
      in case hc_New c req of
          Some err \<Rightarrow> (0, out, Some err)
        | None \<Rightarrow>
            (case hc_Do c req of
               Inl err \<Rightarrow> (0, out, Some err)
             | Inr resp \<Rightarrow>
                 (case read_body resp of
                    Inl err \<Rightarrow> (rs_StatusCode resp, out, Some err)
                  | Inr body \<Rightarrow>
                      (case dec body out of
                         (out', Some err) \<Rightarrow>
                           if rs_StatusCode resp \<noteq> StatusOK then (rs_StatusCode resp, out', None)
                           else (rs_StatusCode resp, out',
                             Some (WrapErr (''decoding '' @ url @ '' (status '' @ itoa (rs_StatusCode resp) @ '')'') err))
                       | (out', None) \<Rightarrow> (rs_StatusCode resp, out', None)))))"

definition Membership_zero :: Membership where
  "Membership_zero = \<lparr>mbr_MembershipVersion = 0, mbr_Members = [], mbr_LocalRole = [], mbr_Initialized = False\<rparr>"

definition http_Membership :: "HTTPClient \<Rightarrow> Membership decoder \<Rightarrow> string \<Rightarrow> goerr + Membership" where
  "http_Membership c dec baseURL =
     (case http_get c (bound (hc_ReadTimeout c)) (baseURL @ ''/v1/cluster/membership'') dec Membership_zero of
        (code, m, Some err) \<Rightarrow> Inl err
      | (code, m, None) \<Rightarrow>
          if code \<noteq> StatusOK then Inl (Errorf (''membership query returned HTTP '' @ itoa code))
          else Inr (m\<lparr>mbr_Members := filter (\<lambda>x. \<not> IsWitness x) (mbr_Members m)\<rparr>))"

definition Health_zero :: Health where
  "Health_zero = \<lparr>hea_Ready = False, hea_Initialized = False, hea_LocalRole = []\<rparr>"

definition http_Health :: "HTTPClient \<Rightarrow> Health decoder \<Rightarrow> string \<Rightarrow> goerr + Health" where
  "http_Health c dec baseURL =
     (case http_get c (bound (hc_ReadTimeout c)) (baseURL @ ''/v1/cluster/health'') dec Health_zero of
        (code, h, Some err) \<Rightarrow> Inl err
      | (code, h, None) \<Rightarrow>
          if code \<noteq> StatusOK \<and> code \<noteq> StatusServiceUnavailable
          then Inl (Errorf (''health query returned HTTP '' @ itoa code))
          else Inr h)"

definition Placement_zero :: Placement where
  "Placement_zero = \<lparr>plc_ReplicationFactor = 0, plc_RebalancerEnabled = False, plc_Initialized = False,
     plc_Partitions = []\<rparr>"

definition http_Placement :: "HTTPClient \<Rightarrow> Placement decoder \<Rightarrow> string \<Rightarrow> goerr + Placement" where
  "http_Placement c dec baseURL =
     (case http_get c (bound (hc_ReadTimeout c)) (baseURL @ ''/v1/cluster/placement'') dec Placement_zero of
        (code, p, Some err) \<Rightarrow> Inl err
      | (code, p, None) \<Rightarrow>
          if code = StatusOK then Inr p
          else if code = StatusNotFound then Inl ErrPlacementUnsupported
          else Inl (Errorf (''placement query returned HTTP '' @ itoa code)))"

definition Metrics_zero :: Metrics where
  "Metrics_zero = \<lparr>mtr_Rows = [], mtr_MonotonicMs = 0\<rparr>"

definition http_Metrics :: "HTTPClient \<Rightarrow> Metrics decoder \<Rightarrow> string \<Rightarrow> goerr + Metrics" where
  "http_Metrics c dec baseURL =
     (case http_get c (bound (hc_ReadTimeout c)) (baseURL @ ''/v1/dashboard/metrics'') dec Metrics_zero of
        (code, m, Some err) \<Rightarrow> Inl err
      | (code, m, None) \<Rightarrow>
          if code \<noteq> StatusOK then Inl (Errorf (''metrics query returned HTTP '' @ itoa code)) else Inr m)"

definition backupOutcomeHeader :: string where
  "backupOutcomeHeader = ''X-Kahuna-Backup-Outcome''"

definition BackupInfo_zero :: BackupInfo where
  "BackupInfo_zero = \<lparr>bi_BackupID = [], bi_Type = [], bi_ParentBackupID = [], bi_ClusterID = [],
     bi_CoordinatorNode = [], bi_ActualKind = [], bi_SubstitutionReason = []\<rparr>"

text \<open>The problem document of a refusal: detail and outcome.\<close>

type_synonym problem = "string \<times> string"

definition postBackup :: "HTTPClient \<Rightarrow> problem decoder \<Rightarrow> BackupInfo decoder \<Rightarrow> string \<Rightarrow> string option \<Rightarrow> goerr + BackupInfo" where
  "postBackup c decProblem decInfo url body =
     (let req = \<lparr>rq_Method = ''POST'', rq_URL = url, rq_Body = body,
            rq_ContentType = (if body \<noteq> None then Some ''application/json'' else None), rq_Timeout = None\<rparr>
      in case hc_New c req of
          Some err \<Rightarrow> Inl err
        | None \<Rightarrow>
            (case hc_Do c req of
               Inl err \<Rightarrow> Inl err
             | Inr resp \<Rightarrow>
                 (case read_body resp of
                    Inl err \<Rightarrow> Inl err
                  | Inr raw \<Rightarrow>
                      if rs_StatusCode resp \<noteq> StatusOK then
                        let (detail, outcome) = fst (decProblem raw ([], []));
                            hdr = rs_Header resp backupOutcomeHeader
                        in Inl (BackupErr \<lparr>be_StatusCode = rs_StatusCode resp,
                             be_Outcome = (if hdr = [] then outcome else hdr), be_Detail = detail\<rparr>)
                      else
                        (case decInfo raw BackupInfo_zero of
                           (info, Some err) \<Rightarrow> Inl (WrapErr ''decoding backup response'' err)
                         | (info, None) \<Rightarrow>
                             if bi_BackupID info = [] then Inl (Errorf ''backup response carries no backup id'')
                             else Inr info))))"

definition TakeCoordinatedBackup :: "HTTPClient \<Rightarrow> problem decoder \<Rightarrow> BackupInfo decoder \<Rightarrow> string \<Rightarrow> goerr + BackupInfo" where
  "TakeCoordinatedBackup c decProblem decInfo baseURL =
     postBackup c decProblem decInfo (baseURL @ ''/v1/backups/coordinated'') None"

text \<open>\<open>marshal\<close> is the JSON encoding of the one-entry object \<open>parentBackupId\<close>.\<close>

definition TakeIncrementalBackup :: "HTTPClient \<Rightarrow> problem decoder \<Rightarrow> BackupInfo decoder \<Rightarrow> (string \<Rightarrow> goerr + string) \<Rightarrow> string \<Rightarrow> string \<Rightarrow> goerr + BackupInfo" where
  "TakeIncrementalBackup c decProblem decInfo marshal baseURL parentBackupID =
     (case marshal parentBackupID of
        Inl err \<Rightarrow> Inl err
      | Inr body \<Rightarrow> postBackup c decProblem decInfo (baseURL @ ''/v1/backups/incremental'') (Some body))"

definition LeaveResult_zero :: LeaveResult where
  "LeaveResult_zero = \<lparr>lr_Left = False, lr_Outcome = [], lr_MembershipVersion = 0, lr_Retryable = False,
     lr_Reason = []\<rparr>"

definition http_Leave :: "HTTPClient \<Rightarrow> LeaveResult decoder \<Rightarrow> string \<Rightarrow> goerr + LeaveResult" where
  "http_Leave c dec baseURL =
     (let req = \<lparr>rq_Method = ''POST'', rq_URL = baseURL @ ''/v1/cluster/leave'', rq_Body = None,
            rq_ContentType = None, rq_Timeout = bound (hc_LeaveTimeout c)\<rparr>
      in case hc_New c req of
          Some err \<Rightarrow> Inl err
        | None \<Rightarrow>
            (case hc_Do c req of
               Inl err \<Rightarrow> Inl err
             | Inr resp \<Rightarrow>
                 (case read_body resp of
                    Inl err \<Rightarrow> Inl err
                  | Inr body \<Rightarrow>
                      (case dec body LeaveResult_zero of
                         (out, Some err) \<Rightarrow>
                           Inl (WrapErr (''decoding leave response (status '' @ itoa (rs_StatusCode resp) @ '')'') err)
                       | (out, None) \<Rightarrow>
                           if lr_Outcome out = [] then
                             Inl (Errorf (''leave returned HTTP '' @ itoa (rs_StatusCode resp) @ '' with no outcome''))
                           else Inr out))))"


section \<open>Facts the controller rests on\<close>

lemma HasVoter_iff:
  "HasVoter m e \<longleftrightarrow> (\<exists>x \<in> set (mbr_Members m). mem_Endpoint x = e \<and> mem_Role x = RoleVoter)"
  by (auto simp: HasVoter_def list_ex_iff)

lemma HasVoter_Voters: "HasVoter m e \<longleftrightarrow> e \<in> mem_Endpoint ` set (Voters m)"
  by (auto simp: HasVoter_iff Voters_def)

lemma set_FullyReplicated:
  "i \<in> set (FullyReplicated p) \<longleftrightarrow>
     0 < i \<and> (\<exists>part \<in> set (plc_Partitions p). pp_PartitionID part = i \<and>
        pp_State part = PartitionStateActive \<and> pp_Replicas part = [])"
  by (auto simp: FullyReplicated_def)

lemma CounterTotal_loop_nonneg:
  assumes "f_nonneg (fst acc)" and "\<forall>r \<in> set rows. pred_option f_nonneg (mr_Total r)"
  shows "f_nonneg (fst (CounterTotal_loop metric rows acc))"
  using assms
proof (induction metric rows acc rule: CounterTotal_loop.induct)
  case (2 metric r rs tot found)
  from "2.prems" have "f_nonneg (fst (case mr_Total r of
          Some v \<Rightarrow> if mr_Metric r = metric \<and> mr_Kind r = MetricKindCounter
                    then (f_add tot v, True) else (tot, found)
        | None \<Rightarrow> (tot, found)))"
    by (auto split: option.splits intro: f_nonneg_add)
  with 2 show ?case by simp
qed simp

lemma GaugeSum_loop_nonneg:
  assumes "f_nonneg (fst acc)" and "\<forall>r \<in> set rows. pred_option f_nonneg (mr_Last r)"
  shows "f_nonneg (fst (GaugeSum_loop metric rows acc))"
  using assms
proof (induction metric rows acc rule: GaugeSum_loop.induct)
  case (2 metric r rs tot found)
  from "2.prems" have "f_nonneg (fst (case mr_Last r of
          Some v \<Rightarrow> if mr_Metric r = metric \<and> mr_Kind r = MetricKindGauge
                    then (f_add tot v, True) else (tot, found)
        | None \<Rightarrow> (tot, found)))"
    by (auto split: option.splits intro: f_nonneg_add)
  with 2 show ?case by simp
qed simp

lemma CounterTotal_nonneg:
  "\<forall>r \<in> set (mtr_Rows m). pred_option f_nonneg (mr_Total r) \<Longrightarrow> f_nonneg (fst (CounterTotal m metric))"
  by (simp add: CounterTotal_def CounterTotal_loop_nonneg)

lemma GaugeSum_nonneg:
  "\<forall>r \<in> set (mtr_Rows m). pred_option f_nonneg (mr_Last r) \<Longrightarrow> f_nonneg (fst (GaugeSum m metric))"
  by (simp add: GaugeSum_def GaugeSum_loop_nonneg)

lemma ClearsOnRetry_TryAnotherNode: "ClearsOnRetry e \<Longrightarrow> TryAnotherNode e"
  by (auto simp: ClearsOnRetry_def TryAnotherNode_def)

lemma http_Membership_no_witness:
  "http_Membership c dec url = Inr m \<Longrightarrow> x \<in> set (mbr_Members m) \<Longrightarrow> \<not> IsWitness x"
  by (auto simp: http_Membership_def split: prod.splits option.splits if_splits)

lemma http_Leave_outcome: "http_Leave c dec url = Inr l \<Longrightarrow> lr_Outcome l \<noteq> []"
  by (auto simp: http_Leave_def Let_def split: option.splits sum.splits prod.splits if_splits)

lemma postBackup_id: "postBackup c decP decI url body = Inr info \<Longrightarrow> bi_BackupID info \<noteq> []"
  by (auto simp: postBackup_def Let_def split: option.splits sum.splits prod.splits if_splits)

end
