(* ===== verification/Go_Format.thy ===== *)
theory Go_Format
  imports Go_Prelude
begin

text \<open>
  More of the Go standard library, as used for messages: an instant in UTC in the layout
  \<open>time.RFC3339\<close>, a duration, \<open>%q\<close> of a string, the trimming functions of \<open>strings\<close>, and
  base64. Bytes above 127 are kept by \<open>%q\<close>, as it does for printable characters, and are not white space.
\<close>


section \<open>Dates\<close>

definition days_in_month :: "int \<Rightarrow> int \<Rightarrow> int" where
  "days_in_month year month =
     (if month = 2 then (if year mod 4 = 0 \<and> (year mod 100 \<noteq> 0 \<or> year mod 400 = 0) then 29 else 28)
      else if month \<in> {4, 6, 9, 11} then 30 else 31)"

text \<open>The year and the day of the year of a number of days since 1 January of year 1.\<close>

definition year_of_days :: "int \<Rightarrow> int \<times> int" where
  "year_of_days d =
     (let n400 = d div 146097; r400 = d mod 146097;
          n100 = min (r400 div 36524) 3; r100 = r400 - n100 * 36524;
          n4 = r100 div 1461; r4 = r100 mod 1461;
          n1 = min (r4 div 365) 3
      in (400 * n400 + 100 * n100 + 4 * n4 + n1 + 1, r4 - n1 * 365))"

fun month_day :: "nat \<Rightarrow> int \<Rightarrow> int \<Rightarrow> int \<Rightarrow> int \<times> int" where
  "month_day 0 year month d = (month, d + 1)"
| "month_day (Suc n) year month d =
     (if d < days_in_month year month then (month, d + 1)
      else month_day n year (month + 1) (d - days_in_month year month))"

definition pad :: "nat \<Rightarrow> int \<Rightarrow> string" where
  "pad w i = (let s = utoa (nat \<bar>i\<bar>) in (if i < 0 then ''-'' else []) @ replicate (w - length s) CHR ''0'' @ s)"

definition fmt_RFC3339 :: "gotime \<Rightarrow> string" where
  "fmt_RFC3339 t =
     (let secs = t div second; days = secs div 86400; s = secs mod 86400;
          (year, yday) = year_of_days days; (month, day) = month_day 11 year 1 yday
      in pad 4 year @ ''-'' @ pad 2 month @ ''-'' @ pad 2 day @ ''T'' @
         pad 2 (s div 3600) @ '':'' @ pad 2 (s div 60 mod 60) @ '':'' @ pad 2 (s mod 60) @ ''Z'')"


section \<open>Durations\<close>

text \<open>\<open>Duration.String\<close>: hours, minutes and seconds with a fraction, or a single smaller unit. The
  fraction has no trailing zeros.\<close>

definition fmt_frac :: "int \<Rightarrow> nat \<Rightarrow> string" where
  "fmt_frac v prec = (let s = rev (dropWhile (\<lambda>c. c = CHR ''0'') (rev (pad prec v))) in if s = [] then [] else ''.'' @ s)"

definition fmt_duration :: "duration \<Rightarrow> string" where
  "fmt_duration d =
     (let u = \<bar>d\<bar>; secs = u div 1000000000; mins = secs div 60; hours = mins div 60;
          body =
            (if u = 0 then ''0s''
             else if u < 1000 then itoa u @ ''ns''
             else if u < 1000000 then itoa (u div 1000) @ fmt_frac (u mod 1000) 3 @ [CHR 0xC2, CHR 0xB5] @ ''s''
             else if u < 1000000000 then itoa (u div 1000000) @ fmt_frac (u mod 1000000) 6 @ ''ms''
             else (if hours > 0 then itoa hours @ ''h'' else []) @
                  (if mins > 0 then itoa (mins mod 60) @ ''m'' else []) @
                  itoa (secs mod 60) @ fmt_frac (u mod 1000000000) 9 @ ''s'')
      in (if d < 0 then ''-'' else []) @ body)"


section \<open>Quoting and trimming\<close>

definition hex2 :: "nat \<Rightarrow> string" where
  "hex2 n = [''0123456789abcdef'' ! (n div 16 mod 16), ''0123456789abcdef'' ! (n mod 16)]"

definition quote_byte :: "char \<Rightarrow> string" where
  "quote_byte c =
     (let n = of_char c :: nat in
      if n = 34 then [CHR 0x5C, CHR 0x22] else if n = 92 then [CHR 0x5C, CHR 0x5C]
      else if n = 7 then CHR 0x5C # ''a'' else if n = 8 then CHR 0x5C # ''b''
      else if n = 12 then CHR 0x5C # ''f'' else if n = 10 then CHR 0x5C # ''n''
      else if n = 13 then CHR 0x5C # ''r'' else if n = 9 then CHR 0x5C # ''t''
      else if n = 11 then CHR 0x5C # ''v''
      else if n < 32 \<or> n = 127 then CHR 0x5C # ''x'' @ hex2 n
      else [c])"

definition fmt_q :: "string \<Rightarrow> string" where
  "fmt_q s = [CHR 0x22] @ concat (map quote_byte s) @ [CHR 0x22]"

definition is_space :: "char \<Rightarrow> bool" where
  "is_space c \<longleftrightarrow> of_char c \<in> {9, 10, 11, 12, 13, 32 :: nat}"

definition TrimRightFunc :: "(char \<Rightarrow> bool) \<Rightarrow> string \<Rightarrow> string" where
  "TrimRightFunc P s = rev (dropWhile P (rev s))"

definition TrimSpace :: "string \<Rightarrow> string" where
  "TrimSpace s = TrimRightFunc is_space (dropWhile is_space s)"


section \<open>Base64\<close>

text \<open>\<open>base64.RawURLEncoding\<close>: six bits a character, no padding.\<close>

definition base64_char :: "nat \<Rightarrow> char" where
  "base64_char n = ''ABCDEFGHIJKLMNOPQRSTUVWXYZabcdefghijklmnopqrstuvwxyz0123456789-_'' ! (n mod 64)"

fun base64_raw_url :: "string \<Rightarrow> string" where
  "base64_raw_url [] = []"
| "base64_raw_url [a] = (let n = of_char a * 16 :: nat in [base64_char (n div 64), base64_char n])"
| "base64_raw_url [a, b] =
     (let n = (of_char a * 256 + of_char b) * 4 :: nat in
      [base64_char (n div 4096), base64_char (n div 64), base64_char n])"
| "base64_raw_url (a # b # c # s) =
     (let n = (of_char a * 256 + of_char b) * 256 + of_char c :: nat in
      [base64_char (n div 262144), base64_char (n div 4096), base64_char (n div 64), base64_char n] @ base64_raw_url s)"

end
