(* ===== verification/Kube_API.thy ===== *)
theory Kube_API
  imports API_Types Kahuna_Client Go_Format
begin

text \<open>
  The Kubernetes objects the operator reads and writes, with the fields it uses, and the API server
  it reads and writes them through.

  The server and the client library are not part of the operator, so they are a parameter: for each
  kind of object a record \<open>resource\<close> of operations on a world of arbitrary type. \<open>resource_laws\<close>
  states what the operator relies on, in terms of a view of the world as a map from names to
  objects: a read returns what is stored, a create never replaces an object, a delete with
  preconditions removes only the object they name, and \<open>CreateOrUpdate\<close> applies the given function
  to the stored object. \<open>mem_resource\<close> is a server held in memory that obeys them.
\<close>


section \<open>Objects\<close>

type_synonym object_key = "string \<times> string" \<comment> \<open>namespace and name\<close>
type_synonym labels = "string \<rightharpoonup> string"

record ObjectMeta =
  om_Name :: string
  om_Namespace :: string
  om_Labels :: labels
  om_Annotations :: "string \<rightharpoonup> string"
  om_UID :: string
  om_ResourceVersion :: string
  om_DeletionTimestamp :: "gotime option"
  om_Controller :: "object_key option" \<comment> \<open>the owner reference with \<open>controller: true\<close>\<close>

record PersistentVolumeClaim =
  pvc_Meta :: ObjectMeta
  pvc_AccessModes :: "string list"
  pvc_StorageClassName :: "string option"
  pvc_Storage :: quantity \<comment> \<open>\<open>Resources.Requests[storage]\<close>, zero when absent\<close>
  pvc_VolumeName :: string
  pvc_Phase :: string
  pvc_StatusAccessModes :: "string list"

record Secret =
  sec_Meta :: ObjectMeta
  sec_Type :: string
  sec_Data :: "string \<rightharpoonup> string"

record ServicePort =
  spo_Name :: string
  spo_Port :: int32
  spo_TargetPort :: int32
  spo_Protocol :: string

record Service =
  svc_Meta :: ObjectMeta
  svc_Type :: string
  svc_ClusterIP :: string
  svc_PublishNotReadyAddresses :: bool
  svc_Selector :: labels
  svc_Ports :: "ServicePort list"

record ConfigMap =
  cm_Meta :: ObjectMeta
  cm_Data :: "string \<rightharpoonup> string"

record PodDisruptionBudget =
  pdb_Meta :: ObjectMeta
  pdb_Selector :: labels
  pdb_MaxUnavailable :: "int32 option"

datatype EnvVar =
    EnvValue string string
  | EnvField string string

datatype VolumeSource =
    ConfigMapVolume string int32
  | SecretVolume string "(string \<times> string) list" int32 \<comment> \<open>name, items as key and path, mode\<close>
  | ClaimVolume string

record VolumeMount =
  vm_Name :: string
  vm_MountPath :: string
  vm_ReadOnly :: bool

record Probe =
  prb_Path :: string
  prb_Port :: int32
  prb_InitialDelaySeconds :: int32
  prb_PeriodSeconds :: int32
  prb_TimeoutSeconds :: int32
  prb_FailureThreshold :: int32

record ContainerPort =
  cp_Name :: string
  cp_ContainerPort :: int32
  cp_Protocol :: string

record Container =
  ctr_Name :: string
  ctr_Image :: string
  ctr_ImagePullPolicy :: string
  ctr_Command :: "string list"
  ctr_Env :: "EnvVar list"
  ctr_Resources :: opaque
  ctr_SecurityContext :: "opaque option"
  ctr_VolumeMounts :: "VolumeMount list"
  ctr_Ports :: "ContainerPort list"
  ctr_LivenessProbe :: Probe
  ctr_ReadinessProbe :: Probe

text \<open>An affinity is the user's, or the one the operator generates: a preferred anti-affinity term
  with a weight, a label selector and a topology key.\<close>

datatype Affinity =
    UserAffinity opaque
  | PreferApart int32 labels string

record PodTemplate =
  pt_Labels :: labels
  pt_Annotations :: "string \<rightharpoonup> string"
  pt_ServiceAccountName :: string
  pt_ImagePullSecrets :: "string list"
  pt_SecurityContext :: "opaque option"
  pt_NodeSelector :: "string \<rightharpoonup> string"
  pt_Tolerations :: "opaque list"
  pt_Affinity :: Affinity
  pt_TopologySpreadConstraints :: "opaque list"
  pt_TerminationGracePeriodSeconds :: "int64 option"
  pt_Volumes :: "(string \<times> VolumeSource) list"
  pt_Containers :: "Container list"

datatype RetentionPolicy = RetainClaims | DeleteClaims

record StatefulSetSpec =
  ss_ServiceName :: string
  ss_Replicas :: "int32 option"
  ss_Selector :: labels
  ss_PodManagementPolicy :: string
  ss_UpdateStrategy :: string
  ss_RollingUpdate :: "int32 option option" \<comment> \<open>the block, and its partition\<close>
  ss_WhenScaled :: RetentionPolicy
  ss_WhenDeleted :: RetentionPolicy
  ss_VolumeClaimTemplates :: "PersistentVolumeClaim list"
  ss_Template :: PodTemplate

record StatefulSet =
  sts_Meta :: ObjectMeta
  sts_Spec :: StatefulSetSpec
  sts_StatusReplicas :: int32
  sts_StatusReadyReplicas :: int32

text \<open>An unstructured object is a tree of maps, lists and scalars.\<close>

datatype json =
    JStr string
  | JBool bool
  | JList "json list"
  | JObj "string \<rightharpoonup> json"

record Certificate =
  crt_Meta :: ObjectMeta
  crt_Spec :: json

record Event =
  ev_Reason :: string
  ev_Message :: string
  ev_CreationTimestamp :: gotime
  ev_LastTimestamp :: gotime
  ev_EventTime :: gotime
  ev_SeriesTime :: "gotime option"


section \<open>The API server\<close>

record ('o, 'w) resource =
  ka_Get :: "object_key \<Rightarrow> 'w \<Rightarrow> 'w \<times> (goerr + 'o)"
  ka_Create :: "'o \<Rightarrow> 'w \<Rightarrow> 'w \<times> (goerr + 'o)"
  ka_Delete :: "object_key \<Rightarrow> (string \<times> string) option \<Rightarrow> 'w \<Rightarrow> 'w \<times> goerr option"
    \<comment> \<open>with the preconditions on UID and resource version, if any\<close>
  ka_CreateOrUpdate :: "'o \<Rightarrow> ('o \<Rightarrow> goerr + 'o) \<Rightarrow> 'w \<Rightarrow> 'w \<times> (goerr + 'o)"

definition IsNotFound :: "goerr \<Rightarrow> bool" where
  "IsNotFound e \<longleftrightarrow> api_error_reason e = Some NotFound"

definition IsAlreadyExists :: "goerr \<Rightarrow> bool" where
  "IsAlreadyExists e \<longleftrightarrow> api_error_reason e = Some AlreadyExists"

definition IsConflict :: "goerr \<Rightarrow> bool" where
  "IsConflict e \<longleftrightarrow> api_error_reason e = Some Conflict"

definition IsNoMatchError :: "goerr \<Rightarrow> bool" where
  "IsNoMatchError e \<longleftrightarrow> api_error_reason e = Some NoMatch"

definition IgnoreNotFound :: "goerr \<Rightarrow> goerr option" where
  "IgnoreNotFound e = (if IsNotFound e then None else Some e)"

definition meta_key :: "ObjectMeta \<Rightarrow> object_key" where
  "meta_key m = (om_Namespace m, om_Name m)"

text \<open>
  \<open>view\<close> is the stored objects, \<open>meta\<close> the metadata of an object and \<open>core\<close> the part of it that the
  server stores as it is given (labels and specification, not versions or status). A call that
  returns an error may still have taken effect, because its answer can be lost on the way; a deletion
  takes effect only when its preconditions hold.
\<close>

definition resource_laws :: "('w \<Rightarrow> object_key \<rightharpoonup> 'o) \<Rightarrow> ('o \<Rightarrow> ObjectMeta) \<Rightarrow> ('o \<Rightarrow> 'c) \<Rightarrow> ('o, 'w) resource \<Rightarrow> bool" where
  "resource_laws view meta core R \<longleftrightarrow>
     (\<forall>k w. view (fst (ka_Get R k w)) = view w) \<and>
     (\<forall>k w o'. snd (ka_Get R k w) = Inr o' \<longrightarrow> view w k = Some o') \<and>
     (\<forall>k w e. snd (ka_Get R k w) = Inl e \<and> IsNotFound e \<longrightarrow> view w k = None) \<and>
     (\<forall>o' w. view (fst (ka_Create R o' w)) = view w \<or>
        view w (meta_key (meta o')) = None \<and>
        (\<exists>o''. core o'' = core o' \<and> view (fst (ka_Create R o' w)) = (view w)(meta_key (meta o') \<mapsto> o''))) \<and>
     (\<forall>o' w o''. snd (ka_Create R o' w) = Inr o'' \<longrightarrow>
        view w (meta_key (meta o')) = None \<and> core o'' = core o' \<and>
        view (fst (ka_Create R o' w)) = (view w)(meta_key (meta o') \<mapsto> o'')) \<and>
     (\<forall>k pre w k'. k' \<noteq> k \<longrightarrow> view (fst (ka_Delete R k pre w)) k' = view w k') \<and>
     (\<forall>k pre w. view (fst (ka_Delete R k pre w)) \<noteq> view w \<or> snd (ka_Delete R k pre w) = None \<longrightarrow>
        (\<exists>o'. view w k = Some o' \<and> (\<forall>p. pre = Some p \<longrightarrow> p = (om_UID (meta o'), om_ResourceVersion (meta o'))))) \<and>
     (\<forall>o' f w. view (fst (ka_CreateOrUpdate R o' f w)) = view w \<or>
        (\<exists>o1 o''. f (case view w (meta_key (meta o')) of None \<Rightarrow> o' | Some o0 \<Rightarrow> o0) = Inr o1 \<and> core o'' = core o1 \<and>
          view (fst (ka_CreateOrUpdate R o' f w)) = (view w)(meta_key (meta o') \<mapsto> o''))) \<and>
     (\<forall>o' f w o''. snd (ka_CreateOrUpdate R o' f w) = Inr o'' \<longrightarrow>
        (\<exists>o1. f (case view w (meta_key (meta o')) of None \<Rightarrow> o' | Some o0 \<Rightarrow> o0) = Inr o1 \<and> core o'' = core o1 \<and>
          view (fst (ka_CreateOrUpdate R o' f w)) = (view w)(meta_key (meta o') \<mapsto> o'')))"

lemma resource_get:
  assumes "resource_laws view meta core R" "ka_Get R k w = (w', res)"
  shows "view w' = view w" "res = Inr x \<Longrightarrow> view w k = Some x" "res = Inl e \<Longrightarrow> IsNotFound e \<Longrightarrow> view w k = None"
  using assms unfolding resource_laws_def by (metis fst_conv snd_conv)+

lemma resource_create:
  assumes "resource_laws view meta core R" "ka_Create R x w = (w', res)"
  shows "view w' = view w \<or> view w (meta_key (meta x)) = None \<and> (\<exists>y. core y = core x \<and> view w' = (view w)(meta_key (meta x) \<mapsto> y))"
    "res = Inr y \<Longrightarrow> view w (meta_key (meta x)) = None"
    "res = Inr y \<Longrightarrow> core y = core x"
    "res = Inr y \<Longrightarrow> view w' = (view w)(meta_key (meta x) \<mapsto> y)"
  using assms unfolding resource_laws_def by (metis fst_conv snd_conv)+

text \<open>Creating an object never replaces one.\<close>

lemma resource_create_keeps:
  assumes "resource_laws view meta core R" "ka_Create R x w = (w', res)" "view w k = Some y"
  shows "view w' k = Some y"
  using resource_create(1) [OF assms(1,2)] assms(3) by auto

lemma resource_delete:
  assumes "resource_laws view meta core R" "ka_Delete R k pre w = (w', res)"
  shows "view w' \<noteq> view w \<or> res = None \<Longrightarrow>
      \<exists>x. view w k = Some x \<and> (\<forall>p. pre = Some p \<longrightarrow> p = (om_UID (meta x), om_ResourceVersion (meta x)))"
    "k' \<noteq> k \<Longrightarrow> view w' k' = view w k'"
proof -
  have r: "fst (ka_Delete R k pre w) = w'" "snd (ka_Delete R k pre w) = res" using assms(2) by simp_all
  show "view w' \<noteq> view w \<or> res = None \<Longrightarrow>
      \<exists>x. view w k = Some x \<and> (\<forall>p. pre = Some p \<longrightarrow> p = (om_UID (meta x), om_ResourceVersion (meta x)))"
    using assms(1) r unfolding resource_laws_def by blast
  show "k' \<noteq> k \<Longrightarrow> view w' k' = view w k'" using assms(1) r unfolding resource_laws_def by blast
qed

lemma resource_cou:
  assumes "resource_laws view meta core R" "ka_CreateOrUpdate R x f w = (w', res)"
  shows "view w' = view w \<or>
      (\<exists>z y. f (case view w (meta_key (meta x)) of None \<Rightarrow> x | Some o0 \<Rightarrow> o0) = Inr z \<and> core y = core z \<and>
        view w' = (view w)(meta_key (meta x) \<mapsto> y))"
    "res = Inr y \<Longrightarrow> \<exists>z. f (case view w (meta_key (meta x)) of None \<Rightarrow> x | Some o0 \<Rightarrow> o0) = Inr z \<and> core y = core z \<and>
       view w' = (view w)(meta_key (meta x) \<mapsto> y)"
proof -
  have r: "fst (ka_CreateOrUpdate R x f w) = w'" "snd (ka_CreateOrUpdate R x f w) = res" using assms(2) by simp_all
  show "view w' = view w \<or>
      (\<exists>z y. f (case view w (meta_key (meta x)) of None \<Rightarrow> x | Some o0 \<Rightarrow> o0) = Inr z \<and> core y = core z \<and>
        view w' = (view w)(meta_key (meta x) \<mapsto> y))"
    using assms(1) r unfolding resource_laws_def by blast
  show "res = Inr y \<Longrightarrow> \<exists>z. f (case view w (meta_key (meta x)) of None \<Rightarrow> x | Some o0 \<Rightarrow> o0) = Inr z \<and> core y = core z \<and>
       view w' = (view w)(meta_key (meta x) \<mapsto> y)"
    using assms(1) r unfolding resource_laws_def by blast
qed


section \<open>Everything the operator calls\<close>

text \<open>
  One record for the calls a pass makes. Calls to the Kahuna servers answer from the world as it is
  when they are made; of these only a leave request changes it. \<open>kb_Rand\<close> is \<open>crypto/rand\<close>,
  \<open>kb_WrongPassword\<close> tells whether \<open>pkcs12.DecodeChain\<close> refuses a keystore for its password.
\<close>

record 'w kube =
  kb_PVC :: "(PersistentVolumeClaim, 'w) resource"
  kb_Secret :: "(Secret, 'w) resource"
  kb_Service :: "(Service, 'w) resource"
  kb_ConfigMap :: "(ConfigMap, 'w) resource"
  kb_PDB :: "(PodDisruptionBudget, 'w) resource"
  kb_StatefulSet :: "(StatefulSet, 'w) resource"
  kb_Certificate :: "(Certificate, 'w) resource"
  kb_GetCluster :: "object_key \<Rightarrow> 'w \<Rightarrow> 'w \<times> (goerr + KahunaCluster)"
  kb_UpdateStatus :: "KahunaCluster \<Rightarrow> 'w \<Rightarrow> 'w \<times> (goerr + KahunaCluster)"
  kb_ListPods :: "string \<Rightarrow> labels \<Rightarrow> 'w \<Rightarrow> 'w \<times> (goerr + Pod list)"
  kb_ListWarnings :: "string \<Rightarrow> string \<Rightarrow> 'w \<Rightarrow> 'w \<times> (goerr + Event list)"
  kb_SetController :: "KahunaCluster \<Rightarrow> ObjectMeta \<Rightarrow> goerr + ObjectMeta"
  kb_Rand :: "nat \<Rightarrow> 'w \<Rightarrow> 'w \<times> (goerr + string)"
  kb_Now :: "'w \<Rightarrow> gotime"
  kb_WrongPassword :: "string \<Rightarrow> string \<Rightarrow> bool"
  kb_Membership :: "'w \<Rightarrow> string \<Rightarrow> goerr + Membership"
  kb_Placement :: "'w \<Rightarrow> string \<Rightarrow> goerr + Placement"
  kb_Metrics :: "'w \<Rightarrow> string \<Rightarrow> goerr + Metrics"
  kb_Leave :: "string \<Rightarrow> 'w \<Rightarrow> 'w \<times> (goerr + LeaveResult)"

text \<open>\<open>keeps v f\<close>: the call \<open>f\<close> does not touch the part of the world that \<open>v\<close> shows.\<close>

definition keeps :: "('w \<Rightarrow> 'v) \<Rightarrow> ('w \<Rightarrow> 'w \<times> 'a) \<Rightarrow> bool" where
  "keeps v f \<longleftrightarrow> (\<forall>w. v (fst (f w)) = v w)"

definition resource_keeps :: "('w \<Rightarrow> 'v) \<Rightarrow> ('o, 'w) resource \<Rightarrow> bool" where
  "resource_keeps v R \<longleftrightarrow>
     (\<forall>k. keeps v (ka_Get R k)) \<and> (\<forall>x. keeps v (ka_Create R x)) \<and>
     (\<forall>k pre. keeps v (ka_Delete R k pre)) \<and> (\<forall>x f. keeps v (ka_CreateOrUpdate R x f))"

text \<open>The calls that are not on an object of one of the seven kinds.\<close>

definition reads_keep :: "('w \<Rightarrow> 'v) \<Rightarrow> 'w kube \<Rightarrow> bool" where
  "reads_keep v kb \<longleftrightarrow>
     (\<forall>k. keeps v (kb_GetCluster kb k)) \<and>
     (\<forall>n l. keeps v (kb_ListPods kb n l)) \<and> (\<forall>n u. keeps v (kb_ListWarnings kb n u)) \<and>
     (\<forall>n. keeps v (kb_Rand kb n)) \<and> (\<forall>u. keeps v (kb_Leave kb u))"

definition calls_keep :: "('w \<Rightarrow> 'v) \<Rightarrow> 'w kube \<Rightarrow> bool" where
  "calls_keep v kb \<longleftrightarrow> reads_keep v kb \<and> (\<forall>c. keeps v (kb_UpdateStatus kb c))"

record 'w kube_view =
  vw_PVC :: "'w \<Rightarrow> object_key \<rightharpoonup> PersistentVolumeClaim"
  vw_Secret :: "'w \<Rightarrow> object_key \<rightharpoonup> Secret"
  vw_StatefulSet :: "'w \<Rightarrow> object_key \<rightharpoonup> StatefulSet"

text \<open>The server stores each kind apart from the others; setting an owner does not rename an object.\<close>

definition kube_laws :: "'w kube_view \<Rightarrow> 'w kube \<Rightarrow> bool" where
  "kube_laws V kb \<longleftrightarrow>
     resource_laws (vw_PVC V) pvc_Meta (\<lambda>_. ()) (kb_PVC kb) \<and>
     resource_laws (vw_Secret V) sec_Meta sec_Data (kb_Secret kb) \<and>
     resource_laws (vw_StatefulSet V) sts_Meta sts_Spec (kb_StatefulSet kb) \<and>
     calls_keep (vw_PVC V) kb \<and> calls_keep (vw_Secret V) kb \<and> calls_keep (vw_StatefulSet V) kb \<and>
     resource_keeps (vw_PVC V) (kb_Secret kb) \<and> resource_keeps (vw_PVC V) (kb_Service kb) \<and>
     resource_keeps (vw_PVC V) (kb_ConfigMap kb) \<and> resource_keeps (vw_PVC V) (kb_PDB kb) \<and>
     resource_keeps (vw_PVC V) (kb_StatefulSet kb) \<and> resource_keeps (vw_PVC V) (kb_Certificate kb) \<and>
     resource_keeps (vw_Secret V) (kb_PVC kb) \<and> resource_keeps (vw_Secret V) (kb_Service kb) \<and>
     resource_keeps (vw_Secret V) (kb_ConfigMap kb) \<and> resource_keeps (vw_Secret V) (kb_PDB kb) \<and>
     resource_keeps (vw_Secret V) (kb_StatefulSet kb) \<and> resource_keeps (vw_Secret V) (kb_Certificate kb) \<and>
     resource_keeps (vw_StatefulSet V) (kb_PVC kb) \<and> resource_keeps (vw_StatefulSet V) (kb_Service kb) \<and>
     resource_keeps (vw_StatefulSet V) (kb_ConfigMap kb) \<and> resource_keeps (vw_StatefulSet V) (kb_PDB kb) \<and>
     resource_keeps (vw_StatefulSet V) (kb_Secret kb) \<and> resource_keeps (vw_StatefulSet V) (kb_Certificate kb) \<and>
     (\<forall>c m m'. kb_SetController kb c m = Inr m' \<longrightarrow> meta_key m' = meta_key m)"

lemma keepsD: "keeps v f \<Longrightarrow> f w = (w', a) \<Longrightarrow> v w' = v w"
  unfolding keeps_def by (metis fst_conv)

lemma resource_keepsD:
  assumes "resource_keeps v R"
  shows "ka_Get R k w = (w', r1) \<Longrightarrow> v w' = v w" "ka_Create R x w = (w', r2) \<Longrightarrow> v w' = v w"
    "ka_Delete R k pre w = (w', r3) \<Longrightarrow> v w' = v w" "ka_CreateOrUpdate R x f w = (w', r4) \<Longrightarrow> v w' = v w"
  using assms unfolding resource_keeps_def by (blast intro: keepsD)+

lemma reads_keepD:
  assumes "reads_keep v kb"
  shows "kb_GetCluster kb k w = (w', r1) \<Longrightarrow> v w' = v w"
    "kb_ListPods kb n l w = (w', r3) \<Longrightarrow> v w' = v w" "kb_ListWarnings kb n u w = (w', r4) \<Longrightarrow> v w' = v w"
    "kb_Rand kb m w = (w', r5) \<Longrightarrow> v w' = v w" "kb_Leave kb u w = (w', r6) \<Longrightarrow> v w' = v w"
  using assms unfolding reads_keep_def by (blast intro: keepsD)+

lemma calls_keepD:
  assumes "calls_keep v kb"
  shows "reads_keep v kb" "kb_UpdateStatus kb c w = (w', r2) \<Longrightarrow> v w' = v w"
  using assms unfolding calls_keep_def by (blast intro: keepsD)+

text \<open>A view that only StatefulSet calls and status writes may change.\<close>

definition objects_keep :: "('w \<Rightarrow> 'v) \<Rightarrow> 'w kube \<Rightarrow> bool" where
  "objects_keep v kb \<longleftrightarrow>
     reads_keep v kb \<and> resource_keeps v (kb_PVC kb) \<and> resource_keeps v (kb_Secret kb) \<and>
     resource_keeps v (kb_Service kb) \<and> resource_keeps v (kb_ConfigMap kb) \<and> resource_keeps v (kb_PDB kb) \<and>
     resource_keeps v (kb_Certificate kb)"

lemma kube_objects_keep: "kube_laws V kb \<Longrightarrow> objects_keep (vw_StatefulSet V) kb"
  by (simp add: kube_laws_def objects_keep_def calls_keep_def)


section \<open>A server in memory\<close>

definition mem_resource :: "('w \<Rightarrow> object_key \<rightharpoonup> 'o) \<Rightarrow> ((object_key \<rightharpoonup> 'o) \<Rightarrow> 'w \<Rightarrow> 'w) \<Rightarrow> ('o \<Rightarrow> ObjectMeta) \<Rightarrow> ('o, 'w) resource" where
  "mem_resource view put meta = \<lparr>
     ka_Get = (\<lambda>k w. (w, case view w k of Some x \<Rightarrow> Inr x | None \<Rightarrow> Inl (APIErr NotFound ''not found''))),
     ka_Create = (\<lambda>x w. case view w (meta_key (meta x)) of
        Some _ \<Rightarrow> (w, Inl (APIErr AlreadyExists ''already exists''))
      | None \<Rightarrow> (put ((view w)(meta_key (meta x) \<mapsto> x)) w, Inr x)),
     ka_Delete = (\<lambda>k pre w. case view w k of
        None \<Rightarrow> (w, Some (APIErr NotFound ''not found''))
      | Some x \<Rightarrow>
          if pre = None \<or> pre = Some (om_UID (meta x), om_ResourceVersion (meta x))
          then (put ((view w)(k := None)) w, None) else (w, Some (APIErr Conflict ''precondition failed''))),
     ka_CreateOrUpdate = (\<lambda>x f w.
        case f (case view w (meta_key (meta x)) of None \<Rightarrow> x | Some x0 \<Rightarrow> x0) of
          Inl e \<Rightarrow> (w, Inl e)
        | Inr y \<Rightarrow> (put ((view w)(meta_key (meta x) \<mapsto> y)) w, Inr y))\<rparr>"

lemma mem_resource_laws:
  assumes put: "\<And>m w. view (put m w) = m"
  shows "resource_laws view meta core (mem_resource view put meta)"
  unfolding resource_laws_def
proof (intro conjI allI impI)
qed (auto simp: mem_resource_def put IsNotFound_def split: option.splits sum.splits if_splits)


record mem_world =
  mw_PVC :: "object_key \<rightharpoonup> PersistentVolumeClaim"
  mw_Secret :: "object_key \<rightharpoonup> Secret"
  mw_Service :: "object_key \<rightharpoonup> Service"
  mw_ConfigMap :: "object_key \<rightharpoonup> ConfigMap"
  mw_PDB :: "object_key \<rightharpoonup> PodDisruptionBudget"
  mw_StatefulSet :: "object_key \<rightharpoonup> StatefulSet"
  mw_Certificate :: "object_key \<rightharpoonup> Certificate"
  mw_Cluster :: "object_key \<rightharpoonup> KahunaCluster"
  mw_Pods :: "Pod list"
  mw_Now :: gotime
  mw_Membership :: "string \<Rightarrow> goerr + Membership"
  mw_Placement :: "string \<Rightarrow> goerr + Placement"
  mw_Leave :: "string \<Rightarrow> goerr + LeaveResult"

text \<open>A cluster with no events and no metrics, where every keystore opens.\<close>

definition mem_kube :: "mem_world kube" where
  "mem_kube = \<lparr>
     kb_PVC = mem_resource mw_PVC (\<lambda>m w. w\<lparr>mw_PVC := m\<rparr>) pvc_Meta,
     kb_Secret = mem_resource mw_Secret (\<lambda>m w. w\<lparr>mw_Secret := m\<rparr>) sec_Meta,
     kb_Service = mem_resource mw_Service (\<lambda>m w. w\<lparr>mw_Service := m\<rparr>) svc_Meta,
     kb_ConfigMap = mem_resource mw_ConfigMap (\<lambda>m w. w\<lparr>mw_ConfigMap := m\<rparr>) cm_Meta,
     kb_PDB = mem_resource mw_PDB (\<lambda>m w. w\<lparr>mw_PDB := m\<rparr>) pdb_Meta,
     kb_StatefulSet = mem_resource mw_StatefulSet (\<lambda>m w. w\<lparr>mw_StatefulSet := m\<rparr>) sts_Meta,
     kb_Certificate = mem_resource mw_Certificate (\<lambda>m w. w\<lparr>mw_Certificate := m\<rparr>) crt_Meta,
     kb_GetCluster = (\<lambda>k w. (w, case mw_Cluster w k of Some c \<Rightarrow> Inr (c\<lparr>kc_Namespace := fst k, kc_Name := snd k\<rparr>) | None \<Rightarrow> Inl (APIErr NotFound ''not found''))),
     kb_UpdateStatus = (\<lambda>c w. case mw_Cluster w (kc_Namespace c, kc_Name c) of
        None \<Rightarrow> (w, Inl (APIErr NotFound ''not found''))
      | Some _ \<Rightarrow> (w\<lparr>mw_Cluster := (mw_Cluster w)((kc_Namespace c, kc_Name c) \<mapsto> c)\<rparr>, Inr c)),
     kb_ListPods = (\<lambda>_ _ w. (w, Inr (mw_Pods w))),
     kb_ListWarnings = (\<lambda>_ _ w. (w, Inr [])),
     kb_SetController = (\<lambda>c m. Inr (m\<lparr>om_Controller := Some (kc_Namespace c, kc_Name c)\<rparr>)),
     kb_Rand = (\<lambda>n w. (w, Inr (replicate n CHR 0x00))),
     kb_Now = mw_Now,
     kb_WrongPassword = (\<lambda>_ _. False),
     kb_Membership = mw_Membership,
     kb_Placement = mw_Placement,
     kb_Metrics = (\<lambda>_ _. Inl (Errorf ''no metrics'')),
     kb_Leave = (\<lambda>u w. (w, mw_Leave w u))\<rparr>"

definition mem_view :: "mem_world kube_view" where
  "mem_view = \<lparr>vw_PVC = mw_PVC, vw_Secret = mw_Secret, vw_StatefulSet = mw_StatefulSet\<rparr>"

lemma mem_resource_keeps:
  assumes "\<And>m w. v (put m w) = v w"
  shows "resource_keeps v (mem_resource view put meta)"
  unfolding resource_keeps_def keeps_def mem_resource_def
  by (simp add: assms split: option.split sum.split)

lemma mem_kube_fields [simp]:
  "kb_PVC mem_kube = mem_resource mw_PVC (\<lambda>m w. w\<lparr>mw_PVC := m\<rparr>) pvc_Meta"
  "kb_Secret mem_kube = mem_resource mw_Secret (\<lambda>m w. w\<lparr>mw_Secret := m\<rparr>) sec_Meta"
  "kb_Service mem_kube = mem_resource mw_Service (\<lambda>m w. w\<lparr>mw_Service := m\<rparr>) svc_Meta"
  "kb_ConfigMap mem_kube = mem_resource mw_ConfigMap (\<lambda>m w. w\<lparr>mw_ConfigMap := m\<rparr>) cm_Meta"
  "kb_PDB mem_kube = mem_resource mw_PDB (\<lambda>m w. w\<lparr>mw_PDB := m\<rparr>) pdb_Meta"
  "kb_StatefulSet mem_kube = mem_resource mw_StatefulSet (\<lambda>m w. w\<lparr>mw_StatefulSet := m\<rparr>) sts_Meta"
  "kb_Certificate mem_kube = mem_resource mw_Certificate (\<lambda>m w. w\<lparr>mw_Certificate := m\<rparr>) crt_Meta"
  "kb_GetCluster mem_kube k w = (w, case mw_Cluster w k of Some c \<Rightarrow> Inr (c\<lparr>kc_Namespace := fst k, kc_Name := snd k\<rparr>) | None \<Rightarrow> Inl (APIErr NotFound ''not found''))"
  "kb_UpdateStatus mem_kube c w = (case mw_Cluster w (kc_Namespace c, kc_Name c) of
        None \<Rightarrow> (w, Inl (APIErr NotFound ''not found''))
      | Some _ \<Rightarrow> (w\<lparr>mw_Cluster := (mw_Cluster w)((kc_Namespace c, kc_Name c) \<mapsto> c)\<rparr>, Inr c))"
  "kb_ListPods mem_kube n l w = (w, Inr (mw_Pods w))" "kb_ListWarnings mem_kube n u w = (w, Inr [])"
  "kb_SetController mem_kube c m = Inr (m\<lparr>om_Controller := Some (kc_Namespace c, kc_Name c)\<rparr>)"
  "kb_Rand mem_kube i w = (w, Inr (replicate i CHR 0x00))" "kb_Now mem_kube = mw_Now"
  "kb_WrongPassword mem_kube x p = False" "kb_Membership mem_kube = mw_Membership"
  "kb_Placement mem_kube = mw_Placement" "kb_Metrics mem_kube w u = Inl (Errorf ''no metrics'')"
  "kb_Leave mem_kube u w = (w, mw_Leave w u)"
  "vw_PVC mem_view = mw_PVC" "vw_Secret mem_view = mw_Secret" "vw_StatefulSet mem_view = mw_StatefulSet"
  by (simp_all add: mem_kube_def mem_view_def)

lemma mem_kube_laws: "kube_laws mem_view mem_kube"
  unfolding kube_laws_def mem_kube_fields calls_keep_def reads_keep_def
  by (intro conjI mem_resource_laws mem_resource_keeps) (auto simp: keeps_def meta_key_def split: option.split)


section \<open>The stored status\<close>

text \<open>
  \<open>vs\<close> is the stored status of every cluster. The operator reads the cluster from the API server, not
  from a cache. A status write stores what the server answers, which carries the two founding fields
  as they were sent; a write that fails may have been stored all the same.
\<close>

definition founding :: "KahunaClusterStatus \<Rightarrow> int32 \<times> bool" where
  "founding st = (st_BootstrapSize st, st_Bootstrapped st)"

definition status_laws :: "('w \<Rightarrow> object_key \<rightharpoonup> KahunaClusterStatus) \<Rightarrow> 'w kube \<Rightarrow> bool" where
  "status_laws vs kb \<longleftrightarrow>
     objects_keep vs kb \<and> resource_keeps vs (kb_StatefulSet kb) \<and>
     (\<forall>k w c. snd (kb_GetCluster kb k w) = Inr c \<longrightarrow>
        (kc_Namespace c, kc_Name c) = k \<and> vs w k = Some (kc_Status c)) \<and>
     (\<forall>c w. vs (fst (kb_UpdateStatus kb c w)) = vs w \<or>
        (\<exists>st. founding st = founding (kc_Status c) \<and>
          vs (fst (kb_UpdateStatus kb c w)) = (vs w)((kc_Namespace c, kc_Name c) \<mapsto> st))) \<and>
     (\<forall>c w c'. snd (kb_UpdateStatus kb c w) = Inr c' \<longrightarrow>
        kc_Namespace c' = kc_Namespace c \<and> kc_Name c' = kc_Name c \<and> kc_Spec c' = kc_Spec c \<and>
        founding (kc_Status c') = founding (kc_Status c) \<and>
        vs (fst (kb_UpdateStatus kb c w)) = (vs w)((kc_Namespace c, kc_Name c) \<mapsto> kc_Status c'))"

lemma status_get:
  assumes "status_laws vs kb" "kb_GetCluster kb k w = (w', res)"
  shows "vs w' = vs w" "res = Inr c \<Longrightarrow> (kc_Namespace c, kc_Name c) = k" "res = Inr c \<Longrightarrow> vs w k = Some (kc_Status c)"
proof -
  have "reads_keep vs kb" using assms(1) by (simp add: status_laws_def objects_keep_def)
  thus "vs w' = vs w" using assms(2) by (rule reads_keepD)
  have "snd (kb_GetCluster kb k w) = res" using assms(2) by simp
  thus "res = Inr c \<Longrightarrow> (kc_Namespace c, kc_Name c) = k" "res = Inr c \<Longrightarrow> vs w k = Some (kc_Status c)"
    using assms(1) unfolding status_laws_def by blast+
qed

lemma status_update:
  assumes "status_laws vs kb" "kb_UpdateStatus kb c w = (w', res)"
  shows "vs w' = vs w \<or> (\<exists>st. founding st = founding (kc_Status c) \<and> vs w' = (vs w)((kc_Namespace c, kc_Name c) \<mapsto> st))"
    "res = Inr c' \<Longrightarrow> kc_Namespace c' = kc_Namespace c \<and> kc_Name c' = kc_Name c \<and> kc_Spec c' = kc_Spec c \<and>
        founding (kc_Status c') = founding (kc_Status c) \<and>
        vs w' = (vs w)((kc_Namespace c, kc_Name c) \<mapsto> kc_Status c')"
proof -
  have r: "fst (kb_UpdateStatus kb c w) = w'" "snd (kb_UpdateStatus kb c w) = res" using assms(2) by simp_all
  show "vs w' = vs w \<or> (\<exists>st. founding st = founding (kc_Status c) \<and> vs w' = (vs w)((kc_Namespace c, kc_Name c) \<mapsto> st))"
    using assms(1) r(1) unfolding status_laws_def by blast
  show "res = Inr c' \<Longrightarrow> kc_Namespace c' = kc_Namespace c \<and> kc_Name c' = kc_Name c \<and> kc_Spec c' = kc_Spec c \<and>
        founding (kc_Status c') = founding (kc_Status c) \<and>
        vs w' = (vs w)((kc_Namespace c, kc_Name c) \<mapsto> kc_Status c')"
    using assms(1) r unfolding status_laws_def by blast
qed

definition mem_status :: "mem_world \<Rightarrow> object_key \<rightharpoonup> KahunaClusterStatus" where
  "mem_status w k = map_option kc_Status (mw_Cluster w k)"

lemma mem_status_laws: "status_laws mem_status mem_kube"
  unfolding status_laws_def mem_kube_fields objects_keep_def reads_keep_def
  by (intro conjI mem_resource_keeps) (auto simp: keeps_def mem_status_def fun_eq_iff split: option.splits)

end
