(* ===== verification/Naming.thy ===== *)
theory Naming
  imports Kahuna_Client API_Types
begin

text \<open>
  Names, addresses, labels, ports and sizes derived from a KahunaCluster, from
  \<open>src/internal/controller/naming.go\<close>. The lemmas show that a pod's name, DNS name and Raft
  endpoint identify its ordinal, that no node of a cluster is taken for a phantom witness, and the
  range of the size a cluster is driven toward.

  The locale \<open>roster_names\<close> is what the roster logic relies on: endpoints that identify their
  ordinal and are not those of witnesses. Its lemmas are the counting argument behind
  \<open>rosterMatches\<close>; it is interpreted on \<open>raftEndpoint\<close>.
\<close>


section \<open>Constants\<close>

definition storageMountPath :: string where "storageMountPath = ''/storage''"
definition dataPath :: string where "dataPath = storageMountPath @ ''/data''"
definition walPath :: string where "walPath = storageMountPath @ ''/wal''"
definition configMountPath :: string where "configMountPath = ''/etc/kahuna''"
definition tlsMountPath :: string where "tlsMountPath = ''/etc/kahuna/tls''"
definition tlsPasswordMountPath :: string where "tlsPasswordMountPath = ''/etc/kahuna/tls-password''"
definition entrypointFileName :: string where "entrypointFileName = ''entrypoint.sh''"
definition entrypointPath :: string where "entrypointPath = configMountPath @ ''/'' @ entrypointFileName"
definition topologyFileName :: string where "topologyFileName = ''topology.env''"
definition topologyPath :: string where "topologyPath = configMountPath @ ''/'' @ topologyFileName"
definition backupMountPath :: string where "backupMountPath = ''/backup''"
definition backupMACMountPath :: string where "backupMACMountPath = ''/etc/kahuna/backup-mac''"
definition backupMACFileName :: string where "backupMACFileName = ''key''"
definition backupMACKeyPath :: string where "backupMACKeyPath = backupMACMountPath @ ''/'' @ backupMACFileName"
definition dataVolumeName :: string where "dataVolumeName = ''data''"
definition walVolumeName :: string where "walVolumeName = ''wal''"
definition configVolumeName :: string where "configVolumeName = ''config''"
definition tlsVolumeName :: string where "tlsVolumeName = ''tls''"
definition tlsPasswordVolumeName :: string where "tlsPasswordVolumeName = ''tls-password''"
definition backupVolumeName :: string where "backupVolumeName = ''backup''"
definition backupMACVolumeName :: string where "backupMACVolumeName = ''backup-mac''"
definition containerName :: string where "containerName = ''kahuna''"
definition appName :: string where "appName = ''kahuna''"
definition portNameHTTP :: string where "portNameHTTP = ''http''"
definition portNameHTTPS :: string where "portNameHTTPS = ''https''"
definition configHashAnnotation :: string where
  "configHashAnnotation = ''kahuna.kahunakv.io/config-hash''"

lemmas volume_names =
  dataVolumeName_def walVolumeName_def configVolumeName_def tlsVolumeName_def
  tlsPasswordVolumeName_def backupVolumeName_def backupMACVolumeName_def

lemmas mount_paths =
  storageMountPath_def dataPath_def walPath_def configMountPath_def tlsMountPath_def
  tlsPasswordMountPath_def entrypointFileName_def entrypointPath_def topologyFileName_def
  topologyPath_def backupMountPath_def backupMACMountPath_def backupMACFileName_def
  backupMACKeyPath_def


section \<open>Names\<close>

definition stsName :: "KahunaCluster \<Rightarrow> string" where
  "stsName cluster = kc_Name cluster"

definition peerServiceName :: "KahunaCluster \<Rightarrow> string" where
  "peerServiceName cluster = kc_Name cluster @ ''-peer''"

definition clientServiceName :: "KahunaCluster \<Rightarrow> string" where
  "clientServiceName cluster = kc_Name cluster"

definition configMapName :: "KahunaCluster \<Rightarrow> string" where
  "configMapName cluster = kc_Name cluster @ ''-config''"

definition pdbName :: "KahunaCluster \<Rightarrow> string" where
  "pdbName cluster = kc_Name cluster"

definition certificateName :: "KahunaCluster \<Rightarrow> string" where
  "certificateName cluster = kc_Name cluster @ ''-tls''"

text \<open>
  The functions that dereference \<open>spec.backup\<close> take it as their last argument: every caller
  has checked that it is present.
\<close>

definition backupClaimName :: "KahunaCluster \<Rightarrow> BackupSpec \<Rightarrow> string" where
  "backupClaimName cluster b =
     (case bvs_ClaimName (bks_Volume b) of Some n \<Rightarrow> n | None \<Rightarrow> kc_Name cluster @ ''-backup'')"

definition backupMACSecretName :: "KahunaCluster \<Rightarrow> string" where
  "backupMACSecretName cluster = kc_Name cluster @ ''-backup-mac''"

definition backupPath :: "KahunaCluster \<Rightarrow> string" where
  "backupPath cluster = backupMountPath @ ''/'' @ kc_Name cluster"

definition backupClusterID :: "KahunaCluster \<Rightarrow> BackupSpec \<Rightarrow> string" where
  "backupClusterID cluster b =
     (if bks_ClusterID b \<noteq> [] then bks_ClusterID b else kc_Namespace cluster @ ''/'' @ kc_Name cluster)"

definition podName :: "KahunaCluster \<Rightarrow> int32 \<Rightarrow> string" where
  "podName cluster ordinal = stsName cluster @ ''-'' @ itoa ordinal"

definition peerDomain :: "KahunaCluster \<Rightarrow> string" where
  "peerDomain cluster = peerServiceName cluster @ ''.'' @ kc_Namespace cluster @ ''.svc.cluster.local''"

definition podFQDN :: "KahunaCluster \<Rightarrow> int32 \<Rightarrow> string" where
  "podFQDN cluster ordinal = podName cluster ordinal @ ''.'' @ peerDomain cluster"

definition ports :: "KahunaCluster \<Rightarrow> PortsSpec" where
  "ports cluster =
     (let p = \<lparr>prt_HTTP = 2070, prt_HTTPS = 2071, prt_InternalHTTP = 8081, prt_Raft = 8082\<rparr>
      in case sp_Ports (kc_Spec cluster) of
          None \<Rightarrow> p
        | Some q \<Rightarrow> \<lparr>
            prt_HTTP = (if prt_HTTP q \<noteq> 0 then prt_HTTP q else prt_HTTP p),
            prt_HTTPS = (if prt_HTTPS q \<noteq> 0 then prt_HTTPS q else prt_HTTPS p),
            prt_InternalHTTP = (if prt_InternalHTTP q \<noteq> 0 then prt_InternalHTTP q else prt_InternalHTTP p),
            prt_Raft = (if prt_Raft q \<noteq> 0 then prt_Raft q else prt_Raft p)\<rparr>)"

definition raftEndpoint :: "KahunaCluster \<Rightarrow> int32 \<Rightarrow> string" where
  "raftEndpoint cluster ordinal = podFQDN cluster ordinal @ '':'' @ itoa (prt_Raft (ports cluster))"

definition nodeIDForOrdinal :: "int32 \<Rightarrow> int32" where
  "nodeIDForOrdinal ordinal = wrap32 (ordinal + 1)"


section \<open>Labels\<close>

definition selectorLabels :: "KahunaCluster \<Rightarrow> string \<rightharpoonup> string" where
  "selectorLabels cluster =
     [''app.kubernetes.io/name'' \<mapsto> appName, ''app.kubernetes.io/instance'' \<mapsto> kc_Name cluster]"

definition podLabels :: "KahunaCluster \<Rightarrow> string \<rightharpoonup> string" where
  "podLabels cluster =
     [''app.kubernetes.io/component'' \<mapsto> ''server'',
      ''app.kubernetes.io/managed-by'' \<mapsto> ''kahuna-operator'']
     ++ sp_PodLabels (kc_Spec cluster) ++ selectorLabels cluster"


section \<open>Sizes\<close>

definition specReplicas :: "KahunaCluster \<Rightarrow> int32" where
  "specReplicas cluster = (case sp_Replicas (kc_Spec cluster) of None \<Rightarrow> 3 | Some n \<Rightarrow> n)"

definition initialAutoscaledReplicas :: "KahunaCluster \<Rightarrow> AutoscalingSpec \<Rightarrow> int32" where
  "initialAutoscaledReplicas cluster a =
     min (max (specReplicas cluster) (aus_MinReplicas a)) (aus_MaxReplicas a)"

definition desiredReplicas :: "KahunaCluster \<Rightarrow> int32" where
  "desiredReplicas cluster =
     (case kc_Autoscaling cluster of
        Some a \<Rightarrow>
          (case st_Autoscaling (kc_Status cluster) of
             Some s \<Rightarrow> if ast_DesiredReplicas s > 0 then ast_DesiredReplicas s
                       else initialAutoscaledReplicas cluster a
           | None \<Rightarrow> initialAutoscaledReplicas cluster a)
      | None \<Rightarrow> specReplicas cluster)"

definition singleNode :: "KahunaCluster \<Rightarrow> bool" where
  "singleNode cluster \<longleftrightarrow> kc_Autoscaling cluster = None \<and> specReplicas cluster = 1"


section \<open>Names identify ordinals\<close>

lemma podName_inject [simp]: "podName c i = podName c j \<longleftrightarrow> i = j"
  by (simp add: podName_def)

lemma podFQDN_inject [simp]: "podFQDN c i = podFQDN c j \<longleftrightarrow> i = j"
  by (simp add: podFQDN_def)

lemma raftEndpoint_inject [simp]: "raftEndpoint c i = raftEndpoint c j \<longleftrightarrow> i = j"
  by (simp add: raftEndpoint_def)

lemma ports_nonzero:
  "prt_HTTP (ports c) \<noteq> 0" "prt_HTTPS (ports c) \<noteq> 0"
  "prt_InternalHTTP (ports c) \<noteq> 0" "prt_Raft (ports c) \<noteq> 0"
  by (auto simp: ports_def Let_def split: option.splits)

lemma itoa_chars: "c \<in> set (itoa i) \<Longrightarrow> is_digit c \<or> c = CHR ''-''"
  by (auto simp: itoa_def split: if_splits dest: set_utoa)

text \<open>A decimal number after a colon ends in \<open>:0\<close> only when it is zero.\<close>

lemma HasSuffix_colon_zero: "HasSuffix (x @ '':'' @ itoa p) '':0'' \<longleftrightarrow> p = 0"
proof
  assume "HasSuffix (x @ '':'' @ itoa p) '':0''"
  then obtain y where y: "x @ '':'' @ itoa p = y @ '':0''"
    unfolding HasSuffix_def by (metis append_take_drop_id)
  have "itoa p \<noteq> []" by (simp add: itoa_def)
  then obtain ds d where ds: "itoa p = ds @ [d]" by (metis append_butlast_last_id)
  from y have "(x @ CHR '':'' # ds) @ [d] = (y @ [CHR '':'']) @ [CHR ''0'']"
    by (simp add: ds)
  then have *: "x @ CHR '':'' # ds = y @ [CHR '':'']" and d: "d = CHR ''0''"
    unfolding append1_eq_conv by blast+
  have "ds = []"
  proof (rule ccontr)
    assume "ds \<noteq> []"
    then obtain es e where es: "ds = es @ [e]" by (metis append_butlast_last_id)
    with * have "e = CHR '':''" by (metis append_Cons append_assoc last_snoc)
    then have "CHR '':'' \<in> set (itoa p)" by (simp add: ds es)
    from itoa_chars [OF this] show False by simp
  qed
  with ds d have "itoa p = itoa 0" by (simp add: itoa_def utoa.simps digit_def)
  then show "p = 0" by simp
next
  assume "p = 0"
  then show "HasSuffix (x @ '':'' @ itoa p) '':0''"
    by (simp add: HasSuffix_def itoa_def utoa.simps digit_def)
qed

lemma raftEndpoint_not_witness: "mem_Endpoint m = raftEndpoint c i \<Longrightarrow> \<not> IsWitness m"
  using HasSuffix_colon_zero [of "podFQDN c i" "prt_Raft (ports c)"] ports_nonzero(4) [of c]
  by (simp add: IsWitness_def raftEndpoint_def)

lemma selectorLabels_subset: "selectorLabels c \<subseteq>\<^sub>m podLabels c"
  by (simp add: podLabels_def map_le_map_add)


section \<open>Rosters over identifying names\<close>

locale roster_names =
  fixes endpoint :: "int \<Rightarrow> string"
  assumes endpoint_inject: "endpoint i = endpoint j \<Longrightarrow> i = j"
    and endpoint_not_witness: "mem_Endpoint m = endpoint i \<Longrightarrow> \<not> IsWitness m"
begin

definition expected :: "int \<Rightarrow> string multiset" where
  "expected n = mset (map endpoint (range_int n))"

lemma distinct_endpoints: "distinct (map endpoint (range_int n))"
  by (auto simp: distinct_map inj_on_def intro: endpoint_inject)

text \<open>
  As many members as nodes, and every node a voter: then the roster is the nodes, each once and
  each a voter.
\<close>

lemma voters_cover:
  assumes "length (mbr_Members m) = nat n" and "\<forall>i \<in> {0..<n}. HasVoter m (endpoint i)"
  shows "mset (map mem_Endpoint (mbr_Members m)) = expected n"
    and "\<forall>x \<in> set (mbr_Members m). mem_Role x = RoleVoter"
proof -
  let ?eps = "map mem_Endpoint (mbr_Members m)" and ?exp = "map endpoint (range_int n)"
  have sub: "set ?exp \<subseteq> mem_Endpoint ` set (Voters m)"
    using assms(2) by (auto simp: HasVoter_Voters)
  have "card (set ?exp) = nat n"
    using distinct_card [OF distinct_endpoints, of n] by simp
  then have "nat n \<le> card (mem_Endpoint ` set (Voters m))"
    using card_mono [OF _ sub] by simp
  also have "\<dots> \<le> length (Voters m)"
    by (metis card_image_le card_length finite_set le_trans)
  finally have len: "nat n \<le> length (Voters m)" .
  have "length (Voters m) = length (mbr_Members m)"
    using len length_filter_le [of _ "mbr_Members m"] assms(1) by (simp add: Voters_def le_antisym)
  then show "\<forall>x \<in> set (mbr_Members m). mem_Role x = RoleVoter"
    unfolding Voters_def by (metis (mono_tags, lifting) length_filter_less less_irrefl)
  have sub': "set ?exp \<subseteq> set ?eps"
    using sub by (auto simp: Voters_def)
  then have "nat n \<le> card (set ?eps)"
    using \<open>card (set ?exp) = nat n\<close> card_mono [OF _ sub'] by simp
  then have d: "distinct ?eps"
    using assms(1) card_length [of ?eps] by (simp add: card_distinct le_antisym)
  have "set ?exp = set ?eps"
    using sub' d assms(1) \<open>card (set ?exp) = nat n\<close>
    by (intro card_subset_eq) (simp_all add: distinct_card del: set_map)
  with d distinct_endpoints show "mset ?eps = expected n"
    unfolding expected_def by (metis set_eq_iff_mset_eq_distinct)
qed

lemma voters_cover_conv:
  assumes "mset (map mem_Endpoint (mbr_Members m)) = expected n"
    and "\<forall>x \<in> set (mbr_Members m). mem_Role x = RoleVoter"
  shows "length (mbr_Members m) = nat n" and "\<forall>i \<in> {0..<n}. HasVoter m (endpoint i)"
proof -
  show "length (mbr_Members m) = nat n"
    using arg_cong [OF assms(1), of size] by (simp add: expected_def)
  have "mem_Endpoint ` set (mbr_Members m) = endpoint ` {0..<n}"
    using arg_cong [OF assms(1), of set_mset] by (simp add: expected_def)
  then show "\<forall>i \<in> {0..<n}. HasVoter m (endpoint i)"
    using assms(2) unfolding HasVoter_iff by (metis imageE imageI)
qed

lemma no_witness_in_expected:
  "mset (map mem_Endpoint (mbr_Members m)) = expected n \<Longrightarrow> x \<in> set (mbr_Members m) \<Longrightarrow> \<not> IsWitness x"
  using endpoint_not_witness [of x]
  by (metis (no_types, opaque_lifting) expected_def image_iff list.set_map set_mset_mset)

end

interpretation rn: roster_names "raftEndpoint c" for c :: KahunaCluster
  by unfold_locales (simp_all add: raftEndpoint_not_witness)


section \<open>The size a cluster is driven toward\<close>

text \<open>A status the autoscaler wrote within its bounds, or none yet.\<close>

definition desired_in_bounds :: "KahunaCluster \<Rightarrow> bool" where
  "desired_in_bounds c \<longleftrightarrow>
     (case (kc_Autoscaling c, st_Autoscaling (kc_Status c)) of
        (Some a, Some s) \<Rightarrow> ast_DesiredReplicas s > 0 \<longrightarrow>
          aus_MinReplicas a \<le> ast_DesiredReplicas s \<and> ast_DesiredReplicas s \<le> aus_MaxReplicas a
      | _ \<Rightarrow> True)"

lemma specReplicas_pos: "valid_spec (kc_Spec c) \<Longrightarrow> 1 \<le> specReplicas c"
  by (auto simp: specReplicas_def valid_spec_def split: option.splits)

lemma initialAutoscaledReplicas_bounds:
  "valid_autoscaling a \<Longrightarrow> aus_MinReplicas a \<le> initialAutoscaledReplicas c a \<and>
     initialAutoscaledReplicas c a \<le> aus_MaxReplicas a"
  by (auto simp: initialAutoscaledReplicas_def valid_autoscaling_def)

lemma desiredReplicas_bounds:
  assumes "valid_spec (kc_Spec c)" "kc_Autoscaling c = Some a" "desired_in_bounds c"
  shows "aus_MinReplicas a \<le> desiredReplicas c \<and> desiredReplicas c \<le> aus_MaxReplicas a"
  using assms initialAutoscaledReplicas_bounds [OF valid_spec_autoscaling [OF assms(1,2)], of c]
  by (auto simp: desiredReplicas_def desired_in_bounds_def split: option.splits)

lemma desiredReplicas_pos:
  assumes "valid_spec (kc_Spec c)"
  shows "1 \<le> desiredReplicas c"
proof (cases "kc_Autoscaling c")
  case None
  then show ?thesis using specReplicas_pos [OF assms] by (simp add: desiredReplicas_def)
next
  case (Some a)
  from valid_spec_autoscaling [OF assms Some]
  have "3 \<le> aus_MinReplicas a" "valid_autoscaling a" by (simp_all add: valid_autoscaling_def)
  then show ?thesis using Some initialAutoscaledReplicas_bounds [of a c]
    by (auto simp: desiredReplicas_def split: option.splits)
qed

end
