(* ===== verification/Entrypoint.thy ===== *)
theory Entrypoint
  imports Naming Go_Sha256 "HOL-Library.Sublist"
begin

text \<open>
  The server's command line and the startup script, from
  \<open>src/internal/controller/entrypoint.go\<close>.

  The script is modelled twice: \<open>entrypointScript\<close> is the text the operator renders, whose digest
  \<open>configHash\<close> rides on the pod template, and \<open>run_entrypoint\<close> is what bash does with that text
  on a node, from the pod's name, the topology file and the node's volumes to the argument vector
  of the server or the error it exits with. \<open>shell_words\<close> reads back the single-quoted words the
  operator writes.

  \<open>impl\<close> resolves float conversions out of range and \<open>qv\<close> is \<open>Quantity.Value\<close> of
  apimachinery.
\<close>

definition nl :: string where "nl = [CHR 0x0A]"
definition bs :: string where "bs = [CHR 0x5C]"
definition quote :: char where "quote = CHR 0x27"

definition unlines :: "string list \<Rightarrow> string" where
  "unlines ls = concat (map (\<lambda>l. l @ nl) ls)"


section \<open>Constants\<close>

definition rebalancerConcurrentTransfers :: int where "rebalancerConcurrentTransfers = 4"
definition rebalancerMovesPerPass :: int where "rebalancerMovesPerPass = 8"
definition serverDLLPath :: string where "serverDLLPath = ''/app/Kahuna.Server.dll''"
definition certManagerKeystoreKey :: string where "certManagerKeystoreKey = ''keystore.p12''"
definition StorageBackendRocksDB :: string where "StorageBackendRocksDB = ''rocksdb''"


section \<open>Arguments\<close>

definition shellQuote :: "string \<Rightarrow> string" where
  "shellQuote s =
     [quote] @ concat (map (\<lambda>c. if c = quote then [quote] @ bs @ [quote, quote] else [c]) s) @ [quote]"

definition flagArgs :: "string list \<Rightarrow> string \<Rightarrow> int32 option \<Rightarrow> string list" where
  "flagArgs args flag v = (case v of None \<Rightarrow> args | Some n \<Rightarrow> args @ [flag, itoa n])"

definition boolFlag :: "string list \<Rightarrow> string \<Rightarrow> bool option \<Rightarrow> bool \<Rightarrow> string list" where
  "boolFlag args flag v want = (if v = None \<or> v \<noteq> Some want then args else args @ [flag])"

text \<open>\<open>strings.Cut\<close> up to the first \<open>=\<close>.\<close>

definition flagName :: "string \<Rightarrow> string option" where
  "flagName token =
     (if \<not> HasPrefix token ''--'' then None else Some (takeWhile (\<lambda>c. c \<noteq> CHR ''='') token))"

definition overridden_flags :: "string list \<Rightarrow> string set" where
  "overridden_flags extra = set (List.map_filter flagName extra)"

fun drop_overridden :: "string set \<Rightarrow> bool \<Rightarrow> string list \<Rightarrow> string list" where
  "drop_overridden ov skipping [] = []"
| "drop_overridden ov skipping (a # as) =
     (let skipping = (case flagName a of Some name \<Rightarrow> name \<in> ov | None \<Rightarrow> skipping)
      in if skipping then drop_overridden ov skipping as else a # drop_overridden ov skipping as)"

definition withoutOverridden :: "string list \<Rightarrow> string list \<Rightarrow> string list" where
  "withoutOverridden generated extra =
     (if overridden_flags extra = {} then generated
      else drop_overridden (overridden_flags extra) False generated)"

definition keystoreKey :: "KahunaCluster \<Rightarrow> string" where
  "keystoreKey cluster =
     (if tls_CertManager (kc_TLS cluster) \<noteq> None then certManagerKeystoreKey
      else if tls_KeystoreKey (kc_TLS cluster) \<noteq> [] then tls_KeystoreKey (kc_TLS cluster)
      else ''certificate.pfx'')"

text \<open>\<open>Duration.Seconds\<close>: whole seconds plus the rest as a fraction, in floating point.\<close>

definition duration_Seconds :: "duration \<Rightarrow> f64" where
  "duration_Seconds d =
     (let sec = tdiv d second; nsec = d - sec * second
      in f_add (of_int64 sec) (f_div (of_int64 nsec) (Fin 1000000000)))"

definition orDefault :: "string \<Rightarrow> string \<Rightarrow> string" where
  "orDefault s d = (if s = [] then d else s)"

definition listener_args :: "KahunaCluster \<Rightarrow> string list" where
  "listener_args cluster =
     (let p = ports cluster in
      [''--http-ports'', itoa (prt_HTTP p), itoa (prt_InternalHTTP p),
       ''--https-ports'', itoa (prt_HTTPS p), itoa (prt_Raft p),
       ''--https-certificate'', tlsMountPath @ ''/'' @ keystoreKey cluster,
       ''--allow-plaintext-listener''])"

definition storage_args :: "KahunaCluster \<Rightarrow> string list \<Rightarrow> string list" where
  "storage_args cluster args =
     (let s = sp_Storage (kc_Spec cluster);
          args = args @
            [''--storage'', orDefault (sto_Backend s) StorageBackendRocksDB,
             ''--storage-path'', dataPath,
             ''--storage-revision'', orDefault (sto_Revision s) ''v1'',
             ''--wal-storage'', orDefault (sto_WALBackend s) StorageBackendRocksDB,
             ''--wal-path'', walPath,
             ''--wal-revision'', orDefault (sto_WALRevision s) ''v1''];
          args = boolFlag args ''--disable-wal-sync-writes'' (sto_SyncWrites s) False;
          args = boolFlag args ''--disable-rocksdb-direct-reads'' (sto_DirectReads s) False;
          args = boolFlag args ''--rocksdb-shared-memory'' (sto_SharedMemory s) True;
          args = flagArgs args ''--rocksdb-shared-memory-budget-mb'' (sto_SharedMemoryBudgetMB s)
      in flagArgs args ''--rocksdb-shared-memtable-budget-mb'' (sto_SharedMemtableBudgetMB s))"

definition partition_args :: "KahunaCluster \<Rightarrow> string list \<Rightarrow> string list" where
  "partition_args cluster args =
     (let args = args @ [''--initial-cluster-partitions'',
            itoa (case sp_Partitions (kc_Spec cluster) of None \<Rightarrow> 3 | Some n \<Rightarrow> n)];
          args = boolFlag args ''--raft-allow-insecure-certificate-validation''
            (tls_InsecureSkipVerify (kc_TLS cluster)) True
      in case sp_Replication (kc_Spec cluster) of
          None \<Rightarrow> args
        | Some rep \<Rightarrow> args @
            [''--raft-replication-factor'', itoa (rep_Factor rep),
             ''--raft-enable-placement-rebalancer'',
             ''--raft-max-concurrent-replica-transfers'', itoa rebalancerConcurrentTransfers,
             ''--raft-max-replica-moves-per-pass'', itoa rebalancerMovesPerPass,
             ''--raft-replica-count-deadband'', ''0''])"

definition raft_args :: "RaftSpec \<Rightarrow> string list \<Rightarrow> string list" where
  "raft_args r args =
     (let args = flagArgs args ''--raft-heartbeat-interval'' (rft_HeartbeatIntervalMs r);
          args = flagArgs args ''--raft-voting-timeout'' (rft_VotingTimeoutMs r);
          args = flagArgs args ''--raft-start-election-timeout'' (rft_StartElectionTimeoutMs r);
          args = flagArgs args ''--raft-end-election-timeout'' (rft_EndElectionTimeoutMs r);
          args = boolFlag args ''--raft-enable-check-quorum'' (rft_EnableCheckQuorum r) True;
          args = flagArgs args ''--raft-gossip-interval'' (rft_GossipIntervalMs r);
          args = flagArgs args ''--raft-gossip-fanout'' (rft_GossipFanout r);
          args = flagArgs args ''--raft-ping-timeout'' (rft_PingTimeoutMs r);
          args = flagArgs args ''--raft-indirect-ping-fanout'' (rft_IndirectPingFanout r);
          args = flagArgs args ''--raft-suspicion-timeout'' (rft_SuspicionTimeoutMs r);
          args = flagArgs args ''--raft-dead-member-eviction-grace'' (rft_DeadMemberEvictionGraceMs r);
          args = flagArgs args ''--raft-backfill-threshold'' (rft_BackfillThreshold r);
          args = flagArgs args ''--raft-max-backfill-entries-per-round'' (rft_MaxBackfillEntriesPerRound r);
          args = flagArgs args ''--raft-learner-promotion-lag'' (rft_LearnerPromotionLag r)
      in flagArgs args ''--raft-learner-promotion-stable-window'' (rft_LearnerPromotionStableWindowMs r))"

definition transaction_args :: "TransactionsSpec \<Rightarrow> string list \<Rightarrow> string list" where
  "transaction_args t args =
     (let args = flagArgs args ''--default-transaction-timeout'' (txn_DefaultTimeoutMs t);
          args = flagArgs args ''--default-admission-wait'' (txn_DefaultAdmissionWaitMs t);
          args = flagArgs args ''--max-admission-wait'' (txn_MaxAdmissionWaitMs t);
          args = flagArgs args ''--max-concurrent-transactions'' (txn_MaxConcurrentTransactions t)
      in flagArgs args ''--max-concurrent-sessions'' (txn_MaxConcurrentSessions t))"

definition worker_args :: "WorkersSpec \<Rightarrow> string list \<Rightarrow> string list" where
  "worker_args w args =
     (let args = flagArgs args ''--locks-workers'' (wrk_Locks w);
          args = flagArgs args ''--keyvalue-workers'' (wrk_KeyValue w);
          args = flagArgs args ''--sequencer-workers'' (wrk_Sequencer w)
      in flagArgs args ''--background-writer-workers'' (wrk_BackgroundWriter w))"

definition backup_args :: "f64_impl \<Rightarrow> (quantity \<Rightarrow> int64) \<Rightarrow> KahunaCluster \<Rightarrow> BackupSpec \<Rightarrow> string list \<Rightarrow> string list" where
  "backup_args impl qv cluster b args =
     (let args = args @
            [''--pitr-backup-dir'', backupPath cluster,
             ''--pitr-backup-cluster-id'', backupClusterID cluster b,
             ''--pitr-backup-mac-key-file'', backupMACKeyPath,
             ''--backup-gc-interval'', ''0'']
      in case bks_Retention b of
          None \<Rightarrow> args
        | Some r \<Rightarrow>
            let args = flagArgs args ''--backup-retention-max-chains'' (brs_MaxChains r);
                args = (case brs_MaxAge r of None \<Rightarrow> args | Some d \<Rightarrow>
                  args @ [''--backup-retention-max-age'', itoa (to_int64 impl (duration_Seconds d))])
            in (case brs_MaxBytes r of None \<Rightarrow> args | Some q \<Rightarrow>
                  args @ [''--backup-retention-max-bytes'', itoa (qv q)]))"

definition generatedArgs :: "f64_impl \<Rightarrow> (quantity \<Rightarrow> int64) \<Rightarrow> KahunaCluster \<Rightarrow> string list" where
  "generatedArgs impl qv cluster =
     (let args = partition_args cluster (storage_args cluster (listener_args cluster));
          args = (case sp_Raft (kc_Spec cluster) of None \<Rightarrow> args | Some r \<Rightarrow> raft_args r args);
          args = (case sp_Transactions (kc_Spec cluster) of None \<Rightarrow> args | Some t \<Rightarrow> transaction_args t args);
          args = (case sp_Workers (kc_Spec cluster) of None \<Rightarrow> args | Some w \<Rightarrow> worker_args w args)
      in case sp_Backup (kc_Spec cluster) of None \<Rightarrow> args | Some b \<Rightarrow> backup_args impl qv cluster b args)"

definition staticArgs :: "f64_impl \<Rightarrow> (quantity \<Rightarrow> int64) \<Rightarrow> KahunaCluster \<Rightarrow> string list" where
  "staticArgs impl qv cluster =
     withoutOverridden (generatedArgs impl qv cluster) (sp_ExtraArgs (kc_Spec cluster)) @
     sp_ExtraArgs (kc_Spec cluster)"


section \<open>The files mounted into a pod\<close>

definition topologyEnv :: "KahunaCluster \<Rightarrow> int32 \<Rightarrow> string" where
  "topologyEnv cluster bootstrapSize = unlines
     [''# Generated by kahuna-operator. Read at startup; changes need no pod restart.'',
      ''REPLICAS='' @ itoa (desiredReplicas cluster),
      ''BOOTSTRAP_SIZE='' @ itoa bootstrapSize]"

definition passwordFile :: string where
  "passwordFile = tlsPasswordMountPath @ ''/password''"

definition script_identity :: "KahunaCluster \<Rightarrow> string" where
  \<open>script_identity cluster = unlines [
     ''#!/usr/bin/env bash'',
     ''# Generated by kahuna-operator for '' @ kc_Namespace cluster @ ''/'' @ kc_Name cluster @ ''. Do not edit '' @ [CHR 0xE2] @ [CHR 0x80] @ [CHR 0x94] @ '' the next reconcile overwrites it.'',
     ''set -euo pipefail'',
     [],
     ''if [[ -z "${POD_NAME:-}" ]]; then'',
     ''  echo "kahuna-operator: POD_NAME is unset; the downward API env var is missing" >&2'',
     ''  exit 1'',
     ''fi'',
     [],
     ''# The StatefulSet ordinal is the node's durable identity: pod names are stable across restarts,'',
     ''# so the Raft node id derived from it is too.'',
     ''ORDINAL="${POD_NAME##*-}"'',
     ''if ! [[ "$ORDINAL" =~ ^[0-9]+$ ]]; then'',
     ''  echo "kahuna-operator: cannot derive an ordinal from POD_NAME=$POD_NAME" >&2'',
     ''  exit 1'',
     ''fi'',
     [],
     ''STS_NAME='' @ shellQuote (stsName cluster),
     ''PEER_DOMAIN='' @ shellQuote (peerDomain cluster),
     ''RAFT_PORT='' @ itoa (prt_Raft (ports cluster)),
     []]\<close>

definition script_topology :: string where
  \<open>script_topology = unlines [
     ''# Topology lives in a separate file rather than in this script so that scaling the cluster does'',
     ''# not change the pod template and therefore does not restart every existing node.'',
     ''TOPOLOGY='' @ shellQuote topologyPath,
     ''if [[ ! -f "$TOPOLOGY" ]]; then'',
     ''  echo "kahuna-operator: $TOPOLOGY is missing" >&2'',
     ''  exit 1'',
     ''fi'',
     ''# shellcheck source=/dev/null'',
     ''source "$TOPOLOGY"'',
     [],
     ''# +1 because --raft-nodeid defaults to 0, making a node given 0 indistinguishable from one that'',
     ''# was never configured.'',
     ''NODE_ID=$((ORDINAL + 1))'',
     ''RAFT_HOST="${POD_NAME}.${PEER_DOMAIN}"'',
     []]\<close>

definition script_peers :: string where
  \<open>script_peers = unlines [
     ''# --initial-cluster lists this node's PEERS and must exclude the node itself. Before the roster'',
     ''# is seeded, Kommander assigns the discovery list straight to its peer set without filtering'',
     ''# self, so a self-entry would inflate quorum math during bootstrap.'',
     ''PEERS=()'',
     ''for ((i = 0; i < REPLICAS; i++)); do'',
     ''  if [[ "$i" -eq "$ORDINAL" ]]; then continue; fi'',
     ''  PEERS+=("${STS_NAME}-${i}.${PEER_DOMAIN}:${RAFT_PORT}")'',
     ''done'',
     [],
     ''# An empty peer list is not an error: it is how a single-node cluster asks the server for its'',
     ''# standalone mode. It is, however, the wrong thing to hand a multi-node member, so a node that'',
     ''# expects peers and has none fails rather than silently starting a second one-node cluster.'',
     ''CLUSTER_ARGS=()'',
     ''if [[ ${#PEERS[@]} -gt 0 ]]; then'',
     ''  CLUSTER_ARGS+=(--initial-cluster "${PEERS[@]}")'',
     ''elif [[ "$REPLICAS" -ne 1 ]]; then'',
     ''  echo "kahuna-operator: empty --initial-cluster with REPLICAS=$REPLICAS would start a standalone node" >&2'',
     ''  exit 1'',
     ''fi'',
     []]\<close>

definition script_join :: "string list \<Rightarrow> string" where
  \<open>script_join quoted = unlines [
     ''# Join mode. BOOTSTRAP_SIZE is the size the cluster was first created at and never changes, so'',
     ''# an ordinal at or above it is by definition a node added after the cluster was already running.'',
     ''#'',
     ''#   * Ordinal below BOOTSTRAP_SIZE -> one of the founding nodes. Static discovery seeds the'',
     ''#                      roster; --join-existing here could fork it into a second roster.'',
     ''#   * At or above, with data on disk -> already a member. It replays its WAL and rejoins its'',
     ''#                      partitions; asking it to re-admit itself is wrong.'',
     ''#   * At or above, empty -> a new node arriving at a running cluster (scale-up, or a node whose'',
     ''#                      volume was lost). It must enter as a Learner via the seeds.'',
     ''JOIN_ARGS=()'',
     ''if [[ "$ORDINAL" -ge "$BOOTSTRAP_SIZE" && -z "$(ls -A '' @ shellQuote dataPath @ '' 2>/dev/null)" ]]; then'',
     ''  JOIN_ARGS+=(--join-existing)'',
     ''fi'',
     [],
     ''mkdir -p '' @ shellQuote dataPath @ '' '' @ shellQuote walPath,
     [],
     ''# The keystore password would be visible in this container's argv. Kahuna reads it only from the'',
     ''# command line, so there is no way to avoid that; it is not exposed outside the pod.'',
     ''TLS_ARGS=()'',
     ''if [[ -f '' @ shellQuote passwordFile @ '' ]]; then'',
     ''  TLS_ARGS+=(--https-certificate-password "$(cat '' @ shellQuote passwordFile @ '')")'',
     ''fi'',
     [],
     ''STATIC_ARGS=('' @ join '' '' quoted @ '')'',
     []]\<close>

definition script_exec :: string where
  \<open>script_exec = unlines [
     ''# ${ARR[@]+"${ARR[@]}"} rather than "${ARR[@]}": under "set -u" an empty array is an unbound'',
     ''# variable in bash before 4.4, and a single-node cluster leaves CLUSTER_ARGS empty.'',
     ''set -x'',
     ''exec dotnet '' @ serverDLLPath @ '' '' @ bs,
     ''  --raft-nodename "$POD_NAME" '' @ bs,
     ''  --raft-nodeid "$NODE_ID" '' @ bs,
     ''  --raft-host "$RAFT_HOST" '' @ bs,
     ''  --raft-port "$RAFT_PORT" '' @ bs,
     ''  ${CLUSTER_ARGS[@]+"${CLUSTER_ARGS[@]}"} '' @ bs,
     ''  ${JOIN_ARGS[@]+"${JOIN_ARGS[@]}"} '' @ bs,
     ''  ${TLS_ARGS[@]+"${TLS_ARGS[@]}"} '' @ bs,
     ''  ${STATIC_ARGS[@]+"${STATIC_ARGS[@]}"}'']\<close>

definition entrypointScript :: "f64_impl \<Rightarrow> (quantity \<Rightarrow> int64) \<Rightarrow> KahunaCluster \<Rightarrow> string" where
  "entrypointScript impl qv cluster =
     script_identity cluster @ script_topology @ script_peers @
     script_join (map shellQuote (staticArgs impl qv cluster)) @ script_exec"

definition configHash :: "string \<Rightarrow> string" where
  "configHash script = take 32 (sha256_hex script)"


section \<open>What the script does\<close>

text \<open>
  The words of a list written in single quotes: a quoted run, an escaped character, or the two
  adjoining, separated by spaces. Anything else bash would read is not needed here.
\<close>

fun shell_words_from :: "bool \<Rightarrow> string option \<Rightarrow> string \<Rightarrow> string list option" where
  "shell_words_from False cur [] = Some (case cur of None \<Rightarrow> [] | Some w \<Rightarrow> [w])"
| "shell_words_from True cur [] = None"
| "shell_words_from True cur (c # cs) =
     (if c = quote then shell_words_from False cur cs
      else shell_words_from True (Some ((case cur of None \<Rightarrow> [] | Some w \<Rightarrow> w) @ [c])) cs)"
| "shell_words_from False cur (c # cs) =
     (if c = quote then shell_words_from True (Some (case cur of None \<Rightarrow> [] | Some w \<Rightarrow> w)) cs
      else if c = CHR '' '' then
        (case cur of
           None \<Rightarrow> shell_words_from False None cs
         | Some w \<Rightarrow> map_option (\<lambda>ws. w # ws) (shell_words_from False None cs))
      else if [c] = bs then
        (case cs of
           [] \<Rightarrow> None
         | d # ds \<Rightarrow> shell_words_from False (Some ((case cur of None \<Rightarrow> [] | Some w \<Rightarrow> w) @ [d])) ds)
      else None)"

definition shell_words :: "string \<Rightarrow> string list option" where
  "shell_words s = shell_words_from False None s"

text \<open>A number in bash arithmetic: octal after a leading zero, decimal otherwise, in 64 bits.\<close>

fun octal_val :: "nat \<Rightarrow> string \<Rightarrow> nat option" where
  "octal_val acc [] = Some acc"
| "octal_val acc (c # cs) = (if c \<in> set ''01234567'' then octal_val (8 * acc + digit_val c) cs else None)"

definition bash_num :: "string \<Rightarrow> int64 option" where
  "bash_num s = map_option (\<lambda>n. wrap64 (int n)) (if 1 < length s \<and> hd s = CHR ''0'' then octal_val 0 s else digits_val 0 s)"

text \<open>
  What a node's script finds: its pod name, the values of the topology file (if it is mounted),
  whether the data directory lists nothing, and the keystore password (if its file is mounted) as
  the command substitution reads it.
\<close>

record node_env =
  ne_PodName :: "string option"
  ne_Topology :: "(int32 \<times> int32) option"
  ne_DataEmpty :: bool
  ne_Password :: "string option"

definition after_last_dash :: "string \<Rightarrow> string" where
  "after_last_dash s = (let i = LastIndex s (CHR ''-'') in drop (nat (i + 1)) s)"

definition script_ordinal :: "node_env \<Rightarrow> string + (string \<times> string)" where
  "script_ordinal env =
     (case ne_PodName env of
        None \<Rightarrow> Inl ''kahuna-operator: POD_NAME is unset; the downward API env var is missing''
      | Some name \<Rightarrow>
          if name = [] then Inl ''kahuna-operator: POD_NAME is unset; the downward API env var is missing''
          else let ord = after_last_dash name in
            if ord \<noteq> [] \<and> list_all is_digit ord then Inr (name, ord)
            else Inl (''kahuna-operator: cannot derive an ordinal from POD_NAME='' @ name))"

definition script_peer_list :: "KahunaCluster \<Rightarrow> int32 \<Rightarrow> int64 \<Rightarrow> string list" where
  "script_peer_list cluster replicas ordinal =
     map (\<lambda>i. stsName cluster @ ''-'' @ itoa i @ ''.'' @ peerDomain cluster @ '':'' @ itoa (prt_Raft (ports cluster)))
       (filter (\<lambda>i. i \<noteq> ordinal) (range_int replicas))"

definition run_entrypoint :: "f64_impl \<Rightarrow> (quantity \<Rightarrow> int64) \<Rightarrow> KahunaCluster \<Rightarrow> node_env \<Rightarrow> string + string list" where
  "run_entrypoint impl qv cluster env =
     (case script_ordinal env of
        Inl e \<Rightarrow> Inl e
      | Inr (name, ord) \<Rightarrow>
          (case ne_Topology env of
             None \<Rightarrow> Inl (''kahuna-operator: '' @ topologyPath @ '' is missing'')
           | Some (replicas, bootstrapSize) \<Rightarrow>
               (case bash_num ord of
                  None \<Rightarrow> Inl ''value too great for base''
                | Some ordinal \<Rightarrow>
                    let peers = script_peer_list cluster replicas ordinal in
                    if peers = [] \<and> replicas \<noteq> 1 then
                      Inl (''kahuna-operator: empty --initial-cluster with REPLICAS='' @ itoa replicas @
                           '' would start a standalone node'')
                    else
                      (case shell_words (join '' '' (map shellQuote (staticArgs impl qv cluster))) of
                         None \<Rightarrow> Inl ''syntax error''
                       | Some static \<Rightarrow> Inr (
                           [''dotnet'', serverDLLPath,
                            ''--raft-nodename'', name,
                            ''--raft-nodeid'', itoa (wrap64 (ordinal + 1)),
                            ''--raft-host'', name @ ''.'' @ peerDomain cluster,
                            ''--raft-port'', itoa (prt_Raft (ports cluster))] @
                           (if peers \<noteq> [] then ''--initial-cluster'' # peers else []) @
                           (if ordinal \<ge> bootstrapSize \<and> ne_DataEmpty env then [''--join-existing''] else []) @
                           (case ne_Password env of None \<Rightarrow> [] | Some pw \<Rightarrow> [''--https-certificate-password'', pw]) @
                           static)))))"


section \<open>Quoting\<close>

definition quote_char :: "char \<Rightarrow> string" where
  "quote_char c = (if c = quote then [quote] @ bs @ [quote, quote] else [c])"

lemma shellQuote_eq: "shellQuote s = quote # concat (map quote_char s) @ [quote]"
  by (simp add: shellQuote_def quote_char_def [abs_def])

lemma shell_words_quoted_run:
  "shell_words_from True (Some w) (concat (map quote_char s) @ quote # rest) =
     shell_words_from False (Some (w @ s)) rest"
  by (induction s arbitrary: w) (auto simp: quote_char_def bs_def quote_def)

lemma shell_words_quoted_word:
  "shell_words_from False None (shellQuote x @ rest) = shell_words_from False (Some x) rest"
  using shell_words_quoted_run [of "[]" x rest] by (simp add: shellQuote_eq)

lemma shell_words_next:
  "shell_words_from False (Some x) (CHR '' '' # rest) = map_option (\<lambda>ws. x # ws) (shell_words_from False None rest)"
  by (simp add: quote_def)

lemma shell_words_join:
  "shell_words_from False None (join '' '' (map shellQuote args)) = Some args"
proof (induction args rule: induct_list012)
  case (2 x)
  show ?case using shell_words_quoted_word [of x "[]"] by simp
next
  case (3 x y zs)
  have "join '' '' (map shellQuote (x # y # zs)) =
      shellQuote x @ CHR '' '' # join '' '' (map shellQuote (y # zs))" by simp
  then show ?case
    by (simp only: shell_words_quoted_word shell_words_next 3 option.map)
qed simp


section \<open>Flags of a command line\<close>

abbreviation flags :: "string list \<Rightarrow> string list" where
  "flags args \<equiv> List.map_filter flagName args"

lemma flags_simps [simp]:
  "flags [] = []" "flags (a # as) = (case flagName a of None \<Rightarrow> flags as | Some f \<Rightarrow> f # flags as)"
  "flags (xs @ ys) = flags xs @ flags ys"
  by (simp_all add: List.map_filter_def split: option.splits)

text \<open>A flag with the values that follow it.\<close>

function flag_groups :: "string list \<Rightarrow> string list list" where
  "flag_groups [] = []"
| "flag_groups (a # as) = (a # takeWhile (\<lambda>x. flagName x = None) as) #
     flag_groups (dropWhile (\<lambda>x. flagName x = None) as)"
  by pat_completeness auto
termination
  by (relation "measure length") (auto simp: le_imp_less_Suc length_dropWhile_le)

definition group_kept :: "string set \<Rightarrow> string list \<Rightarrow> bool" where
  "group_kept ov g = (case flagName (hd g) of None \<Rightarrow> True | Some f \<Rightarrow> f \<notin> ov)"

lemma drop_overridden_values:
  "drop_overridden ov sk as =
     (if sk then [] else takeWhile (\<lambda>x. flagName x = None) as) @
     drop_overridden ov sk (dropWhile (\<lambda>x. flagName x = None) as)"
  by (induction as) auto

lemma drop_overridden_flag_first:
  assumes "as = [] \<or> flagName (hd as) \<noteq> None"
  shows "drop_overridden ov sk as = drop_overridden ov sk' as"
  using assms by (cases as) auto

lemma drop_overridden_groups:
  "drop_overridden ov False as = concat (filter (group_kept ov) (flag_groups as))"
proof (induction as rule: flag_groups.induct)
  case (2 a as)
  let ?v = "\<lambda>x. flagName x = None" and ?d = "dropWhile (\<lambda>x. flagName x = None) as"
  let ?sk = "case flagName a of Some name \<Rightarrow> name \<in> ov | None \<Rightarrow> False"
  have first: "?d = [] \<or> flagName (hd ?d) \<noteq> None" using hd_dropWhile [of ?v as] by blast
  have "drop_overridden ov ?sk as = (if ?sk then [] else takeWhile ?v as) @ drop_overridden ov False ?d"
    unfolding drop_overridden_values [of ov ?sk as] drop_overridden_flag_first [OF first, of ov ?sk False] ..
  then show ?case using 2 by (auto simp: Let_def group_kept_def split: option.splits)
qed simp

lemma flags_drop_overridden: "flags (drop_overridden ov sk as) = filter (\<lambda>f. f \<notin> ov) (flags as)"
  by (induction as arbitrary: sk) (auto simp: Let_def split: option.splits)

lemma flags_withoutOverridden: "flags (withoutOverridden gen extra) = filter (\<lambda>f. f \<notin> set (flags extra)) (flags gen)"
  by (auto simp: withoutOverridden_def flags_drop_overridden overridden_flags_def)

lemma flagName_itoa [simp]: "flagName (itoa n) = None"
proof -
  have "take 2 (itoa n) \<noteq> ''--''"
  proof
    assume t: "take 2 (itoa n) = ''--''"
    then have "hd (itoa n) = CHR ''-''" by (cases "itoa n") auto
    then have "n < 0" using hd_utoa [of "nat n"] by (auto simp: itoa_def split: if_splits)
    with t have "take 1 (utoa (nat (- n))) = ''-''" by (simp add: itoa_def numeral_2_eq_2)
    then show False using hd_utoa [of "nat (- n)"] by (cases "utoa (nat (- n))") auto
  qed
  then show ?thesis by (simp add: flagName_def HasPrefix_def numeral_2_eq_2)
qed

text \<open>Values of the spec that must not look like a flag.\<close>

definition plain_values :: "KahunaCluster \<Rightarrow> bool" where
  "plain_values c \<longleftrightarrow>
     (let s = sp_Storage (kc_Spec c) in
      flagName (sto_Backend s) = None \<and> flagName (sto_Revision s) = None \<and>
      flagName (sto_WALBackend s) = None \<and> flagName (sto_WALRevision s) = None) \<and>
     pred_option (\<lambda>b. flagName (backupClusterID c b) = None) (sp_Backup (kc_Spec c))"

lemma flagName_slash: "flagName (CHR ''/'' # s) = None"
  by (simp add: flagName_def HasPrefix_def)

lemma flags_flagArgs: "flags (flagArgs args f v) = flags args @ (if v = None then [] else flags [f])"
  by (simp add: flagArgs_def split: option.splits)

lemma flags_boolFlag: "flags (boolFlag args f v w) = flags args @ (if v = Some w then flags [f] else [])"
  by (simp add: boolFlag_def)

text \<open>The flags each part can add, in order.\<close>

definition listener_flags :: "string list" where
  "listener_flags = [''--http-ports'', ''--https-ports'', ''--https-certificate'', ''--allow-plaintext-listener'']"

definition storage_flags :: "string list" where
  "storage_flags = [''--storage'', ''--storage-path'', ''--storage-revision'', ''--wal-storage'',
     ''--wal-path'', ''--wal-revision'', ''--disable-wal-sync-writes'', ''--disable-rocksdb-direct-reads'',
     ''--rocksdb-shared-memory'', ''--rocksdb-shared-memory-budget-mb'', ''--rocksdb-shared-memtable-budget-mb'']"

definition partition_flags :: "string list" where
  "partition_flags = [''--initial-cluster-partitions'', ''--raft-allow-insecure-certificate-validation'',
     ''--raft-replication-factor'', ''--raft-enable-placement-rebalancer'',
     ''--raft-max-concurrent-replica-transfers'', ''--raft-max-replica-moves-per-pass'',
     ''--raft-replica-count-deadband'']"

definition raft_flags :: "string list" where
  "raft_flags = [''--raft-heartbeat-interval'', ''--raft-voting-timeout'', ''--raft-start-election-timeout'',
     ''--raft-end-election-timeout'', ''--raft-enable-check-quorum'', ''--raft-gossip-interval'',
     ''--raft-gossip-fanout'', ''--raft-ping-timeout'', ''--raft-indirect-ping-fanout'',
     ''--raft-suspicion-timeout'', ''--raft-dead-member-eviction-grace'', ''--raft-backfill-threshold'',
     ''--raft-max-backfill-entries-per-round'', ''--raft-learner-promotion-lag'',
     ''--raft-learner-promotion-stable-window'']"

definition transaction_flags :: "string list" where
  "transaction_flags = [''--default-transaction-timeout'', ''--default-admission-wait'',
     ''--max-admission-wait'', ''--max-concurrent-transactions'', ''--max-concurrent-sessions'']"

definition worker_flags :: "string list" where
  "worker_flags = [''--locks-workers'', ''--keyvalue-workers'', ''--sequencer-workers'',
     ''--background-writer-workers'']"

definition backup_flags :: "string list" where
  "backup_flags = [''--pitr-backup-dir'', ''--pitr-backup-cluster-id'', ''--pitr-backup-mac-key-file'',
     ''--backup-gc-interval'', ''--backup-retention-max-chains'', ''--backup-retention-max-age'',
     ''--backup-retention-max-bytes'']"

lemmas flag_lists = listener_flags_def storage_flags_def partition_flags_def raft_flags_def
  transaction_flags_def worker_flags_def backup_flags_def

definition all_flags :: "string list" where
  "all_flags = listener_flags @ storage_flags @ partition_flags @ raft_flags @ transaction_flags @
     worker_flags @ backup_flags"

lemma distinct_all_flags: "distinct all_flags"
  by code_simp

lemma subseq_opt:
  "subseq xs ys \<Longrightarrow> subseq ((if b then [] else [x]) @ xs) (x # ys)"
  "subseq xs ys \<Longrightarrow> subseq ((if b then [x] else []) @ xs) (x # ys)"
  by auto

lemma subseq_opt_last: "subseq (if b then [] else [x]) [x]" "subseq (if b then [x] else []) [x]"
  by auto

lemmas opt_intros = subseq_opt subseq_opt_last subseq_Cons2 list_emb_Nil

lemma all_flags_plain: "list_all (\<lambda>f. flags [f] = [f]) all_flags"
  by code_simp

lemmas flag_lits = all_flags_plain [unfolded all_flags_def flag_lists append.simps list.pred_inject]

lemmas flag_unfolds = Let_def flags_flagArgs flags_boolFlag flags_simps(3) append_assoc

lemma flags_raft_args: "subseq (flags args) A \<Longrightarrow> subseq (flags (raft_args r args)) (A @ raft_flags)"
  unfolding raft_args_def raft_flags_def flag_unfolds
  by (rule list_emb_append_mono, assumption) (simp only: flag_lits, intro opt_intros)

lemma flags_transaction_args:
  "subseq (flags args) A \<Longrightarrow> subseq (flags (transaction_args t args)) (A @ transaction_flags)"
  unfolding transaction_args_def transaction_flags_def flag_unfolds
  by (rule list_emb_append_mono, assumption) (simp only: flag_lits, intro opt_intros)

lemma flags_worker_args:
  "subseq (flags args) A \<Longrightarrow> subseq (flags (worker_args w args)) (A @ worker_flags)"
  unfolding worker_args_def worker_flags_def flag_unfolds
  by (rule list_emb_append_mono, assumption) (simp only: flag_lits, intro opt_intros)

lemma flags_alone: "flags [f] = [f] \<Longrightarrow> flags (f # rest) = f # flags rest"
  by (auto split: option.splits)

lemma flags_value: "flagName v = None \<Longrightarrow> flags (v # rest) = flags rest"
  by simp

lemma flagName_words [simp]: "flagName ''0'' = None" "flagName ''v1'' = None" "flagName ''rocksdb'' = None"
  by (simp_all add: flagName_def HasPrefix_def)

lemma flagName_paths [simp]:
  "flagName dataPath = None" "flagName walPath = None" "flagName (tlsMountPath @ s) = None"
  "flagName (backupPath c) = None" "flagName backupMACKeyPath = None"
  by (simp_all add: mount_paths backupPath_def flagName_slash)

lemma flagName_orDefault:
  "flagName s = None \<Longrightarrow> flagName (orDefault s ''v1'') = None"
  "flagName s = None \<Longrightarrow> flagName (orDefault s StorageBackendRocksDB) = None"
  by (simp_all add: orDefault_def StorageBackendRocksDB_def)

lemmas flag_values = flags_alone flags_value flagName_itoa flagName_paths flagName_words flags_simps(1)

lemma flags_listener_args: "flags (listener_args c) = listener_flags"
  unfolding listener_args_def listener_flags_def Let_def
  by (simp only: flag_lits flag_values)

lemma flags_storage_args:
  assumes "plain_values c" "subseq (flags args) A"
  shows "subseq (flags (storage_args c args)) (A @ storage_flags)"
proof -
  let ?s = "sp_Storage (kc_Spec c)"
  have v: "flagName (orDefault (sto_Backend ?s) StorageBackendRocksDB) = None"
    "flagName (orDefault (sto_Revision ?s) ''v1'') = None"
    "flagName (orDefault (sto_WALBackend ?s) StorageBackendRocksDB) = None"
    "flagName (orDefault (sto_WALRevision ?s) ''v1'') = None"
    using assms(1) by (simp_all add: plain_values_def Let_def flagName_orDefault)
  show ?thesis
    unfolding storage_args_def storage_flags_def flag_unfolds
    by (rule list_emb_append_mono [OF assms(2)])
      (simp only: flag_lits flag_values v append.simps, intro opt_intros)
qed

lemma flags_partition_args:
  assumes "subseq (flags args) A"
  shows "subseq (flags (partition_args c args)) (A @ partition_flags)"
proof (cases "sp_Replication (kc_Spec c)")
  case None
  have "subseq (flags [''--initial-cluster-partitions'', itoa (case sp_Partitions (kc_Spec c) of None \<Rightarrow> 3 | Some n \<Rightarrow> n)] @
      (if tls_InsecureSkipVerify (kc_TLS c) = Some True
       then flags [''--raft-allow-insecure-certificate-validation''] else [])) partition_flags"
    unfolding partition_flags_def
    by (simp only: flag_lits flag_values append.simps) auto
  then show ?thesis
    unfolding partition_args_def flag_unfolds None option.case by (rule list_emb_append_mono [OF assms])
next
  case (Some rep)
  then show ?thesis
    unfolding partition_args_def partition_flags_def flag_unfolds Some option.case
    by (intro list_emb_append_mono [OF assms])
      (simp only: flag_lits flag_values append.simps, intro opt_intros)
qed

lemma flags_backup_args:
  assumes "flagName (backupClusterID c b) = None" "subseq (flags args) A"
  shows "subseq (flags (backup_args impl qv c b args)) (A @ backup_flags)"
proof -
  have opt: "flags (case v of None \<Rightarrow> xs | Some x \<Rightarrow> xs @ [f, itoa (g x)]) = flags xs @ (if v = None then [] else [f])"
    if "flags [f] = [f]" for v xs f and g :: "'a \<Rightarrow> int"
    using that flags_alone [of f] by (cases v) (simp_all add: flags_value del: flags_simps(2))
  have base: "subseq [''--pitr-backup-dir'', ''--pitr-backup-cluster-id'', ''--pitr-backup-mac-key-file'',
      ''--backup-gc-interval''] backup_flags"
    by (simp add: backup_flags_def)
  show ?thesis
  proof (cases "bks_Retention b")
    case None
    then show ?thesis
      unfolding backup_args_def flag_unfolds None option.case
      by (intro list_emb_append_mono [OF assms(2)])
        (simp only: flag_lits flag_values assms(1) append.simps base)
  next
    case (Some r)
    then show ?thesis
      unfolding backup_args_def backup_flags_def Some option.case Let_def
      by (simp only: opt flag_lits flags_flagArgs flags_simps(3) append_assoc flag_values assms(1) append.simps)
        (intro list_emb_append_mono [OF assms(2)] opt_intros)
  qed
qed

text \<open>Every flag the operator generates is one of the known ones, and none is generated twice.\<close>

lemma flags_generatedArgs:
  assumes "plain_values c"
  shows "subseq (flags (generatedArgs impl qv c)) all_flags"
proof -
  let ?a1 = "partition_args c (storage_args c (listener_args c))"
  let ?a2 = "case sp_Raft (kc_Spec c) of None \<Rightarrow> ?a1 | Some r \<Rightarrow> raft_args r ?a1"
  let ?a3 = "case sp_Transactions (kc_Spec c) of None \<Rightarrow> ?a2 | Some t \<Rightarrow> transaction_args t ?a2"
  let ?a4 = "case sp_Workers (kc_Spec c) of None \<Rightarrow> ?a3 | Some w \<Rightarrow> worker_args w ?a3"
  have skip: "subseq xs A \<Longrightarrow> subseq xs (A @ B)" for xs A B :: "string list"
    using list_emb_append_mono [of "(=)" xs A "[]" B] by simp
  have "subseq (flags ?a1) ((listener_flags @ storage_flags) @ partition_flags)"
    by (intro flags_partition_args flags_storage_args [OF assms]) (simp add: flags_listener_args)
  then have "subseq (flags ?a2) (((listener_flags @ storage_flags) @ partition_flags) @ raft_flags)"
    by (cases "sp_Raft (kc_Spec c)") (simp_all add: flags_raft_args skip del: append_assoc)
  then have "subseq (flags ?a3) ((((listener_flags @ storage_flags) @ partition_flags) @ raft_flags) @ transaction_flags)"
    by (cases "sp_Transactions (kc_Spec c)") (simp_all add: flags_transaction_args skip del: append_assoc)
  then have "subseq (flags ?a4) (((((listener_flags @ storage_flags) @ partition_flags) @ raft_flags) @
      transaction_flags) @ worker_flags)"
    by (cases "sp_Workers (kc_Spec c)") (simp_all add: flags_worker_args skip del: append_assoc)
  moreover have "generatedArgs impl qv c =
      (case sp_Backup (kc_Spec c) of None \<Rightarrow> ?a4 | Some b \<Rightarrow> backup_args impl qv c b ?a4)"
    by (simp add: generatedArgs_def Let_def)
  ultimately have "subseq (flags (generatedArgs impl qv c)) ((((((listener_flags @ storage_flags) @
      partition_flags) @ raft_flags) @ transaction_flags) @ worker_flags) @ backup_flags)"
    using assms
    by (cases "sp_Backup (kc_Spec c)") (simp_all add: flags_backup_args plain_values_def skip del: append_assoc)
  then show ?thesis by (simp add: all_flags_def)
qed

lemma distinct_flags_static:
  assumes "plain_values c" "distinct (flags (sp_ExtraArgs (kc_Spec c)))"
  shows "distinct (flags (staticArgs impl qv c))"
proof -
  have "distinct (flags (generatedArgs impl qv c))"
    using flags_generatedArgs [OF assms(1)] distinct_all_flags by (metis distinct_nthsI subseq_conv_nths)
  then show ?thesis using assms(2)
    by (auto simp: staticArgs_def flags_withoutOverridden)
qed


section \<open>The script on a node\<close>

lemma hd_utoa_zero: "hd (utoa n) = CHR ''0'' \<Longrightarrow> n = 0"
proof (induction n rule: utoa.induct)
  case (1 n)
  show ?case
  proof (cases "n < 10")
    case True
    then have "hd (utoa n) = digit n" by (simp add: utoa.simps [of n])
    with 1 have "digit_val (digit n) = digit_val CHR ''0''" by simp
    moreover have "digit_val CHR ''0'' = 0" by (simp add: digit_val_def)
    ultimately show ?thesis using True by simp
  next
    case False
    then have "hd (utoa n) = hd (utoa (n div 10))" by (subst utoa.simps) simp
    with 1 False show ?thesis by auto
  qed
qed

lemma bash_num_itoa:
  assumes "0 \<le> i" "in64 i"
  shows "bash_num (itoa i) = Some i"
proof (cases "i = 0")
  case True
  then show ?thesis by (simp add: bash_num_def itoa_def utoa.simps digit_def is_digit_def digit_val_def wrap64_def)
next
  case False
  with assms(1) have "hd (itoa i) \<noteq> CHR ''0''" using hd_utoa_zero [of "nat i"] by (auto simp: itoa_def)
  moreover have "digits_val 0 (itoa i) = Some (nat i)" using assms(1) by (simp add: itoa_def digits_val_utoa)
  ultimately show ?thesis using assms by (simp add: bash_num_def)
qed

lemma after_last_dash_name:
  assumes "0 \<le> i"
  shows "after_last_dash (s @ ''-'' @ itoa i) = itoa i"
proof -
  have "CHR ''-'' \<notin> set (itoa i)" using itoa_nonneg_chars [OF assms] not_is_digit(1) by blast
  then show ?thesis
    using LastIndex_append [of "CHR ''-''" "itoa i" s] by (simp add: after_last_dash_def nat_add_distrib)
qed

lemma script_ordinal_podName:
  assumes "0 \<le> i" "ne_PodName env = Some (podName c i)"
  shows "script_ordinal env = Inr (podName c i, itoa i)"
proof -
  have "itoa i \<noteq> []" by (simp add: itoa_def)
  moreover have "list_all is_digit (itoa i)" using itoa_nonneg_chars [OF assms(1)] by (simp add: list_all_iff)
  moreover have "podName c i \<noteq> []" by (simp add: podName_def)
  ultimately show ?thesis
    using after_last_dash_name [OF assms(1), of "stsName c"] assms(2)
    by (simp add: script_ordinal_def Let_def podName_def)
qed

lemma script_peer_list_endpoints:
  "script_peer_list c n i = map (raftEndpoint c) (filter (\<lambda>j. j \<noteq> i) (range_int n))"
  by (simp add: script_peer_list_def raftEndpoint_def podFQDN_def podName_def)

lemma script_peer_list_empty: "script_peer_list c n i = [] \<longleftrightarrow> {0..<n} \<subseteq> {i}"
  by (auto simp: script_peer_list_endpoints filter_empty_conv)


section \<open>Properties\<close>

text \<open>
  C19: the words bash reads from the rendered argument list are exactly the arguments, whatever
  characters they hold, quotes and spaces included.
\<close>

theorem shell_words_roundtrip: "shell_words (join '' '' (map shellQuote args)) = Some args"
  unfolding shell_words_def by (rule shell_words_join)



text \<open>
  An option set by extraArgs is dropped from the generated arguments together with the values
  that follow it, and every other option is kept with its values, in order.
\<close>

lemma withoutOverridden_groups:
  "withoutOverridden generated extra =
     concat (filter (group_kept (set (flags extra))) (flag_groups generated))"
proof (cases "overridden_flags extra = {}")
  case True
  have "concat (flag_groups as) = as" for as by (induction as rule: flag_groups.induct) simp_all
  moreover have "filter (group_kept {}) gs = gs" for gs
    by (simp add: group_kept_def filter_id_conv split: option.splits)
  ultimately show ?thesis using True by (simp add: withoutOverridden_def overridden_flags_def)
next
  case False
  then show ?thesis by (simp add: withoutOverridden_def overridden_flags_def drop_overridden_groups)
qed

text \<open>
  No option of the common arguments is repeated, which the server would refuse, as long as
  extraArgs repeats none itself and no configured value looks like an option.
\<close>

lemma staticArgs_distinct:
  assumes "plain_values c" "distinct (flags (sp_ExtraArgs (kc_Spec c)))"
  shows "distinct (flags (staticArgs impl qv c))"
  using assms by (rule distinct_flags_static)

lemma staticArgs_distinct_witness: "distinct (flags (staticArgs example_impl (\<lambda>q. 0) example_cluster))"
proof (rule staticArgs_distinct)
  show "plain_values example_cluster"
    by (simp add: plain_values_def example_cluster_def example_storage_def)
qed (simp add: example_cluster_def)

text \<open>
  C40: an option the script itself passes for each node is not dropped when extraArgs sets it: the
  server is then started with that option twice.
\<close>

theorem run_entrypoint_repeats_node_flag:
  assumes "run_entrypoint impl qv c env = Inr argv"
    and "f \<in> {''--raft-nodename'', ''--raft-nodeid'', ''--raft-host'', ''--raft-port''}"
    and "f \<in> set (flags (sp_ExtraArgs (kc_Spec c)))"
  shows "\<not> distinct (flags argv)"
proof -
  from assms(1) obtain name id host port rest where argv:
    "argv = [''dotnet'', serverDLLPath, ''--raft-nodename'', name, ''--raft-nodeid'', id,
       ''--raft-host'', host, ''--raft-port'', port] @ rest @ staticArgs impl qv c"
    by (auto simp: run_entrypoint_def Let_def shell_words_def shell_words_join simp flip: append_assoc
        split: sum.splits prod.splits option.splits if_splits)
  have "f \<in> set (flags [''dotnet'', serverDLLPath, ''--raft-nodename'', name, ''--raft-nodeid'', id,
       ''--raft-host'', host, ''--raft-port'', port])"
    using assms(2) by (auto simp: flagName_def HasPrefix_def List.map_filter_def)
  moreover have "f \<in> set (flags (rest @ staticArgs impl qv c))"
    using assms(3) by (simp add: staticArgs_def)
  ultimately show ?thesis
    unfolding argv flags_simps(3) distinct_append by blast
qed

theorem run_entrypoint_repeats_node_flag_witness:
  "let c = example_cluster\<lparr>kc_Spec := example_spec\<lparr>sp_ExtraArgs := [''--raft-port=9000'']\<rparr>\<rparr>;
       env = \<lparr>ne_PodName = Some (podName c 0), ne_Topology = Some (3, 3), ne_DataEmpty = True, ne_Password = None\<rparr>
   in \<exists>argv. run_entrypoint example_impl (\<lambda>q. 0) c env = Inr argv \<and> \<not> distinct (flags argv)"
proof -
  let ?c = "example_cluster\<lparr>kc_Spec := example_spec\<lparr>sp_ExtraArgs := [''--raft-port=9000'']\<rparr>\<rparr>"
  let ?env = "\<lparr>ne_PodName = Some (podName ?c 0), ne_Topology = Some (3, 3), ne_DataEmpty = True, ne_Password = None\<rparr>"
  have "\<exists>argv. run_entrypoint example_impl (\<lambda>q. 0) ?c ?env = Inr argv"
    unfolding run_entrypoint_def script_ordinal_podName [of 0 ?env ?c, simplified]
    by (simp add: bash_num_itoa in64_def shell_words_def shell_words_join Let_def script_peer_list_def
        range_int_def upto.simps)
  then obtain argv where argv: "run_entrypoint example_impl (\<lambda>q. 0) ?c ?env = Inr argv" by blast
  have "''--raft-port'' \<in> set (flags (sp_ExtraArgs (kc_Spec ?c)))"
    by (simp add: flagName_def HasPrefix_def)
  from run_entrypoint_repeats_node_flag [OF argv _ this] argv show ?thesis by simp
qed

text \<open>The script does not depend on the size of the cluster nor on anything the operator records in
  status.\<close>

lemma entrypointScript_resize:
  "entrypointScript impl qv (c\<lparr>kc_Status := st, kc_Spec := (kc_Spec c)\<lparr>sp_Replicas := n, sp_Autoscaling := a\<rparr>\<rparr>) =
   entrypointScript impl qv c"
proof -
  let ?c = "c\<lparr>kc_Status := st, kc_Spec := (kc_Spec c)\<lparr>sp_Replicas := n, sp_Autoscaling := a\<rparr>\<rparr>"
  have n: "ports ?c = ports c" "stsName ?c = stsName c" "peerDomain ?c = peerDomain c"
    "keystoreKey ?c = keystoreKey c" "backupPath ?c = backupPath c" "backupClusterID ?c b = backupClusterID c b" for b
    by (simp_all add: ports_def stsName_def peerDomain_def peerServiceName_def keystoreKey_def backupPath_def
        backupClusterID_def)
  have l: "listener_args ?c = listener_args c" by (simp add: listener_args_def n)
  have st: "storage_args ?c = storage_args c" by (rule ext) (simp add: storage_args_def)
  have pt: "partition_args ?c = partition_args c" by (rule ext) (simp add: partition_args_def)
  have bk: "backup_args impl qv ?c = backup_args impl qv c"
    by (intro ext) (simp add: backup_args_def n)
  have "generatedArgs impl qv ?c = generatedArgs impl qv c"
    unfolding generatedArgs_def l st pt bk by simp
  then have "staticArgs impl qv ?c = staticArgs impl qv c"
    by (simp add: staticArgs_def)
  then show ?thesis by (simp add: entrypointScript_def script_identity_def n)
qed

end
