(* ===== verification/Resources.thy ===== *)
theory Resources
  imports Kube_API Entrypoint
begin

text \<open>
  The objects the operator wants to exist, from \<open>src/internal/controller/resources.go\<close>, with the
  references to the keystore password and the backup key they need from \<open>certificate.go\<close> and
  \<open>backup.go\<close>. Each builder is a function of the cluster; \<open>impl\<close> and \<open>qv\<close> are the parameters of
  the startup script (float conversion and the value of a quantity in bytes).
\<close>


section \<open>References to secrets\<close>

definition keystorePasswordKey :: string where "keystorePasswordKey = ''password''"
definition backupMACKey :: string where "backupMACKey = ''key''"
definition PVCRetentionDelete :: string where "PVCRetentionDelete = ''Delete''"

definition certPasswordSecretName :: "KahunaCluster \<Rightarrow> string" where
  "certPasswordSecretName cluster = kc_Name cluster @ ''-tls-password''"

definition tlsPasswordRef :: "KahunaCluster \<Rightarrow> SecretKeySelector option" where
  "tlsPasswordRef cluster =
     (case tls_PasswordSecretRef (kc_TLS cluster) of
        Some r \<Rightarrow> Some r
      | None \<Rightarrow>
          (case tls_CertManager (kc_TLS cluster) of
             Some _ \<Rightarrow> Some \<lparr>sks_Name = certPasswordSecretName cluster, sks_Key = keystorePasswordKey\<rparr>
           | None \<Rightarrow> None))"

definition tlsSecretName :: "KahunaCluster \<Rightarrow> string" where
  "tlsSecretName cluster =
     (case tls_SecretRef (kc_TLS cluster) of Some n \<Rightarrow> n | None \<Rightarrow> certificateName cluster)"

definition backupMACKeyRef :: "KahunaCluster \<Rightarrow> BackupSpec \<Rightarrow> SecretKeySelector" where
  "backupMACKeyRef cluster b =
     (case bks_MACKeySecretRef b of
        Some r \<Rightarrow> r
      | None \<Rightarrow> \<lparr>sks_Name = backupMACSecretName cluster, sks_Key = backupMACKey\<rparr>)"


section \<open>Metadata, services, configuration\<close>

definition objectMeta :: "KahunaCluster \<Rightarrow> string \<Rightarrow> ObjectMeta" where
  "objectMeta cluster name = \<lparr>om_Name = name, om_Namespace = kc_Namespace cluster,
     om_Labels = podLabels cluster, om_Annotations = Map.empty, om_UID = [], om_ResourceVersion = [],
     om_DeletionTimestamp = None, om_Controller = None\<rparr>"

definition servicePort :: "string \<Rightarrow> int32 \<Rightarrow> ServicePort" where
  "servicePort name p = \<lparr>spo_Name = name, spo_Port = p, spo_TargetPort = p, spo_Protocol = ''TCP''\<rparr>"

definition desiredPeerService :: "KahunaCluster \<Rightarrow> Service" where
  "desiredPeerService cluster =
     (let p = ports cluster in \<lparr>
        svc_Meta = objectMeta cluster (peerServiceName cluster), svc_Type = [],
        svc_ClusterIP = ''None'', svc_PublishNotReadyAddresses = True,
        svc_Selector = selectorLabels cluster,
        svc_Ports = [servicePort portNameHTTP (prt_HTTP p), servicePort portNameHTTPS (prt_HTTPS p),
          servicePort ''internal-http'' (prt_InternalHTTP p), servicePort ''raft'' (prt_Raft p)]\<rparr>)"

definition desiredClientService :: "KahunaCluster \<Rightarrow> Service" where
  "desiredClientService cluster =
     (let p = ports cluster in \<lparr>
        svc_Meta = objectMeta cluster (clientServiceName cluster), svc_Type = ''ClusterIP'',
        svc_ClusterIP = [], svc_PublishNotReadyAddresses = False,
        svc_Selector = selectorLabels cluster,
        svc_Ports = [servicePort portNameHTTP (prt_HTTP p), servicePort portNameHTTPS (prt_HTTPS p)]\<rparr>)"

definition desiredConfigMap :: "f64_impl \<Rightarrow> (quantity \<Rightarrow> int64) \<Rightarrow> KahunaCluster \<Rightarrow> int32 \<Rightarrow> ConfigMap" where
  "desiredConfigMap impl qv cluster bootstrapSize = \<lparr>
     cm_Meta = objectMeta cluster (configMapName cluster),
     cm_Data = [entrypointFileName \<mapsto> entrypointScript impl qv cluster,
                topologyFileName \<mapsto> topologyEnv cluster bootstrapSize]\<rparr>"

definition desiredPDB :: "KahunaCluster \<Rightarrow> PodDisruptionBudget" where
  "desiredPDB cluster = \<lparr>pdb_Meta = objectMeta cluster (pdbName cluster),
     pdb_Selector = selectorLabels cluster, pdb_MaxUnavailable = Some 1\<rparr>"

definition wantsPDB :: "KahunaCluster \<Rightarrow> bool" where
  "wantsPDB cluster =
     (case sp_PodDisruptionBudget (kc_Spec cluster) of Some b \<Rightarrow> b | None \<Rightarrow> desiredReplicas cluster \<ge> 3)"


section \<open>Volumes\<close>

definition volumeClaim :: "string \<Rightarrow> VolumeSpec \<Rightarrow> PersistentVolumeClaim" where
  "volumeClaim name v = \<lparr>
     pvc_Meta = \<lparr>om_Name = name, om_Namespace = [], om_Labels = Map.empty, om_Annotations = Map.empty,
       om_UID = [], om_ResourceVersion = [], om_DeletionTimestamp = None, om_Controller = None\<rparr>,
     pvc_AccessModes = (if vs_AccessModes v = [] then [''ReadWriteOnce''] else vs_AccessModes v),
     pvc_StorageClassName = vs_StorageClassName v, pvc_Storage = vs_Size v,
     pvc_VolumeName = [], pvc_Phase = [], pvc_StatusAccessModes = []\<rparr>"

definition defaultAffinity :: "KahunaCluster \<Rightarrow> Affinity" where
  "defaultAffinity cluster =
     (case sp_Affinity (kc_Spec cluster) of
        Some a \<Rightarrow> UserAffinity a
      | None \<Rightarrow> PreferApart 100 (selectorLabels cluster) ''kubernetes.io/hostname'')"

definition containerEnv :: "KahunaCluster \<Rightarrow> EnvVar list" where
  "containerEnv cluster =
     (let logLevel = (if sp_LogLevel (kc_Spec cluster) = [] then ''Information'' else sp_LogLevel (kc_Spec cluster)) in
      [EnvField ''POD_NAME'' ''metadata.name'', EnvField ''POD_NAMESPACE'' ''metadata.namespace'',
       EnvValue ''Logging__LogLevel__Default'' logLevel, EnvValue ''Logging__LogLevel__Kahuna'' logLevel,
       EnvValue ''Logging__LogLevel__Kommander'' logLevel,
       EnvValue ''DOTNET_SYSTEM_NET_SOCKETS_INLINE_COMPLETIONS'' ''1''])"

definition mode_0555 :: int32 where "mode_0555 = 365"
definition mode_0400 :: int32 where "mode_0400 = 256"

definition podVolumes :: "KahunaCluster \<Rightarrow> (string \<times> VolumeSource) list" where
  "podVolumes cluster =
     [(configVolumeName, ConfigMapVolume (configMapName cluster) mode_0555),
      (tlsVolumeName, SecretVolume (tlsSecretName cluster) [] mode_0400)] @
     (case tlsPasswordRef cluster of
        None \<Rightarrow> []
      | Some pw \<Rightarrow> [(tlsPasswordVolumeName, SecretVolume (sks_Name pw) [(sks_Key pw, ''password'')] mode_0400)]) @
     (case sp_Backup (kc_Spec cluster) of
        None \<Rightarrow> []
      | Some b \<Rightarrow>
          let mac = backupMACKeyRef cluster b in
          [(backupVolumeName, ClaimVolume (backupClaimName cluster b)),
           (backupMACVolumeName, SecretVolume (sks_Name mac) [(sks_Key mac, backupMACFileName)] mode_0400)])"

definition volumeMount :: "string \<Rightarrow> string \<Rightarrow> bool \<Rightarrow> VolumeMount" where
  "volumeMount name path ro = \<lparr>vm_Name = name, vm_MountPath = path, vm_ReadOnly = ro\<rparr>"

definition podVolumeMounts :: "KahunaCluster \<Rightarrow> VolumeMount list" where
  "podVolumeMounts cluster =
     [volumeMount dataVolumeName storageMountPath False, volumeMount configVolumeName configMountPath False,
      volumeMount tlsVolumeName tlsMountPath True] @
     (if sto_WAL (sp_Storage (kc_Spec cluster)) \<noteq> None then [volumeMount walVolumeName walPath False] else []) @
     (if tlsPasswordRef cluster \<noteq> None then [volumeMount tlsPasswordVolumeName tlsPasswordMountPath True] else []) @
     (if sp_Backup (kc_Spec cluster) \<noteq> None
      then [volumeMount backupVolumeName backupMountPath False, volumeMount backupMACVolumeName backupMACMountPath True]
      else [])"

text \<open>The claim for the backups. The caller has checked that the specification asks for one; it is
  the argument.\<close>

definition desiredBackupClaim :: "KahunaCluster \<Rightarrow> BackupSpec \<Rightarrow> VolumeSpec \<Rightarrow> PersistentVolumeClaim" where
  "desiredBackupClaim cluster b claim =
     (let spec = (if vs_AccessModes claim = []
                  then claim\<lparr>vs_AccessModes := [if singleNode cluster then ''ReadWriteOnce'' else ''ReadWriteMany'']\<rparr>
                  else claim);
          pvc = volumeClaim (backupClaimName cluster b) spec
      in pvc\<lparr>pvc_Meta := (pvc_Meta pvc)\<lparr>om_Namespace := kc_Namespace cluster, om_Labels := podLabels cluster\<rparr>\<rparr>)"


section \<open>The StatefulSet\<close>

definition claimTemplates :: "KahunaCluster \<Rightarrow> PersistentVolumeClaim list" where
  "claimTemplates cluster =
     (let s = sp_Storage (kc_Spec cluster) in
      volumeClaim dataVolumeName (sto_Data s) #
      (case sto_WAL s of None \<Rightarrow> [] | Some v \<Rightarrow> [volumeClaim walVolumeName v]))"

definition kahunaContainer :: "KahunaCluster \<Rightarrow> Container" where
  "kahunaContainer cluster =
     (let p = ports cluster; s = kc_Spec cluster in \<lparr>
        ctr_Name = containerName, ctr_Image = sp_Image s, ctr_ImagePullPolicy = sp_ImagePullPolicy s,
        ctr_Command = [''/bin/bash'', entrypointPath], ctr_Env = containerEnv cluster,
        ctr_Resources = sp_Resources s, ctr_SecurityContext = sp_SecurityContext s,
        ctr_VolumeMounts = podVolumeMounts cluster,
        ctr_Ports = map (\<lambda>(n, q). \<lparr>cp_Name = n, cp_ContainerPort = q, cp_Protocol = ''TCP''\<rparr>)
          [(portNameHTTP, prt_HTTP p), (portNameHTTPS, prt_HTTPS p), (''internal-http'', prt_InternalHTTP p), (''raft'', prt_Raft p)],
        ctr_LivenessProbe = \<lparr>prb_Path = ''/'', prb_Port = prt_HTTP p, prb_InitialDelaySeconds = 30,
          prb_PeriodSeconds = 10, prb_TimeoutSeconds = 5, prb_FailureThreshold = 6\<rparr>,
        ctr_ReadinessProbe = \<lparr>prb_Path = ''/v1/cluster/health'', prb_Port = prt_HTTP p, prb_InitialDelaySeconds = 5,
          prb_PeriodSeconds = 5, prb_TimeoutSeconds = 5, prb_FailureThreshold = 3\<rparr>\<rparr>)"

definition podTemplate :: "f64_impl \<Rightarrow> (quantity \<Rightarrow> int64) \<Rightarrow> KahunaCluster \<Rightarrow> PodTemplate" where
  "podTemplate impl qv cluster =
     (let s = kc_Spec cluster in \<lparr>
        pt_Labels = podLabels cluster,
        pt_Annotations = [configHashAnnotation \<mapsto> configHash (entrypointScript impl qv cluster)] ++ sp_PodAnnotations s,
        pt_ServiceAccountName = sp_ServiceAccountName s, pt_ImagePullSecrets = sp_ImagePullSecrets s,
        pt_SecurityContext = sp_PodSecurityContext s, pt_NodeSelector = sp_NodeSelector s,
        pt_Tolerations = sp_Tolerations s, pt_Affinity = defaultAffinity cluster,
        pt_TopologySpreadConstraints = sp_TopologySpreadConstraints s,
        pt_TerminationGracePeriodSeconds = sp_TerminationGracePeriodSeconds s,
        pt_Volumes = podVolumes cluster, pt_Containers = [kahunaContainer cluster]\<rparr>)"

definition desiredStatefulSet :: "f64_impl \<Rightarrow> (quantity \<Rightarrow> int64) \<Rightarrow> KahunaCluster \<Rightarrow> int32 \<Rightarrow> StatefulSet" where
  "desiredStatefulSet impl qv cluster part = \<lparr>
     sts_Meta = objectMeta cluster (stsName cluster),
     sts_Spec = \<lparr>
       ss_ServiceName = peerServiceName cluster, ss_Replicas = Some (desiredReplicas cluster),
       ss_Selector = selectorLabels cluster, ss_PodManagementPolicy = ''Parallel'',
       ss_UpdateStrategy = ''RollingUpdate'', ss_RollingUpdate = Some (Some part),
       ss_WhenScaled = (if sto_PVCRetentionPolicy (sp_Storage (kc_Spec cluster)) = PVCRetentionDelete
                        then DeleteClaims else RetainClaims),
       ss_WhenDeleted = RetainClaims, ss_VolumeClaimTemplates = claimTemplates cluster,
       ss_Template = podTemplate impl qv cluster\<rparr>,
     sts_StatusReplicas = 0, sts_StatusReadyReplicas = 0\<rparr>"


section \<open>The objects fit together\<close>

lemmas volume_names = dataVolumeName_def walVolumeName_def configVolumeName_def tlsVolumeName_def
  tlsPasswordVolumeName_def backupVolumeName_def backupMACVolumeName_def
lemmas mount_paths = storageMountPath_def configMountPath_def tlsMountPath_def walPath_def tlsPasswordMountPath_def
  backupMountPath_def backupMACMountPath_def

text \<open>C29: A pod that the StatefulSet creates has no dangling volume. Every mount names exactly one volume
  of the pod or one claim template, every volume and template is mounted, and no two mounts share a
  name or a path, whichever of the write-ahead log volume, the keystore password and the backups the
  specification asks for.\<close>

theorem pod_mounts_backed:
  "distinct (map vm_Name (podVolumeMounts c)) \<and> distinct (map vm_MountPath (podVolumeMounts c)) \<and>
   distinct (map fst (podVolumes c) @ map (om_Name \<circ> pvc_Meta) (claimTemplates c)) \<and>
   set (map vm_Name (podVolumeMounts c)) =
     set (map fst (podVolumes c)) \<union> set (map (om_Name \<circ> pvc_Meta) (claimTemplates c))"
  by (cases "sto_WAL (sp_Storage (kc_Spec c))"; cases "tlsPasswordRef c"; cases "sp_Backup (kc_Spec c)")
    (auto simp: podVolumeMounts_def podVolumes_def claimTemplates_def volumeMount_def volumeClaim_def volume_names
      mount_paths Let_def)

text \<open>The directory a path of the form \<open>dir/file\<close> lies in, as the pod sees it: the file is there when a
  volume is mounted at the directory and provides a file of that name.\<close>

definition provides :: "ConfigMap \<Rightarrow> VolumeSource \<Rightarrow> string \<Rightarrow> bool" where
  "provides cm v file =
     (case v of
        ConfigMapVolume n _ \<Rightarrow> n = om_Name (cm_Meta cm) \<and> cm_Data cm file \<noteq> None
      | SecretVolume n items _ \<Rightarrow> (items = [] \<or> file \<in> snd ` set items)
      | ClaimVolume _ \<Rightarrow> False)"

definition pod_file :: "ConfigMap \<Rightarrow> KahunaCluster \<Rightarrow> string \<Rightarrow> bool" where
  "pod_file cm c path \<longleftrightarrow>
     (\<exists>m\<in>set (podVolumeMounts c). \<exists>(n, v)\<in>set (podVolumes c).
        n = vm_Name m \<and> (\<exists>file. path = vm_MountPath m @ ''/'' @ file \<and> provides cm v file))"

lemma pod_fileI:
  assumes "volumeMount n dir ro \<in> set (podVolumeMounts c)" "(n, v) \<in> set (podVolumes c)" "provides cm v file"
  shows "pod_file cm c (dir @ ''/'' @ file)"
  unfolding pod_file_def
  by (rule bexI [OF _ assms(1)], rule bexI [OF _ assms(2)]) (use assms(3) in \<open>auto simp: volumeMount_def\<close>)


text \<open>The Kubernetes objects agree with each other: the StatefulSet, both Services and the disruption budget
  select exactly pods with the template's labels, the StatefulSet names the headless Service whose
  addresses exist before readiness, every Service port and both probes are ports of the container,
  all pods start at once, and deleting the cluster never deletes its data.\<close>

lemma desired_objects_agree:
  "let s = desiredStatefulSet impl qv c p; t = ss_Template (sts_Spec s);
       cps = cp_ContainerPort ` set (ctr_Ports (kahunaContainer c)) in
   ss_Selector (sts_Spec s) \<subseteq>\<^sub>m pt_Labels t \<and> svc_Selector (desiredPeerService c) = ss_Selector (sts_Spec s) \<and>
   svc_Selector (desiredClientService c) = ss_Selector (sts_Spec s) \<and> pdb_Selector (desiredPDB c) = ss_Selector (sts_Spec s) \<and>
   ss_ServiceName (sts_Spec s) = om_Name (svc_Meta (desiredPeerService c)) \<and>
   svc_PublishNotReadyAddresses (desiredPeerService c) \<and> svc_ClusterIP (desiredPeerService c) = ''None'' \<and>
   spo_TargetPort ` set (svc_Ports (desiredPeerService c)) = cps \<and>
   spo_TargetPort ` set (svc_Ports (desiredClientService c)) \<subseteq> cps \<and>
   prb_Port (ctr_LivenessProbe (kahunaContainer c)) \<in> cps \<and> prb_Port (ctr_ReadinessProbe (kahunaContainer c)) \<in> cps \<and>
   pt_Containers t = [kahunaContainer c] \<and> ss_PodManagementPolicy (sts_Spec s) = ''Parallel'' \<and>
   ss_WhenDeleted (sts_Spec s) = RetainClaims"
  using selectorLabels_subset
  by (simp add: Let_def desiredStatefulSet_def desiredPeerService_def desiredClientService_def desiredPDB_def
      podTemplate_def kahunaContainer_def servicePort_def objectMeta_def)

text \<open>C31: Scaling restarts no node: the pod template, its configuration digest included, does not change with
  the size, the autoscaling bounds or anything the operator records in status.\<close>

theorem podTemplate_size_independent:
  "podTemplate impl qv (c\<lparr>kc_Status := st, kc_Spec := (kc_Spec c)\<lparr>sp_Replicas := n, sp_Autoscaling := a\<rparr>\<rparr>) =
   podTemplate impl qv c"
proof -
  let ?c = "c\<lparr>kc_Status := st, kc_Spec := (kc_Spec c)\<lparr>sp_Replicas := n, sp_Autoscaling := a\<rparr>\<rparr>"
  have l: "podLabels ?c = podLabels c" "selectorLabels ?c = selectorLabels c"
    by (simp_all add: podLabels_def selectorLabels_def)
  have v: "tlsPasswordRef ?c = tlsPasswordRef c" "tlsSecretName ?c = tlsSecretName c" "configMapName ?c = configMapName c"
    "backupMACKeyRef ?c b = backupMACKeyRef c b" "backupClaimName ?c b = backupClaimName c b" "ports ?c = ports c" for b
    by (simp_all add: tlsPasswordRef_def certPasswordSecretName_def tlsSecretName_def certificateName_def configMapName_def
        backupMACKeyRef_def backupMACSecretName_def backupClaimName_def ports_def split: option.split)
  have "podVolumes ?c = podVolumes c" "podVolumeMounts ?c = podVolumeMounts c" "containerEnv ?c = containerEnv c"
    "defaultAffinity ?c = defaultAffinity c"
    by (simp_all add: podVolumes_def podVolumeMounts_def containerEnv_def defaultAffinity_def v l split: option.split)
  thus ?thesis unfolding podTemplate_def kahunaContainer_def entrypointScript_resize l v by (simp add: Let_def)
qed

end
