(* ===== verification/Certificates.thy ===== *)
theory Certificates
  imports Resources
begin

text \<open>
  The keystore the nodes serve TLS from, from \<open>src/internal/controller/certificate.go\<close>: the
  cert-manager Certificate, the generated password, the replacement of a keystore its password does
  not open, and whether the keystore is ready. Calls to the API server go through \<open>'w kube\<close>.
\<close>


section \<open>The Certificate\<close>

definition certManagerCertificateAnnotation :: string where
  "certManagerCertificateAnnotation = ''cert-manager.io/certificate-name''"

definition conditionKeystoreReady :: string where "conditionKeystoreReady = ''KeystoreReady''"

definition certificateDNSNames :: "KahunaCluster \<Rightarrow> string list" where
  "certificateDNSNames cluster =
     (let peer = peerServiceName cluster; svc = clientServiceName cluster; ns = kc_Namespace cluster in
      [''*.'' @ peer @ ''.'' @ ns @ ''.svc.cluster.local'',
       peer @ ''.'' @ ns @ ''.svc.cluster.local'',
       svc @ ''.'' @ ns @ ''.svc.cluster.local'',
       svc @ ''.'' @ ns @ ''.svc'',
       svc @ ''.'' @ ns,
       svc])"

definition issuerJSON :: "CertManagerSpec \<Rightarrow> json" where
  "issuerJSON cm =
     (let r = cms_IssuerRef cm; m = [''name'' \<mapsto> JStr (cir_Name r)];
          m = (if cir_Kind r \<noteq> [] then m(''kind'' \<mapsto> JStr (cir_Kind r)) else m);
          m = (if cir_Group r \<noteq> [] then m(''group'' \<mapsto> JStr (cir_Group r)) else m)
      in JObj m)"

text \<open>The caller has checked that the specification asks for a certificate; \<open>cm\<close> is what it asks for.
  A missing password reference would be a nil dereference.\<close>

definition desiredCertificate :: "KahunaCluster \<Rightarrow> CertManagerSpec \<Rightarrow> Certificate option" where
  "desiredCertificate cluster cm =
     map_option (\<lambda>pw.
       let spec = [''secretName'' \<mapsto> JStr (certificateName cluster),
             ''issuerRef'' \<mapsto> issuerJSON cm,
             ''commonName'' \<mapsto> JStr (clientServiceName cluster @ ''.'' @ kc_Namespace cluster @ ''.svc''),
             ''dnsNames'' \<mapsto> JList (map JStr (certificateDNSNames cluster)),
             ''keystores'' \<mapsto> JObj [''pkcs12'' \<mapsto> JObj [''create'' \<mapsto> JBool True,
                ''passwordSecretRef'' \<mapsto> JObj [''name'' \<mapsto> JStr (sks_Name pw), ''key'' \<mapsto> JStr (sks_Key pw)]]]];
           spec = (case cms_Duration cm of None \<Rightarrow> spec | Some d \<Rightarrow> spec(''duration'' \<mapsto> JStr (fmt_duration d)));
           spec = (case cms_RenewBefore cm of None \<Rightarrow> spec | Some d \<Rightarrow> spec(''renewBefore'' \<mapsto> JStr (fmt_duration d)))
       in \<lparr>crt_Meta = objectMeta cluster (certificateName cluster), crt_Spec = JObj spec\<rparr>)
     (tlsPasswordRef cluster)"


section \<open>Reconciling\<close>

definition secretMeta :: "KahunaCluster \<Rightarrow> string \<Rightarrow> string \<Rightarrow> string \<Rightarrow> Secret" where
  "secretMeta cluster name key val = \<lparr>sec_Meta = objectMeta cluster name, sec_Type = ''Opaque'', sec_Data = [key \<mapsto> val]\<rparr>"

definition reconcileKeystorePassword :: "'w kube \<Rightarrow> KahunaCluster \<Rightarrow> 'w \<Rightarrow> 'w \<times> goerr option" where
  "reconcileKeystorePassword kb cluster w =
     (if tls_CertManager (kc_TLS cluster) = None \<or> tls_PasswordSecretRef (kc_TLS cluster) \<noteq> None then (w, None)
      else
        let name = certPasswordSecretName cluster in
        case ka_Get (kb_Secret kb) (kc_Namespace cluster, name) w of
          (w, Inr _) \<Rightarrow> (w, None)
        | (w, Inl err) \<Rightarrow>
            if \<not> IsNotFound err then (w, Some err)
            else
              (case kb_Rand kb 32 w of
                 (w, Inl err) \<Rightarrow> (w, Some (WrapErr ''generating keystore password'' err))
               | (w, Inr buf) \<Rightarrow>
                   let secret = secretMeta cluster name keystorePasswordKey (base64_raw_url buf) in
                   (case kb_SetController kb cluster (sec_Meta secret) of
                      Inl err \<Rightarrow> (w, Some err)
                    | Inr m \<Rightarrow>
                        (case ka_Create (kb_Secret kb) (secret\<lparr>sec_Meta := m\<rparr>) w of
                           (w, Inl err) \<Rightarrow> (w, if IsAlreadyExists err then None else Some err)
                         | (w, Inr _) \<Rightarrow> (w, None)))))"

record keystoreMaterial =
  km_secret :: Secret
  km_keystore :: string
  km_password :: string

definition readKeystore :: "'w kube \<Rightarrow> KahunaCluster \<Rightarrow> 'w \<Rightarrow> 'w \<times> (goerr + keystoreMaterial option)" where
  "readKeystore kb cluster w =
     (case tlsPasswordRef cluster of
        None \<Rightarrow> (w, Inr None)
      | Some ref \<Rightarrow>
          (case ka_Get (kb_Secret kb) (kc_Namespace cluster, tlsSecretName cluster) w of
             (w, Inl err) \<Rightarrow> (w, if IsNotFound err then Inr None else Inl err)
           | (w, Inr secret) \<Rightarrow>
               (case sec_Data secret (keystoreKey cluster) of
                  None \<Rightarrow> (w, Inr None)
                | Some keystore \<Rightarrow>
                    (case ka_Get (kb_Secret kb) (kc_Namespace cluster, sks_Name ref) w of
                       (w, Inl err) \<Rightarrow> (w, if IsNotFound err then Inr None else Inl err)
                     | (w, Inr pw) \<Rightarrow>
                         (case sec_Data pw (sks_Key ref) of
                            None \<Rightarrow> (w, Inr None)
                          | Some password \<Rightarrow>
                              (w, Inr (Some \<lparr>km_secret = secret, km_keystore = keystore, km_password = password\<rparr>)))))))"

definition opensWith :: "'w kube \<Rightarrow> keystoreMaterial \<Rightarrow> string \<Rightarrow> bool" where
  "opensWith kb k password \<longleftrightarrow> \<not> kb_WrongPassword kb (km_keystore k) password"

definition replaceStaleKeystore :: "'w kube \<Rightarrow> KahunaCluster \<Rightarrow> 'w \<Rightarrow> 'w \<times> goerr option" where
  "replaceStaleKeystore kb cluster w =
     (if tls_CertManager (kc_TLS cluster) = None then (w, None)
      else
        case readKeystore kb cluster w of
          (w, Inl err) \<Rightarrow> (w, Some err)
        | (w, Inr None) \<Rightarrow> (w, None)
        | (w, Inr (Some k)) \<Rightarrow>
            let m = sec_Meta (km_secret k) in
            if (case om_Annotations m certManagerCertificateAnnotation of None \<Rightarrow> [] | Some a \<Rightarrow> a) \<noteq> certificateName cluster \<or>
               opensWith kb k (km_password k) then (w, None)
            else
              (case ka_Delete (kb_Secret kb) (kc_Namespace cluster, tlsSecretName cluster) (Some (om_UID m, om_ResourceVersion m)) w of
                 (w, None) \<Rightarrow> (w, None)
               | (w, Some err) \<Rightarrow>
                   (w, if IsNotFound err \<or> IsConflict err then None
                       else Some (WrapErr ''deleting stale keystore Secret'' err))))"

text \<open>The certificate's metadata is set on the stored object: the labels, then the owner.\<close>

definition reconcileCertificate :: "'w kube \<Rightarrow> KahunaCluster \<Rightarrow> 'w \<Rightarrow> 'w \<times> goerr option" where
  "reconcileCertificate kb cluster w =
     (case tls_CertManager (kc_TLS cluster) of
        None \<Rightarrow> (w, None)
      | Some cm \<Rightarrow>
          (case desiredCertificate cluster cm of
             None \<Rightarrow> (w, None)
           | Some desired \<Rightarrow>
               let obj = desired\<lparr>crt_Meta := (crt_Meta desired)\<lparr>om_Labels := Map.empty\<rparr>, crt_Spec := JObj Map.empty\<rparr> in
               (case ka_CreateOrUpdate (kb_Certificate kb) obj (\<lambda>obj.
                    case kb_SetController kb cluster ((crt_Meta obj)\<lparr>om_Labels := om_Labels (crt_Meta desired)\<rparr>) of
                      Inl err \<Rightarrow> Inl err
                    | Inr m \<Rightarrow> Inr (obj\<lparr>crt_Meta := m, crt_Spec := crt_Spec desired\<rparr>)) w of
                  (w, Inl err) \<Rightarrow>
                    (w, Some (if IsNoMatchError err
                       then WrapErr ''spec.tls.certManager is set but cert-manager is not installed in this cluster'' err
                       else err))
                | (w, Inr _) \<Rightarrow> replaceStaleKeystore kb cluster w)))"

definition certificateReady :: "'w kube \<Rightarrow> KahunaCluster \<Rightarrow> 'w \<Rightarrow> 'w \<times> bool \<times> string" where
  "certificateReady kb cluster w =
     (case ka_Get (kb_Secret kb) (kc_Namespace cluster, tlsSecretName cluster) w of
        (w, Inl err) \<Rightarrow>
          (w, False, if IsNotFound err then ''waiting for keystore Secret '' @ fmt_q (tlsSecretName cluster) else err_text err)
      | (w, Inr secret) \<Rightarrow>
          let key = keystoreKey cluster in
          if sec_Data secret key = None then
            (w, False, ''Secret '' @ fmt_q (tlsSecretName cluster) @ '' has no '' @ fmt_q key @ '' key'')
          else
            (case readKeystore kb cluster w of
               (w, Inl err) \<Rightarrow> (w, False, err_text err)
             | (w, Inr None) \<Rightarrow> (w, True, [])
             | (w, Inr (Some k)) \<Rightarrow>
                 if \<not> opensWith kb k (TrimRightFunc (\<lambda>c. c = CHR 0x0A) (km_password k)) then
                   (w, False, ''keystore in Secret '' @ fmt_q (tlsSecretName cluster) @
                      '' does not open with the password in Secret '' @
                      fmt_q (case tlsPasswordRef cluster of Some r \<Rightarrow> sks_Name r | None \<Rightarrow> []))
                 else (w, True, [])))"


section \<open>The certificate's names\<close>

text \<open>A name of a certificate covers a host name literally, or as a wildcard for exactly one label.\<close>

definition dns_matches :: "string \<Rightarrow> string \<Rightarrow> bool" where
  "dns_matches pat name \<longleftrightarrow>
     pat = name \<or>
     (take 2 pat = ''*.'' \<and> takeWhile (\<lambda>ch. ch \<noteq> CHR ''.'') name \<noteq> [] \<and>
      dropWhile (\<lambda>ch. ch \<noteq> CHR ''.'') name = drop 1 pat)"

lemma itoa_no_dot: "CHR ''.'' \<notin> set (itoa i)"
  by (auto simp: itoa_def dest!: set_utoa split: if_splits)

lemma certificate_password_set: "tls_CertManager (kc_TLS c) = Some cm \<Longrightarrow> desiredCertificate c cm \<noteq> None"
  by (auto simp: desiredCertificate_def tlsPasswordRef_def split: option.splits)

text \<open>The certificate covers every node the cluster can ever have under its own host name, however it is
  scaled, and the Service that clients use, so no scale reissues it.\<close>

lemma certificate_covers_nodes:
  assumes "CHR ''.'' \<notin> set (kc_Name c)"
  shows "list_ex (\<lambda>p. dns_matches p (podFQDN c i)) (certificateDNSNames c) \<and>
    list_ex (\<lambda>p. dns_matches p (clientServiceName c @ ''.'' @ kc_Namespace c @ ''.svc'')) (certificateDNSNames c)"
proof -
  have nd: "\<forall>ch\<in>set (podName c i). ch \<noteq> CHR ''.''"
    using assms itoa_no_dot [of i] by (auto simp: podName_def stsName_def)
  have eq: "podFQDN c i = podName c i @ ''.'' @ peerServiceName c @ ''.'' @ kc_Namespace c @ ''.svc.cluster.local''"
    by (simp add: podFQDN_def peerDomain_def)
  have "takeWhile (\<lambda>ch. ch \<noteq> CHR ''.'') (podFQDN c i) = podName c i"
    unfolding eq using nd by (simp add: takeWhile_append2)
  moreover have "dropWhile (\<lambda>ch. ch \<noteq> CHR ''.'') (podFQDN c i) =
      ''.'' @ peerServiceName c @ ''.'' @ kc_Namespace c @ ''.svc.cluster.local''"
    unfolding eq using nd by (simp add: dropWhile_append2)
  moreover have "podName c i \<noteq> []" by (simp add: podName_def)
  ultimately have "dns_matches (''*.'' @ peerServiceName c @ ''.'' @ kc_Namespace c @ ''.svc.cluster.local'') (podFQDN c i)"
    by (simp add: dns_matches_def)
  thus ?thesis by (simp add: certificateDNSNames_def Let_def dns_matches_def)
qed

section \<open>Secrets are never lost\<close>

lemma kube_secret_laws: "kube_laws V kb \<Longrightarrow> resource_laws (vw_Secret V) sec_Meta sec_Data (kb_Secret kb)"
  by (simp add: kube_laws_def)

text \<open>The generated keystore password is created once and never rewritten: whatever a pass does about it,
  every Secret that existed is still there with the same content.\<close>

lemma reconcileKeystorePassword_keeps:
  assumes laws: "kube_laws V kb" and run: "reconcileKeystorePassword kb c w = (w', r)"
    and old: "vw_Secret V w k = Some s"
  shows "vw_Secret V w' k = Some s"
proof -
  note L = kube_secret_laws [OF laws]
  have calls: "reads_keep (vw_Secret V) kb" using laws by (simp add: kube_laws_def calls_keep_def)
  obtain w1 r1 where g: "ka_Get (kb_Secret kb) (kc_Namespace c, certPasswordSecretName c) w = (w1, r1)" by fastforce
  obtain w2 r2 where rnd: "kb_Rand kb 32 w1 = (w2, r2)" by fastforce
  have v: "vw_Secret V w1 k = Some s" "vw_Secret V w2 k = Some s"
    using old resource_get(1) [OF L g] reads_keepD(4) [OF calls rnd] by simp_all
  have create: "vw_Secret V w3 k = Some s" if "ka_Create (kb_Secret kb) x w2 = (w3, r3)" for x w3 r3
    by (rule resource_create_keeps [OF L that v(2)])
  from run v old show ?thesis
    by (auto simp: reconcileKeystorePassword_def g rnd Let_def split: if_splits sum.splits prod.splits dest: create)
qed

text \<open>What reading the keystore returns, in terms of the stored Secrets.\<close>

definition stored_keystore :: "'w kube_view \<Rightarrow> KahunaCluster \<Rightarrow> 'w \<Rightarrow> keystoreMaterial \<Rightarrow> bool" where
  "stored_keystore V c w k \<longleftrightarrow>
     vw_Secret V w (kc_Namespace c, tlsSecretName c) = Some (km_secret k) \<and>
     sec_Data (km_secret k) (keystoreKey c) = Some (km_keystore k) \<and>
     (\<exists>ref s. tlsPasswordRef c = Some ref \<and> vw_Secret V w (kc_Namespace c, sks_Name ref) = Some s \<and>
        sec_Data s (sks_Key ref) = Some (km_password k))"

lemma readKeystore_sound:
  assumes laws: "kube_laws V kb" and run: "readKeystore kb c w = (w', r)"
  shows "vw_Secret V w' = vw_Secret V w"
    "r = Inr (Some k) \<Longrightarrow> stored_keystore V c w k"
    "r = Inr None \<Longrightarrow> \<not> stored_keystore V c w k'"
proof -
  note L = kube_secret_laws [OF laws]
  have "vw_Secret V w' = vw_Secret V w \<and> (r = Inr (Some k) \<longrightarrow> stored_keystore V c w k) \<and>
      (r = Inr None \<longrightarrow> \<not> stored_keystore V c w k')"
  proof (cases "tlsPasswordRef c")
    case None
    with run show ?thesis by (auto simp: readKeystore_def stored_keystore_def)
  next
    case (Some ref)
    obtain w1 r1 where g1: "ka_Get (kb_Secret kb) (kc_Namespace c, tlsSecretName c) w = (w1, r1)" by fastforce
    obtain w2 r2 where g2: "ka_Get (kb_Secret kb) (kc_Namespace c, sks_Name ref) w1 = (w2, r2)" by fastforce
    note G1 = resource_get [OF L g1] and G2 = resource_get [OF L g2, unfolded G1(1)]
    show ?thesis
      using run Some G1 G2
      by (auto simp: readKeystore_def g1 g2 stored_keystore_def split: sum.splits option.splits if_splits)
  qed
  thus "vw_Secret V w' = vw_Secret V w" "r = Inr (Some k) \<Longrightarrow> stored_keystore V c w k"
    "r = Inr None \<Longrightarrow> \<not> stored_keystore V c w k'" by auto
qed

text \<open>When the operator may delete the keystore Secret: cert-manager issued it for this cluster's
  Certificate, and it does not open with the password as stored.\<close>

definition stale_keystore :: "'w kube_view \<Rightarrow> 'w kube \<Rightarrow> KahunaCluster \<Rightarrow> 'w \<Rightarrow> bool" where
  "stale_keystore V kb c w \<longleftrightarrow>
     tls_CertManager (kc_TLS c) \<noteq> None \<and>
     (\<exists>k. stored_keystore V c w k \<and> kb_WrongPassword kb (km_keystore k) (km_password k) \<and>
        (case om_Annotations (sec_Meta (km_secret k)) certManagerCertificateAnnotation of None \<Rightarrow> [] | Some a \<Rightarrow> a) = certificateName c)"

lemma replaceStaleKeystore_only:
  assumes laws: "kube_laws V kb" and run: "replaceStaleKeystore kb c w = (w', r)"
    and changed: "vw_Secret V w' k \<noteq> vw_Secret V w k"
  shows "k = (kc_Namespace c, tlsSecretName c) \<and> stale_keystore V kb c w"
proof -
  note L = kube_secret_laws [OF laws]
  obtain w1 r1 where rk: "readKeystore kb c w = (w1, r1)" by fastforce
  note S = readKeystore_sound [OF laws rk]
  have cm: "tls_CertManager (kc_TLS c) \<noteq> None"
    using run changed by (cases "tls_CertManager (kc_TLS c)") (simp_all add: replaceStaleKeystore_def)
  obtain m where m: "r1 = Inr (Some m)"
    using run changed cm S(1) by (auto simp: replaceStaleKeystore_def rk split: sum.splits option.splits)
  have stale: "(case om_Annotations (sec_Meta (km_secret m)) certManagerCertificateAnnotation of None \<Rightarrow> [] | Some a \<Rightarrow> a) =
      certificateName c \<and> \<not> opensWith kb m (km_password m)"
    using run changed cm m S(1) by (auto simp: replaceStaleKeystore_def rk Let_def split: if_splits)
  obtain w2 r2 where d: "ka_Delete (kb_Secret kb) (kc_Namespace c, tlsSecretName c)
      (Some (om_UID (sec_Meta (km_secret m)), om_ResourceVersion (sec_Meta (km_secret m)))) w1 = (w2, r2)" by fastforce
  have "w' = w2" using run cm m stale by (auto simp: replaceStaleKeystore_def rk Let_def d split: option.splits)
  hence "k = (kc_Namespace c, tlsSecretName c)" using changed resource_delete(2) [OF L d] S(1) by metis
  thus ?thesis using cm S(2) [OF m] stale by (auto simp: stale_keystore_def opensWith_def)
qed

lemma reconcileCertificate_only:
  assumes laws: "kube_laws V kb" and run: "reconcileCertificate kb c w = (w', r)"
    and changed: "vw_Secret V w' k \<noteq> vw_Secret V w k"
  shows "k = (kc_Namespace c, tlsSecretName c) \<and> stale_keystore V kb c w"
proof -
  have keep: "resource_keeps (vw_Secret V) (kb_Certificate kb)" using laws by (simp add: kube_laws_def)
  obtain w1 where w1: "vw_Secret V w1 = vw_Secret V w" "replaceStaleKeystore kb c w1 = (w', r)"
    using run changed resource_keepsD(4) [OF keep]
    by (auto simp: reconcileCertificate_def Let_def split: option.splits prod.splits sum.splits) blast
  have "k = (kc_Namespace c, tlsSecretName c) \<and> stale_keystore V kb c w1"
    using replaceStaleKeystore_only [OF laws w1(2)] changed w1(1) by simp
  thus ?thesis by (simp add: stale_keystore_def stored_keystore_def w1(1))
qed

text \<open>C28: A keystore is reported ready only when the pods can serve from it: the Secret they mount has the
  keystore under its key, and the keystore is not one that refuses the password as they read it, that
  is without trailing newlines. Looking changes no Secret.\<close>

theorem certificateReady_sound:
  assumes laws: "kube_laws V kb" and run: "certificateReady kb c w = (w', ok, msg)"
  shows "vw_Secret V w' = vw_Secret V w \<and>
    (ok \<longrightarrow> (\<exists>s ks. vw_Secret V w (kc_Namespace c, tlsSecretName c) = Some s \<and> sec_Data s (keystoreKey c) = Some ks) \<and>
      (\<forall>k. stored_keystore V c w k \<longrightarrow>
         \<not> kb_WrongPassword kb (km_keystore k) (TrimRightFunc (\<lambda>ch. ch = CHR 0x0A) (km_password k))))"
proof -
  note L = kube_secret_laws [OF laws]
  obtain w1 r1 where g: "ka_Get (kb_Secret kb) (kc_Namespace c, tlsSecretName c) w = (w1, r1)" by fastforce
  obtain w2 r2 where rk: "readKeystore kb c w1 = (w2, r2)" by fastforce
  note G = resource_get [OF L g]
  note S = readKeystore_sound [OF laws rk]
  have uniq: "stored_keystore V c w k \<Longrightarrow> stored_keystore V c w k' \<Longrightarrow>
      km_keystore k = km_keystore k' \<and> km_password k = km_password k'" for k k'
    by (auto simp: stored_keystore_def)
  have same: "stored_keystore V c w1 = stored_keystore V c w" by (intro ext) (simp add: stored_keystore_def G(1))
  show ?thesis
  proof (cases r1)
    case (Inl e)
    thus ?thesis using run G(1) by (auto simp: certificateReady_def g)
  next
    case (Inr s)
    note s = G(2) [OF Inr]
    show ?thesis
    proof (cases "sec_Data s (keystoreKey c)")
      case None
      thus ?thesis using run Inr G(1) by (auto simp: certificateReady_def g)
    next
      case (Some ks)
      show ?thesis
      proof (cases ok)
        case False
        thus ?thesis using run Inr Some G(1) S(1) by (auto simp: certificateReady_def g rk split: sum.splits option.splits if_splits)
      next
        case True
        have "vw_Secret V w' = vw_Secret V w \<and> (r2 = Inr None \<or> (\<exists>m. r2 = Inr (Some m) \<and>
            \<not> kb_WrongPassword kb (km_keystore m) (TrimRightFunc (\<lambda>ch. ch = CHR 0x0A) (km_password m))))"
          using run Inr Some True G(1) S(1)
          by (auto simp: certificateReady_def g rk opensWith_def split: sum.splits option.splits if_splits)
        moreover have "\<not> stored_keystore V c w k" if "r2 = Inr None" for k using S(3) [OF that] same by simp
        moreover have "stored_keystore V c w m" if "r2 = Inr (Some m)" for m using S(2) [OF that] same by simp
        ultimately show ?thesis using s Some uniq by metis
      qed
    qed
  qed
qed

definition example_keystore :: Secret where
  "example_keystore = secretMeta example_cluster ''keystore'' ''certificate.pfx'' ''pkcs12''"

definition example_world :: mem_world where
  "example_world = \<lparr>mw_PVC = Map.empty, mw_Secret = [(''prod'', ''keystore'') \<mapsto> example_keystore], mw_Service = Map.empty,
     mw_ConfigMap = Map.empty, mw_PDB = Map.empty, mw_StatefulSet = Map.empty, mw_Certificate = Map.empty,
     mw_Cluster = [(kc_Namespace example_cluster, kc_Name example_cluster) \<mapsto> example_cluster], mw_Pods = [], mw_Now = 0, mw_Membership = (\<lambda>_. Inl (Errorf ''unreachable'')),
     mw_Placement = (\<lambda>_. Inl (Errorf ''unreachable'')), mw_Leave = (\<lambda>_. Inl (Errorf ''unreachable''))\<rparr>"

lemma example_tls_names [simp]:
  "tlsSecretName example_cluster = ''keystore''" "tlsPasswordRef example_cluster = None"
  "keystoreKey example_cluster = ''certificate.pfx''" "kc_Namespace example_cluster = ''prod''"
  by (simp_all add: tlsSecretName_def tlsPasswordRef_def keystoreKey_def example_cluster_def example_tls_def)

lemma example_ready: "certificateReady mem_kube example_cluster example_world = (example_world, True, [])"
proof -
  have "ka_Get (kb_Secret mem_kube) (''prod'', ''keystore'') example_world = (example_world, Inr example_keystore)"
    by (simp add: mem_resource_def example_world_def)
  moreover have "sec_Data example_keystore ''certificate.pfx'' \<noteq> None"
    by (simp add: example_keystore_def secretMeta_def)
  ultimately show ?thesis by (auto simp: certificateReady_def readKeystore_def Let_def)
qed

theorem certificateReady_sound_witness:
  "\<exists>s ks. vw_Secret mem_view example_world (''prod'', ''keystore'') = Some s \<and> sec_Data s ''certificate.pfx'' = Some ks"
  using certificateReady_sound [OF mem_kube_laws example_ready] unfolding example_tls_names by blast

end
