(* ===== verification/Backup_Schedule.thy ===== *)
theory Backup_Schedule
  imports API_Types
begin

text \<open>
  When to take a backup, from \<open>src/internal/controller/backup.go\<close>: \<open>decideBackup\<close>, \<open>latestDue\<close> and
  the backoff.

  A \<open>cron.Schedule\<close> is the function \<open>Next\<close>; \<open>schedule_of\<close> states what its documentation says
  of it, relative to the set of instants the schedule names.
\<close>


section \<open>Constants\<close>

definition backupPollInterval :: duration where "backupPollInterval = 10 * second"
definition defaultBackupTimeout :: duration where "defaultBackupTimeout = hour"
definition backupRetryInitial :: duration where "backupRetryInitial = minute"
definition backupRetryMax :: duration where "backupRetryMax = 30 * minute"
definition unclaimedRetryDelay :: duration where "unclaimedRetryDelay = 15 * second"
definition unclaimedFailAfter :: duration where "unclaimedFailAfter = 5 * minute"
definition maxMissedSchedules :: nat where "maxMissedSchedules = 100000"
definition maxFailureMessage :: nat where "maxFailureMessage = 1024"

datatype backupKind = backupNone | backupFull | backupIncremental

definition kind_text :: "backupKind \<Rightarrow> string" where
  "kind_text k = (case k of backupNone \<Rightarrow> [] | backupFull \<Rightarrow> ''Full'' | backupIncremental \<Rightarrow> ''Incremental'')"


section \<open>Deciding\<close>

type_synonym schedule = "gotime \<Rightarrow> gotime"

record backupInput =
  bin_full :: schedule
  bin_incremental :: "schedule option"
  bin_status :: BackupStatus
  bin_now :: gotime

record backupDecision =
  bd_kind :: backupKind
  bd_scheduled :: gotime
  bd_retryAt :: gotime
  bd_next :: gotime

fun latestDue_walk :: "nat \<Rightarrow> schedule \<Rightarrow> gotime \<Rightarrow> gotime \<Rightarrow> gotime \<times> gotime" where
  "latestDue_walk 0 s now t = (t, 0)"
| "latestDue_walk (Suc k) s now t =
     (let n = s t in if IsZero n \<or> After n now then (t, n) else latestDue_walk k s now n)"

definition latestDue :: "schedule \<Rightarrow> gotime \<Rightarrow> gotime \<Rightarrow> gotime \<times> gotime" where
  "latestDue s base now =
     (let t = s base in
      if IsZero t \<or> After t now then (0, t) else latestDue_walk maxMissedSchedules s now t)"

definition earliest :: "gotime \<Rightarrow> gotime \<Rightarrow> gotime" where
  "earliest a b = (if IsZero a then b else if IsZero b then a else if Before b a then b else a)"

fun backupRetryDelay_loop :: "nat \<Rightarrow> duration \<Rightarrow> duration" where
  "backupRetryDelay_loop 0 d = d"
| "backupRetryDelay_loop (Suc k) d = (if d < backupRetryMax then backupRetryDelay_loop k (d * 2) else d)"

definition backupRetryDelay :: "int32 \<Rightarrow> duration" where
  "backupRetryDelay failures =
     min (backupRetryDelay_loop (nat (failures - 1)) backupRetryInitial) backupRetryMax"

definition backup_due :: "backupInput \<Rightarrow> backupDecision" where
  "backup_due inp =
     (let st = bin_status inp in
      case bst_LastFullScheduleTime st of
        None \<Rightarrow> \<lparr>bd_kind = backupFull, bd_scheduled = bin_now inp, bd_retryAt = 0, bd_next = 0\<rparr>
      | Some lastFull \<Rightarrow>
          let (fullDue, fullNext) = latestDue (bin_full inp) lastFull (bin_now inp) in
          if \<not> IsZero fullDue then \<lparr>bd_kind = backupFull, bd_scheduled = fullDue, bd_retryAt = 0, bd_next = fullNext\<rparr>
          else case bin_incremental inp of
              None \<Rightarrow> \<lparr>bd_kind = backupNone, bd_scheduled = 0, bd_retryAt = 0, bd_next = fullNext\<rparr>
            | Some inc \<Rightarrow>
                if bst_LastBackupID st = [] then
                  \<lparr>bd_kind = backupNone, bd_scheduled = 0, bd_retryAt = 0, bd_next = fullNext\<rparr>
                else
                  let base = (case bst_LastIncrementalScheduleTime st of
                        Some t \<Rightarrow> if After t lastFull then t else lastFull | None \<Rightarrow> lastFull);
                      (incDue, incNext) = latestDue inc base (bin_now inp);
                      next = earliest fullNext incNext
                  in if \<not> IsZero incDue
                     then \<lparr>bd_kind = backupIncremental, bd_scheduled = incDue, bd_retryAt = 0, bd_next = next\<rparr>
                     else \<lparr>bd_kind = backupNone, bd_scheduled = 0, bd_retryAt = 0, bd_next = next\<rparr>)"

definition backup_retry_at :: "BackupStatus \<Rightarrow> gotime" where
  "backup_retry_at st =
     (if bst_ConsecutiveFailures st > 0 \<and> bst_LastFailureTime st \<noteq> None
      then Add (the (bst_LastFailureTime st)) (backupRetryDelay (bst_ConsecutiveFailures st))
      else case bst_LastUnclaimedTime st of Some t \<Rightarrow> Add t unclaimedRetryDelay | None \<Rightarrow> 0)"

definition decideBackup :: "backupInput \<Rightarrow> backupDecision" where
  "decideBackup inp =
     (let d = backup_due inp in
      if bd_kind d \<noteq> backupNone then
        let retryAt = backup_retry_at (bin_status inp) in
        if After retryAt (bin_now inp)
        then \<lparr>bd_kind = backupNone, bd_scheduled = 0, bd_retryAt = retryAt, bd_next = retryAt\<rparr>
        else d
      else d)"

definition untilDue :: "gotime \<Rightarrow> gotime \<Rightarrow> duration" where
  "untilDue next now = (if IsZero next then 0 else max (Sub next now) second)"


section \<open>What a schedule promises\<close>

text \<open>
  \<open>Next\<close> returns the first activation after the given time. It gives up, with the zero time, when
  there is none within five years.
\<close>

definition schedule_horizon :: duration where "schedule_horizon = 5 * 365 * 24 * hour"

definition schedule_of :: "gotime set \<Rightarrow> schedule \<Rightarrow> bool" where
  "schedule_of A s \<longleftrightarrow>
     (\<forall>a\<in>A. 0 < a) \<and>
     (\<forall>t. if s t = 0 then \<forall>a\<in>A. t < a \<longrightarrow> t + schedule_horizon < a
          else s t \<in> A \<and> t < s t \<and> (\<forall>a\<in>A. t < a \<longrightarrow> s t \<le> a))"

definition hourly :: schedule where
  "hourly t = (if t < 0 then hour else (t div hour + 1) * hour)"

lemma schedule_nextD:
  assumes "schedule_of A s" "s t \<noteq> 0"
  shows "s t \<in> A" "t < s t" "\<And>a. a \<in> A \<Longrightarrow> t < a \<Longrightarrow> s t \<le> a"
  using assms unfolding schedule_of_def by (auto split: if_splits)

lemma schedule_noneD:
  assumes "schedule_of A s" "s t = 0" "a \<in> A" "t < a"
  shows "t + schedule_horizon < a"
  using assms unfolding schedule_of_def by (metis (full_types))

lemma schedule_posD: "schedule_of A s \<Longrightarrow> a \<in> A \<Longrightarrow> 0 < a"
  unfolding schedule_of_def by blast

lemma hourly_bounds: "t < hourly t" "0 \<le> t \<Longrightarrow> hourly t \<le> t + hour"
proof -
  have "t = hour * (t div hour) + t mod hour" "0 \<le> t mod hour" "t mod hour < hour"
    by (simp_all del: duration_units add: hour_def)
  thus "t < hourly t" "0 \<le> t \<Longrightarrow> hourly t \<le> t + hour"
    by (auto simp: hourly_def)
qed

lemma hourly_mem: "\<exists>k. hourly t = k * hour \<and> 0 < k"
proof (cases "t < 0")
  case True thus ?thesis by (intro exI [of _ 1]) (simp add: hourly_def)
next
  case False
  hence "0 \<le> t div hour" by (simp add: pos_imp_zdiv_nonneg_iff)
  with False show ?thesis by (intro exI [of _ "t div hour + 1"]) (simp add: hourly_def)
qed

lemma hourly_least:
  assumes "0 < k" "t < k * hour"
  shows "hourly t \<le> k * hour"
proof (cases "t < 0")
  case True
  with assms show ?thesis by (simp add: hourly_def)
next
  case False
  obtain j where j: "hourly t = j * hour" using hourly_mem by blast
  have "j * hour < (k + 1) * hour"
    using hourly_bounds(2) [of t] False assms(2) j by (simp add: distrib_right)
  thus ?thesis using j by simp
qed

lemma hourly_schedule: "schedule_of {k * hour |k. 0 < k} hourly"
proof -
  have "hourly t \<noteq> 0" for t using hourly_mem [of t] by auto
  thus ?thesis unfolding schedule_of_def
    using hourly_bounds(1) hourly_mem hourly_least by (simp del: duration_units) (auto simp: hour_def)
qed


section \<open>The walk over missed schedule times\<close>

definition missed :: "gotime set \<Rightarrow> gotime \<Rightarrow> gotime \<Rightarrow> gotime set" where
  "missed A base now = {a \<in> A. base < a \<and> a \<le> now}"

lemma missed_iff [simp]: "a \<in> missed A base now \<longleftrightarrow> a \<in> A \<and> base < a \<and> a \<le> now"
  by (simp add: missed_def)

text \<open>Walking on from an activation, the result is an activation no later than now.\<close>

lemma latestDue_walk_due:
  assumes "schedule_of A s" "t \<in> A" "t \<le> now" "latestDue_walk k s now t = (due, next)"
  shows "due \<in> A \<and> t \<le> due \<and> due \<le> now"
  using assms(2-4)
proof (induction k arbitrary: t)
  case (Suc k)
  show ?case
  proof (cases "s t = 0 \<or> now < s t")
    case False
    hence "s t \<in> A \<and> t < s t \<and> s t \<le> now" using schedule_nextD [OF assms(1)] by auto
    moreover have "latestDue_walk k s now (s t) = (due, next)"
      using Suc.prems(3) False by (simp add: Let_def)
    ultimately show ?thesis using Suc.IH [of "s t"] by auto
  qed (use Suc.prems in \<open>auto simp: Let_def\<close>)
qed auto

text \<open>When it has a next time, the walk reached the end of the missed times.\<close>

lemma latestDue_walk_next:
  assumes "latestDue_walk k s now t = (due, next)" "next \<noteq> 0"
  shows "next = s due \<and> now < next"
  using assms by (induction k arbitrary: t) (auto simp: Let_def split: if_splits)

text \<open>The bound is enough for every walk over at most that many missed times.\<close>

lemma latestDue_walk_ends:
  assumes "schedule_of A s" "finite (missed A t now)" "card (missed A t now) < k"
    "latestDue_walk k s now t = (due, next)"
  shows "next = s due \<and> (s due = 0 \<or> now < s due)"
  using assms(2-4)
proof (induction k arbitrary: t)
  case (Suc k)
  show ?case
  proof (cases "s t = 0 \<or> now < s t")
    case False
    hence st: "s t \<in> A" "t < s t" "s t \<le> now" using schedule_nextD [OF assms(1)] by auto
    have "missed A (s t) now \<subset> missed A t now" using st by force
    hence "card (missed A (s t) now) < card (missed A t now)" "finite (missed A (s t) now)"
      using Suc.prems(1) by (auto intro: psubset_card_mono finite_subset)
    moreover have "latestDue_walk k s now (s t) = (due, next)"
      using Suc.prems(3) False by (simp add: Let_def)
    ultimately show ?thesis using Suc.IH [of "s t"] Suc.prems(2) by linarith
  qed (use Suc.prems in \<open>auto simp: Let_def\<close>)
qed simp

lemma latestDue_zero_iff:
  assumes "schedule_of A s"
  shows "fst (latestDue s base now) = 0 \<longleftrightarrow> s base = 0 \<or> now < s base"
proof (cases "s base = 0 \<or> now < s base")
  case False
  obtain due nxt where w: "latestDue_walk maxMissedSchedules s now (s base) = (due, nxt)" by fastforce
  have "due \<in> A"
    using latestDue_walk_due [OF assms _ _ w] False schedule_nextD [OF assms] by auto
  with schedule_posD [OF assms] w False show ?thesis by (fastforce simp: latestDue_def Let_def)
qed (simp add: latestDue_def Let_def)

lemma latestDue_due_iff:
  assumes "schedule_of A s" "now \<le> base + schedule_horizon"
  shows "fst (latestDue s base now) \<noteq> 0 \<longleftrightarrow> missed A base now \<noteq> {}"
proof (cases "s base = 0")
  case True
  with schedule_noneD [OF assms(1) True] assms(2) show ?thesis
    using latestDue_zero_iff [OF assms(1)] by fastforce
next
  case False
  note n = schedule_nextD [OF assms(1) False]
  show ?thesis unfolding latestDue_zero_iff [OF assms(1)]
    using False n by (force simp: missed_def)
qed

lemma latestDue_sound:
  assumes "schedule_of A s" "fst (latestDue s base now) \<noteq> 0"
  shows "fst (latestDue s base now) \<in> missed A base now"
proof -
  have b: "s base \<noteq> 0" "s base \<le> now" using assms latestDue_zero_iff by fastforce+
  obtain due nxt where w: "latestDue_walk maxMissedSchedules s now (s base) = (due, nxt)" by fastforce
  note n = schedule_nextD [OF assms(1) b(1)]
  have "due \<in> A \<and> s base \<le> due \<and> due \<le> now" by (rule latestDue_walk_due [OF assms(1) n(1) b(2) w])
  with n b w show ?thesis by (simp add: latestDue_def Let_def)
qed


text \<open>C23: One run covers every missed schedule time: as long as at most \<open>maxMissedSchedules\<close> of
  them lie after the base and the base is at most five years old, \<open>latestDue\<close> returns the latest
  missed one, and as the next time whatever the schedule has after it.\<close>

theorem latestDue_latest:
  assumes "schedule_of A s" "now \<le> base + schedule_horizon"
    "finite (missed A base now)" "missed A base now \<noteq> {}" "card (missed A base now) \<le> maxMissedSchedules"
  shows "latestDue s base now = (Max (missed A base now), s (Max (missed A base now)))"
proof -
  obtain due nxt where l: "latestDue s base now = (due, nxt)" by fastforce
  have due: "due \<in> missed A base now"
    using latestDue_sound [OF assms(1), of base now] latestDue_due_iff [OF assms(1,2)] assms(4) l by simp
  have b: "s base \<noteq> 0" "s base \<le> now"
    using latestDue_zero_iff [OF assms(1), of base now] latestDue_due_iff [OF assms(1,2)] assms(4) by auto
  note n = schedule_nextD [OF assms(1) b(1)]
  have w: "latestDue_walk maxMissedSchedules s now (s base) = (due, nxt)"
    using l b by (simp add: latestDue_def Let_def)
  have sub: "missed A (s base) now \<subset> missed A base now" using n b by force
  have "card (missed A (s base) now) < card (missed A base now)" by (rule psubset_card_mono [OF assms(3) sub])
  hence c: "card (missed A (s base) now) < maxMissedSchedules" using assms(5) by linarith
  have f: "finite (missed A (s base) now)" using sub assms(3) by (auto intro: finite_subset)
  have e: "nxt = s due" "s due = 0 \<or> now < s due"
    using latestDue_walk_ends [OF assms(1) f c w] by auto
  have "a \<le> due" if a: "a \<in> missed A base now" for a
  proof (rule ccontr)
    assume "\<not> a \<le> due"
    hence "due < a" by simp
    with a have "s due = 0 \<Longrightarrow> due + schedule_horizon < a" "s due \<noteq> 0 \<Longrightarrow> s due \<le> a"
      using schedule_noneD [OF assms(1)] schedule_nextD(3) [OF assms(1)] by auto
    with a e(2) due assms(2) show False unfolding missed_iff by linarith
  qed
  hence "Max (missed A base now) = due" using due assms(3) by (intro Max_eqI) auto
  with l e show ?thesis by simp
qed

lemma missed_hourly:
  "missed {k * hour |k. 0 < k} (10 * hour) (12 * hour + minute) = {11 * hour, 12 * hour}" (is "?M = _")
proof
  show "?M \<subseteq> {11 * hour, 12 * hour}"
  proof
    fix a assume "a \<in> ?M"
    then obtain k where k: "a = k * hour" "10 * hour < k * hour" "k * hour \<le> 12 * hour + minute" by auto
    hence "10 < k" "k < 13" by simp_all
    hence "k = 11 \<or> k = 12" by linarith
    with k show "a \<in> {11 * hour, 12 * hour}" by auto
  qed
  have "k * hour \<in> {k * hour |k. 0 < k}" if "0 < k" for k using that by blast
  from this [of 11] this [of 12] show "{11 * hour, 12 * hour} \<subseteq> ?M"
    by (simp add: missed_def del: mem_Collect_eq) simp
qed

theorem latestDue_latest_witness:
  "latestDue hourly (10 * hour) (12 * hour + minute) = (12 * hour, 13 * hour)"
proof -
  let ?M = "missed {k * hour |k. 0 < k} (10 * hour) (12 * hour + minute)"
  have M: "Max ?M = 12 * hour" unfolding missed_hourly by simp
  have n: "hourly (12 * hour) = 13 * hour" by (simp add: hourly_def)
  have c: "finite ?M" "?M \<noteq> {}" "card ?M \<le> maxMissedSchedules"
    unfolding missed_hourly by (simp_all add: maxMissedSchedules_def card_insert_if)
  have h: "12 * hour + minute \<le> 10 * hour + schedule_horizon" by (simp add: schedule_horizon_def)
  show ?thesis using latestDue_latest [OF hourly_schedule h c] unfolding M n .
qed


section \<open>The decision\<close>

definition backup_held :: "backupInput \<Rightarrow> bool" where
  "backup_held inp \<longleftrightarrow> bin_now inp < backup_retry_at (bin_status inp)"

definition incremental_base :: "BackupStatus \<Rightarrow> gotime \<Rightarrow> gotime" where
  "incremental_base st lastFull =
     (case bst_LastIncrementalScheduleTime st of None \<Rightarrow> lastFull | Some t \<Rightarrow> max t lastFull)"

definition full_due :: "gotime set \<Rightarrow> backupInput \<Rightarrow> bool" where
  "full_due A inp =
     (case bst_LastFullScheduleTime (bin_status inp) of
        None \<Rightarrow> True | Some lastFull \<Rightarrow> missed A lastFull (bin_now inp) \<noteq> {})"

definition incremental_due :: "gotime set \<Rightarrow> backupInput \<Rightarrow> bool" where
  "incremental_due B inp =
     (case bst_LastFullScheduleTime (bin_status inp) of
        None \<Rightarrow> False
      | Some lastFull \<Rightarrow> bin_incremental inp \<noteq> None \<and> bst_LastBackupID (bin_status inp) \<noteq> [] \<and>
          missed B (incremental_base (bin_status inp) lastFull) (bin_now inp) \<noteq> {})"

lemma backup_due_base:
  "(case bst_LastIncrementalScheduleTime st of Some t \<Rightarrow> if After t l then t else l | None \<Rightarrow> l) =
   incremental_base st l"
  by (auto simp: incremental_base_def split: option.splits)

lemma incremental_base_ge: "l \<le> incremental_base st l"
  by (auto simp: incremental_base_def split: option.splits)

text \<open>The inputs the decision is made from: schedules that keep their contract, and a last full
  backup at most five years ago.\<close>

definition backup_input_ok :: "gotime set \<Rightarrow> gotime set \<Rightarrow> backupInput \<Rightarrow> bool" where
  "backup_input_ok A B inp \<longleftrightarrow>
     schedule_of A (bin_full inp) \<and>
     (case bin_incremental inp of None \<Rightarrow> True | Some inc \<Rightarrow> schedule_of B inc) \<and>
     (case bst_LastFullScheduleTime (bin_status inp) of
        None \<Rightarrow> True | Some lastFull \<Rightarrow> bin_now inp \<le> lastFull + schedule_horizon)"

lemma backup_due_kind:
  assumes "backup_input_ok A B inp"
  shows "bd_kind (backup_due inp) =
    (if full_due A inp then backupFull else if incremental_due B inp then backupIncremental else backupNone)"
proof (cases "bst_LastFullScheduleTime (bin_status inp)")
  case None
  thus ?thesis by (simp add: backup_due_def full_due_def)
next
  case (Some l)
  have f: "fst (latestDue (bin_full inp) l (bin_now inp)) \<noteq> 0 \<longleftrightarrow> missed A l (bin_now inp) \<noteq> {}"
    using assms Some by (intro latestDue_due_iff) (auto simp: backup_input_ok_def)
  have i: "fst (latestDue inc (incremental_base (bin_status inp) l) (bin_now inp)) \<noteq> 0 \<longleftrightarrow>
      missed B (incremental_base (bin_status inp) l) (bin_now inp) \<noteq> {}" if "bin_incremental inp = Some inc" for inc
    using assms Some that incremental_base_ge [of l "bin_status inp"]
    by (intro latestDue_due_iff) (auto simp: backup_input_ok_def)
  show ?thesis
    using Some f i unfolding backup_due_def backup_due_base
    by (simp add: full_due_def incremental_due_def Let_def case_prod_beta split: option.split)
qed

text \<open>C21: The decision is exactly the documented one. A due backup is held while the backoff after a
  failure, or the short delay after an unclaimed attempt, has not passed. Otherwise a full backup is
  taken when there is no successful one yet or one of its schedule times has passed since, and an
  incremental one only when no full one is due, there is a backup to build on, and one of its own
  schedule times has passed since the later of the last full and the last incremental backup.\<close>

theorem decideBackup_kind:
  assumes "backup_input_ok A B inp"
  shows "bd_kind (decideBackup inp) =
    (if backup_held inp then backupNone
     else if full_due A inp then backupFull
     else if incremental_due B inp then backupIncremental
     else backupNone)"
  using backup_due_kind [OF assms] by (auto simp: decideBackup_def Let_def backup_held_def)

definition example_backup_status :: BackupStatus where
  "example_backup_status = (BackupStatus_zero\<lparr>bst_LastFullScheduleTime := Some (10 * hour),
     bst_LastIncrementalScheduleTime := Some (10 * hour + minute), bst_LastBackupID := ''b1''\<rparr>)"

definition example_backup_input :: backupInput where
  "example_backup_input = \<lparr>bin_full = hourly, bin_incremental = None, bin_status = example_backup_status,
     bin_now = 12 * hour + minute\<rparr>"

lemma example_backup_fields [simp]:
  "bst_LastFullScheduleTime example_backup_status = Some (10 * hour)"
  "bst_ConsecutiveFailures example_backup_status = 0" "bst_LastUnclaimedTime example_backup_status = None"
  "bin_full example_backup_input = hourly" "bin_incremental example_backup_input = None"
  "bin_status example_backup_input = example_backup_status" "bin_now example_backup_input = 12 * hour + minute"
  by (simp_all add: example_backup_status_def BackupStatus_zero_def example_backup_input_def)

lemma example_backup_input_ok: "backup_input_ok {k * hour |k. 0 < k} B example_backup_input"
  using hourly_schedule by (simp add: backup_input_ok_def schedule_horizon_def)

lemma example_full_due: "full_due {k * hour |k. 0 < k} example_backup_input"
  unfolding full_due_def example_backup_fields option.case missed_hourly by simp

lemma example_not_held: "\<not> backup_held example_backup_input"
  by (simp add: backup_held_def backup_retry_at_def)

lemma example_decides: "bd_kind (decideBackup example_backup_input) = backupFull"
  using backup_due_kind [OF example_backup_input_ok [of "{}"]] example_full_due example_not_held
  by (simp add: decideBackup_def Let_def backup_held_def)

theorem decideBackup_kind_witness:
  "backup_input_ok {k * hour |k. 0 < k} {} example_backup_input \<and> bd_kind (decideBackup example_backup_input) = backupFull"
  using decideBackup_kind [OF example_backup_input_ok] example_full_due example_backup_input_ok example_not_held
  by simp

text \<open>A decision to start never lies in the future: its schedule time has passed, and lies after the
  time it is measured from.\<close>

lemma latestDue_bounds:
  assumes "schedule_of A s" "latestDue s base now = (due, nxt)" "due \<noteq> 0"
  shows "base < due" "due \<le> now" "0 < due"
  using latestDue_sound [OF assms(1), of base now] schedule_posD [OF assms(1)] assms(2,3) by auto

lemma backup_due_scheduled:
  assumes "backup_input_ok A B inp" "bd_kind (backup_due inp) \<noteq> backupNone"
  shows "bd_scheduled (backup_due inp) \<le> bin_now inp"
proof (cases "bst_LastFullScheduleTime (bin_status inp)")
  case None
  thus ?thesis by (simp add: backup_due_def)
next
  case (Some l)
  note sf = assms(1) [unfolded backup_input_ok_def, THEN conjunct1]
  note si = assms(1) [unfolded backup_input_ok_def, THEN conjunct2, THEN conjunct1]
  show ?thesis
    using assms(2) Some si unfolding backup_due_def backup_due_base
    by (auto simp: Let_def case_prod_beta split: if_splits option.splits
          intro: latestDue_bounds(2) [OF sf prod.collapse [symmetric]] latestDue_bounds(2) [OF _ prod.collapse [symmetric]])
qed




section \<open>The backoff\<close>

lemma backupRetryDelay_loop_closed:
  "0 < d \<Longrightarrow> min (backupRetryDelay_loop k d) backupRetryMax = min (d * 2 ^ k) backupRetryMax"
proof (induction k arbitrary: d)
  case (Suc k)
  show ?case
  proof (cases "d < backupRetryMax")
    case True
    with Suc.IH [of "d * 2"] Suc.prems show ?thesis by (simp add: mult.assoc)
  next
    case False
    have "d * 1 \<le> d * 2 ^ Suc k" using Suc.prems by (intro mult_left_mono one_le_power) auto
    with False show ?thesis by simp
  qed
qed simp


end
