(* ===== verification/Cluster_Members.thy ===== *)
theory Cluster_Members
  imports Naming
begin

text \<open>
  Reading the committed roster and joining it to the pods, from
  \<open>src/internal/controller/membership.go\<close>. The client's calls are function parameters: \<open>query\<close> is
  \<open>Membership\<close> and \<open>leave\<close> is \<open>Leave\<close>, each on the base URL of the node asked. \<open>decommission\<close>
  also returns the URL it sent the leave to, because that call changes the cluster.
\<close>


section \<open>Pods\<close>

definition podBaseURL :: "KahunaCluster \<Rightarrow> Pod \<Rightarrow> string" where
  "podBaseURL cluster pod = ''http://'' @ pod_PodIP pod @ '':'' @ itoa (prt_HTTP (ports cluster))"

definition ordinalOf :: "string \<Rightarrow> int32" where
  "ordinalOf pod =
     (let idx = LastIndex pod (CHR ''-'')
      in if idx < 0 then - 1
         else case atoi (drop (nat (idx + 1)) pod) of
             None \<Rightarrow> - 1
           | Some n \<Rightarrow> if n < 0 then - 1 else wrap32 n)"

definition podIsReady :: "Pod \<Rightarrow> bool" where
  "podIsReady pod =
     (case find (\<lambda>c. pc_Type c = ''Ready'') (pod_Conditions pod) of
        Some c \<Rightarrow> pc_Status c = ConditionTrue
      | None \<Rightarrow> False)"


section \<open>Reading the roster\<close>

definition membership_candidates :: "Pod list \<Rightarrow> Pod list" where
  "membership_candidates pods =
     filter (\<lambda>p. pod_PodIP p \<noteq> [] \<and> pod_DeletionTimestamp p = None) pods"

definition candidate_cmp :: "Pod \<Rightarrow> Pod \<Rightarrow> int" where
  "candidate_cmp a b =
     (let ra = podIsReady a; rb = podIsReady b
      in if ra \<noteq> rb then (if ra then - 1 else 1)
         else wrap32 (ordinalOf (pod_Name a) - ordinalOf (pod_Name b)))"

fun readMembership_loop :: "(string \<Rightarrow> goerr + Membership) \<Rightarrow> KahunaCluster \<Rightarrow> Pod list \<Rightarrow> goerr option \<Rightarrow> goerr + Membership" where
  "readMembership_loop query cluster [] lastErr =
     Inl (case lastErr of None \<Rightarrow> Errorf ''no pod was reachable'' | Some e \<Rightarrow> e)"
| "readMembership_loop query cluster (p # ps) lastErr =
     (case query (podBaseURL cluster p) of
        Inl err \<Rightarrow> readMembership_loop query cluster ps (Some err)
      | Inr m \<Rightarrow> Inr m)"

definition readMembership :: "(string \<Rightarrow> goerr + Membership) \<Rightarrow> KahunaCluster \<Rightarrow> Pod list \<Rightarrow> goerr + Membership" where
  "readMembership query cluster pods =
     readMembership_loop query cluster (SortStableFunc candidate_cmp (membership_candidates pods)) None"


section \<open>Joining the roster to the pods\<close>

definition pods_by_name :: "Pod list \<Rightarrow> string \<rightharpoonup> Pod" where
  "pods_by_name pods = map_of (rev (map (\<lambda>p. (pod_Name p, p)) pods))"

definition endpoint_to_pod :: "KahunaCluster \<Rightarrow> nat \<Rightarrow> string \<rightharpoonup> string" where
  "endpoint_to_pod cluster npods =
     map_of (rev (map (\<lambda>i. (raftEndpoint cluster i, podName cluster i))
       (range_int (wrap32 (wrap32 (int npods) + desiredReplicas cluster)))))"

definition member_status :: "(string \<rightharpoonup> Pod) \<Rightarrow> (string \<rightharpoonup> string) \<Rightarrow> Member \<Rightarrow> MemberStatus" where
  "member_status byName endpointToPod mem =
     (let st = \<lparr>ms_PodName = [], ms_Endpoint = mem_Endpoint mem, ms_NodeID = mem_NodeID mem,
            ms_Role = mem_Role mem, ms_JoinedVersion = mem_JoinedVersion mem, ms_Ready = False\<rparr>
      in case endpointToPod (mem_Endpoint mem) of
          None \<Rightarrow> st
        | Some name \<Rightarrow>
            st\<lparr>ms_PodName := name,
               ms_Ready := (case byName name of Some pod \<Rightarrow> podIsReady pod | None \<Rightarrow> False)\<rparr>)"

text \<open>
  The result is sorted by endpoint. \<open>slices.SortFunc\<close> promises no order among equal endpoints;
  here they keep the roster's.
\<close>

definition buildMemberStatus :: "KahunaCluster \<Rightarrow> Membership \<Rightarrow> Pod list \<Rightarrow> MemberStatus list" where
  "buildMemberStatus cluster m pods =
     sort_key ms_Endpoint
       (map (member_status (pods_by_name pods) (endpoint_to_pod cluster (length pods))) (mbr_Members m))"

fun countRoles_loop :: "MemberStatus list \<Rightarrow> int32 \<times> int32 \<Rightarrow> int32 \<times> int32" where
  "countRoles_loop [] acc = acc"
| "countRoles_loop (m # ms) (voters, learners) =
     countRoles_loop ms
       (if ms_Role m = RoleVoter then (wrap32 (voters + 1), learners)
        else if ms_Role m = RoleLearner then (voters, wrap32 (learners + 1))
        else (voters, learners))"

definition countRoles :: "MemberStatus list \<Rightarrow> int32 \<times> int32" where
  "countRoles members = countRoles_loop members (0, 0)"


section \<open>Decommissioning\<close>

record decommissioned =
  dec_asked :: "string option"
  dec_ok :: bool
  dec_reason :: string

definition decommission :: "(string \<Rightarrow> goerr + LeaveResult) \<Rightarrow> KahunaCluster \<Rightarrow> Pod list \<Rightarrow> int32 \<Rightarrow> decommissioned" where
  "decommission leave cluster pods ordinal =
     (let name = podName cluster ordinal
      in case find (\<lambda>p. pod_Name p = name \<and> pod_PodIP p \<noteq> []) pods of
          None \<Rightarrow> \<lparr>dec_asked = None, dec_ok = True, dec_reason = []\<rparr>
        | Some pod \<Rightarrow>
            let url = podBaseURL cluster pod in
            (case leave url of
               Inl err \<Rightarrow> \<lparr>dec_asked = Some url, dec_ok = False,
                 dec_reason = ''could not ask '' @ name @ '' to leave the cluster: '' @ err_text err\<rparr>
             | Inr result \<Rightarrow>
                 if Removed result then \<lparr>dec_asked = Some url, dec_ok = True, dec_reason = []\<rparr>
                 else if \<not> lr_Retryable result then
                   \<lparr>dec_asked = Some url, dec_ok = False,
                     dec_reason = name @ '' refused to leave: '' @ lr_Reason result\<rparr>
                 else
                   \<lparr>dec_asked = Some url, dec_ok = False,
                     dec_reason = ''waiting for '' @ name @ '' to leave the cluster: '' @ lr_Reason result\<rparr>))"


section \<open>Properties of the components\<close>

lemma ordinalOf_name:
  assumes "0 \<le> i" "in32 i"
  shows "ordinalOf (s @ ''-'' @ itoa i) = i"
proof -
  have "CHR ''-'' \<notin> set (itoa i)"
    using itoa_nonneg_chars [OF assms(1)] not_is_digit(1) by blast
  then have "LastIndex (s @ ''-'' @ itoa i) (CHR ''-'') = int (length s)"
    using LastIndex_append [of "CHR ''-''" "itoa i" s] by simp
  moreover have "in64 i" using assms(2) by (simp add: in32_def in64_def)
  ultimately show ?thesis using assms
    by (simp add: ordinalOf_def atoi_itoa nat_add_distrib)
qed

lemma ordinalOf_podName: "0 \<le> i \<Longrightarrow> in32 i \<Longrightarrow> ordinalOf (podName c i) = i"
  unfolding podName_def by (rule ordinalOf_name)

lemma in32_ordinalOf: "in32 (ordinalOf p)"
  by (simp add: ordinalOf_def Let_def split: option.splits)

lemma candidate_cmp_ready:
  "podIsReady a \<Longrightarrow> \<not> podIsReady b \<Longrightarrow> candidate_cmp a b < 0"
  "\<not> podIsReady a \<Longrightarrow> podIsReady b \<Longrightarrow> 0 < candidate_cmp a b"
  by (simp_all add: candidate_cmp_def)

lemma candidates_ready_first:
  "sorted_wrt (\<lambda>a b. podIsReady b \<longrightarrow> podIsReady a) (SortStableFunc candidate_cmp ps)"
  using candidate_cmp_ready by (rule SortStableFunc_class)

lemma readMembership_loop_Inr:
  "readMembership_loop query c ps lastErr = Inr m \<longleftrightarrow>
     (\<exists>xs p ys. ps = xs @ p # ys \<and> query (podBaseURL c p) = Inr m \<and>
        (\<forall>x \<in> set xs. \<exists>e. query (podBaseURL c x) = Inl e))"
proof (induction ps arbitrary: lastErr)
  case Nil
  show ?case by simp
next
  case (Cons q ps)
  show ?case
  proof (cases "query (podBaseURL c q)")
    case (Inl e)
    have "(\<exists>xs p ys. q # ps = xs @ p # ys \<and> query (podBaseURL c p) = Inr m \<and>
            (\<forall>x \<in> set xs. \<exists>e. query (podBaseURL c x) = Inl e)) \<longleftrightarrow>
          (\<exists>xs p ys. ps = xs @ p # ys \<and> query (podBaseURL c p) = Inr m \<and>
            (\<forall>x \<in> set xs. \<exists>e. query (podBaseURL c x) = Inl e))" (is "?L \<longleftrightarrow> ?R")
    proof
      assume ?L
      then obtain xs p ys where *: "q # ps = xs @ p # ys" "query (podBaseURL c p) = Inr m"
        "\<forall>x \<in> set xs. \<exists>e. query (podBaseURL c x) = Inl e" by blast
      with Inl obtain xs' where "xs = q # xs'" by (cases xs) auto
      with * show ?R by auto
    next
      assume ?R
      then obtain xs p ys where "ps = xs @ p # ys" "query (podBaseURL c p) = Inr m"
        "\<forall>x \<in> set xs. \<exists>e. query (podBaseURL c x) = Inl e" by blast
      with Inl show ?L by (intro exI [of _ "q # xs"] exI [of _ p] exI [of _ ys]) simp
    qed
    with Inl Cons.IH show ?thesis by simp
  next
    case (Inr m')
    have "m' = m" if "q # ps = xs @ p # ys" "query (podBaseURL c p) = Inr m"
      "\<forall>x \<in> set xs. \<exists>e. query (podBaseURL c x) = Inl e" for xs p ys
      using that Inr by (cases xs) auto
    moreover have "\<exists>xs p ys. q # ps = xs @ p # ys \<and> query (podBaseURL c p) = Inr m' \<and>
        (\<forall>x \<in> set xs. \<exists>e. query (podBaseURL c x) = Inl e)"
      using Inr by (intro exI [of _ "[]"] exI [of _ q] exI [of _ ps]) simp
    ultimately show ?thesis using Inr by auto
  qed
qed

lemma readMembership_loop_Inl:
  "readMembership_loop query c ps lastErr = Inl err \<Longrightarrow> p \<in> set ps \<Longrightarrow> \<exists>e. query (podBaseURL c p) = Inl e"
  by (induction ps arbitrary: lastErr) (auto split: sum.splits)

lemma sorted_wrt_split:
  "sorted_wrt R (xs @ p # ys) \<Longrightarrow> q \<in> set (xs @ p # ys) \<Longrightarrow> q \<in> set xs \<or> q = p \<or> R p q"
  by (auto simp: sorted_wrt_append)

lemma countRoles_loop_eq:
  assumes "0 \<le> v" "0 \<le> l" "in32 (v + int (length ms))" "in32 (l + int (length ms))"
  shows "countRoles_loop ms (v, l) =
    (v + int (length (filter (\<lambda>m. ms_Role m = RoleVoter) ms)),
     l + int (length (filter (\<lambda>m. ms_Role m = RoleLearner) ms)))"
  using assms
proof (induction ms arbitrary: v l)
  case (Cons m ms)
  have "in32 (v + 1)" "in32 (l + 1)" using Cons.prems by (auto simp: in32_def)
  moreover have "RoleVoter \<noteq> RoleLearner" by (simp add: roles)
  ultimately show ?case
    using Cons.IH [of "v + 1" l] Cons.IH [of v "l + 1"] Cons.IH [of v l] Cons.prems
    by (auto simp: in32_def algebra_simps)
qed simp

lemma endpoint_to_pod_eq:
  assumes "in32 (int n + desiredReplicas c)" "0 \<le> desiredReplicas c"
  shows "endpoint_to_pod c n e =
    (if \<exists>i. 0 \<le> i \<and> i < int n + desiredReplicas c \<and> e = raftEndpoint c i
     then Some (podName c (THE i. e = raftEndpoint c i)) else None)"
proof -
  let ?xs = "map (\<lambda>i. (raftEndpoint c i, podName c i)) (range_int (int n + desiredReplicas c))"
  have "in32 (int n)" using assms by (auto simp: in32_def)
  then have eq: "endpoint_to_pod c n = map_of (rev ?xs)"
    using assms(1) by (simp add: endpoint_to_pod_def)
  have d: "distinct (map fst ?xs)"
    by (simp add: comp_def rn.distinct_endpoints)
  then have "map_of (rev ?xs) = map_of ?xs"
    by (intro map_of_inject_set [THEN iffD2]) (simp_all flip: rev_map)
  moreover have "map_of ?xs e = Some (podName c i)"
    if "0 \<le> i" "i < int n + desiredReplicas c" "e = raftEndpoint c i" for i
    using that d by (intro map_of_is_SomeI) auto
  moreover have "map_of ?xs e = None"
    if "\<not> (\<exists>i. 0 \<le> i \<and> i < int n + desiredReplicas c \<and> e = raftEndpoint c i)"
    using that by (auto simp: map_of_eq_None_iff)
  ultimately show ?thesis by (auto simp: eq)
qed

lemma pods_by_name_ready:
  assumes "distinct (map pod_Name pods)"
  shows "(case pods_by_name pods n of Some pod \<Rightarrow> podIsReady pod | None \<Rightarrow> False) \<longleftrightarrow>
    (\<exists>p \<in> set pods. pod_Name p = n \<and> podIsReady p)"
proof -
  let ?xs = "map (\<lambda>p. (pod_Name p, p)) pods"
  have d: "distinct (map fst (rev ?xs))" using assms by (simp add: comp_def flip: rev_map)
  show ?thesis
  proof (cases "pods_by_name pods n")
    case None
    then have "n \<notin> fst ` set ?xs" by (simp add: pods_by_name_def map_of_eq_None_iff)
    then show ?thesis by (auto simp: None image_iff)
  next
    case (Some pod)
    then have "(n, pod) \<in> set ?xs" unfolding pods_by_name_def by (metis map_of_SomeD set_rev)
    then have "pod \<in> set pods" "pod_Name pod = n" by auto
    moreover have "p = pod" if "p \<in> set pods" "pod_Name p = n" for p
      using inj_onD [OF assms [unfolded distinct_map, THEN conjunct2], of p pod] that
        \<open>pod \<in> set pods\<close> \<open>pod_Name pod = n\<close> by simp
    ultimately show ?thesis unfolding Some option.case by blast
  qed
qed

lemma member_status_fields [simp]:
  "ms_Endpoint (member_status b e m) = mem_Endpoint m" "ms_NodeID (member_status b e m) = mem_NodeID m"
  "ms_Role (member_status b e m) = mem_Role m" "ms_JoinedVersion (member_status b e m) = mem_JoinedVersion m"
  by (simp_all add: member_status_def Let_def split: option.splits)

text \<open>An entry of the member status as it should be joined to the pods.\<close>

definition joined :: "KahunaCluster \<Rightarrow> Pod list \<Rightarrow> MemberStatus \<Rightarrow> bool" where
  "joined c pods s \<longleftrightarrow>
     (if \<exists>i. 0 \<le> i \<and> i < int (length pods) + desiredReplicas c \<and> ms_Endpoint s = raftEndpoint c i
      then \<exists>i. ms_Endpoint s = raftEndpoint c i \<and> ms_PodName s = podName c i \<and>
             (ms_Ready s \<longleftrightarrow> (\<exists>p \<in> set pods. pod_Name p = podName c i \<and> podIsReady p))
      else ms_PodName s = [] \<and> \<not> ms_Ready s)"

lemma member_status_joined:
  assumes "distinct (map pod_Name pods)" "0 \<le> desiredReplicas c"
    and "in32 (int (length pods) + desiredReplicas c)"
  shows "joined c pods (member_status (pods_by_name pods) (endpoint_to_pod c (length pods)) x)"
    (is "joined c pods ?s")
proof (cases "\<exists>i. 0 \<le> i \<and> i < int (length pods) + desiredReplicas c \<and> mem_Endpoint x = raftEndpoint c i")
  case True
  then obtain i where i: "mem_Endpoint x = raftEndpoint c i" by blast
  have e: "endpoint_to_pod c (length pods) (mem_Endpoint x) = Some (podName c i)"
    unfolding endpoint_to_pod_eq [OF assms(3,2)] using True by (simp add: i)
  have "ms_PodName ?s = podName c i" "ms_Ready ?s \<longleftrightarrow> (\<exists>p \<in> set pods. pod_Name p = podName c i \<and> podIsReady p)"
    by (simp_all add: member_status_def Let_def e pods_by_name_ready [OF assms(1)])
  then show ?thesis unfolding joined_def using True i by auto
next
  case False
  have "endpoint_to_pod c (length pods) (mem_Endpoint x) = None"
    unfolding endpoint_to_pod_eq [OF assms(3,2)] using False by simp
  then have "ms_PodName ?s = [] \<and> \<not> ms_Ready ?s" by (simp add: member_status_def Let_def)
  then show ?thesis using False unfolding joined_def member_status_fields by (simp only: if_False simp_thms)
qed

lemma mset_buildMemberStatus:
  "mset (buildMemberStatus c m pods) =
     mset (map (member_status (pods_by_name pods) (endpoint_to_pod c (length pods))) (mbr_Members m))"
  by (simp add: buildMemberStatus_def)


section \<open>Properties\<close>

text \<open>The ordinal of a pod is recovered from its name, for every ordinal a StatefulSet can have.\<close>

lemma ordinalOf_podName_roundtrip:
  assumes "0 \<le> i" "in32 i"
  shows "ordinalOf (podName c i) = i"
  using assms by (rule ordinalOf_podName)

lemma ordinalOf_podName_roundtrip_witness:
  "ordinalOf (podName example_cluster 2147483647) = 2147483647"
  by (rule ordinalOf_podName_roundtrip) simp_all

text \<open>
  Reading the roster fails only when every pod that has an address and is not being deleted
  failed to answer; when it succeeds the answer is that of such a pod, and a pod that is not ready
  is believed only after every ready one failed to answer.
\<close>

lemma readMembership_ready_first:
  "case readMembership query c pods of
     Inl _ \<Rightarrow> \<forall>p \<in> set (membership_candidates pods). \<exists>e. query (podBaseURL c p) = Inl e
   | Inr m \<Rightarrow> \<exists>p \<in> set (membership_candidates pods). query (podBaseURL c p) = Inr m \<and>
       (podIsReady p \<or> (\<forall>q \<in> set (membership_candidates pods).
          podIsReady q \<longrightarrow> (\<exists>e. query (podBaseURL c q) = Inl e)))"
proof (cases "readMembership query c pods")
  case (Inl e)
  then show ?thesis
    unfolding readMembership_def by (auto dest: readMembership_loop_Inl)
next
  case (Inr m)
  let ?ps = "SortStableFunc candidate_cmp (membership_candidates pods)"
  from Inr obtain xs p ys where *: "?ps = xs @ p # ys" "query (podBaseURL c p) = Inr m"
    "\<forall>x \<in> set xs. \<exists>e. query (podBaseURL c x) = Inl e"
    unfolding readMembership_def readMembership_loop_Inr by blast
  have mem: "set (membership_candidates pods) = set (xs @ p # ys)"
    using arg_cong [OF *(1), of set] by simp
  have "sorted_wrt (\<lambda>a b. podIsReady b \<longrightarrow> podIsReady a) (xs @ p # ys)"
    using candidates_ready_first by (metis *(1))
  then have "\<exists>e. query (podBaseURL c q) = Inl e"
    if "\<not> podIsReady p" "q \<in> set (membership_candidates pods)" "podIsReady q" for q
    using sorted_wrt_split [of _ xs p ys q] that *(3) mem by blast
  then show ?thesis using Inr *(2) mem by auto
qed

text \<open>
  A node counts as gone only when none of its pods has an address to ask, or when its first
  such pod answered the leave with a committed removal or with not being a member; a leave is sent
  exactly when there is a pod to ask, to that pod; and a node that is not gone is explained.
\<close>

lemma decommission_confirmed:
  "let d = decommission leave c pods i;
       pod = find (\<lambda>p. pod_Name p = podName c i \<and> pod_PodIP p \<noteq> []) pods
   in (dec_ok d \<longleftrightarrow> (case pod of None \<Rightarrow> True | Some p \<Rightarrow>
         (\<exists>r. leave (podBaseURL c p) = Inr r \<and> lr_Outcome r \<in> {OutcomeCommitted, OutcomeNotAMember}))) \<and>
      dec_asked d = map_option (podBaseURL c) pod \<and>
      (dec_ok d \<longleftrightarrow> dec_reason d = [])"
  by (simp add: decommission_def Let_def Removed_def podName_def split: option.splits sum.splits)

text \<open>
  The members reported in status are the roster's, in the order of their endpoints; a member
  with the endpoint of ordinal i, among as many ordinals as there are pods and desired nodes
  together, is reported under pod i and is ready exactly when that pod exists and is ready; any
  other member is reported with no pod and not ready.
\<close>

lemma buildMemberStatus_join:
  assumes "distinct (map pod_Name pods)" "0 \<le> desiredReplicas c"
    and "in32 (int (length pods) + desiredReplicas c)"
  shows "sorted (map ms_Endpoint (buildMemberStatus c m pods)) \<and>
    mset (map (\<lambda>s. (ms_Endpoint s, ms_NodeID s, ms_Role s, ms_JoinedVersion s)) (buildMemberStatus c m pods)) =
      mset (map (\<lambda>x. (mem_Endpoint x, mem_NodeID x, mem_Role x, mem_JoinedVersion x)) (mbr_Members m)) \<and>
    (\<forall>s \<in> set (buildMemberStatus c m pods). joined c pods s)"
proof (intro conjI ballI)
  show "sorted (map ms_Endpoint (buildMemberStatus c m pods))"
    by (simp add: buildMemberStatus_def)
  show "mset (map (\<lambda>s. (ms_Endpoint s, ms_NodeID s, ms_Role s, ms_JoinedVersion s)) (buildMemberStatus c m pods)) =
      mset (map (\<lambda>x. (mem_Endpoint x, mem_NodeID x, mem_Role x, mem_JoinedVersion x)) (mbr_Members m))"
    by (simp add: buildMemberStatus_def multiset.map_comp comp_def)
  fix s assume "s \<in> set (buildMemberStatus c m pods)"
  then obtain x where "s = member_status (pods_by_name pods) (endpoint_to_pod c (length pods)) x"
    by (auto simp: buildMemberStatus_def)
  then show "joined c pods s" using member_status_joined [OF assms] by simp
qed

lemma buildMemberStatus_join_witness:
  "sorted (map ms_Endpoint (buildMemberStatus example_cluster Membership_zero [example_pod ''db-0'' ''10.0.0.1'']))"
  using buildMemberStatus_join [of "[example_pod ''db-0'' ''10.0.0.1'']" example_cluster Membership_zero]
  by (simp add: example_cluster_def desiredReplicas_def specReplicas_def)

end
