(* ===== verification/Replica_Placement.thy ===== *)
theory Replica_Placement
  imports Cluster_Members
begin

text \<open>
  What the committed replica placement says about the last membership change, from
  \<open>src/internal/controller/autoscaler.go\<close>: whether replica moves have settled, whether every node
  carries a share, and how far the cluster may grow while some partition is fully replicated. Both
  the plan and the autoscaler use it.

  A run-time panic of the source is a value: \<open>placementConverged\<close> divides by the node count and
  \<open>growthCeiling\<close> calls a method on a placement that may be nil.
\<close>

datatype panic = NilDeref | DivByZero

definition maxReplicationFactor :: int32 where "maxReplicationFactor = 3"
definition placementSettleTimeout :: duration where "placementSettleTimeout = 5 * minute"
definition replicaRoleVoter :: string where "replicaRoleVoter = ''Voter''"


section \<open>Settling\<close>

text \<open>
  The counts of \<open>placementSettled\<close>: replicas hosted per member, their total, and the partitions
  of replicas in flight or stranded. They count elements of a list in memory, so they are below
  the range of \<open>int\<close>.
\<close>

record settle_acc =
  sa_hosted :: "string \<Rightarrow> int"
  sa_total :: int
  sa_inFlight :: "int32 list"
  sa_stranded :: "int32 list"

definition settle_replica :: "(string \<Rightarrow> bool) \<Rightarrow> int32 \<Rightarrow> ReplicaPlacement \<Rightarrow> settle_acc \<Rightarrow> settle_acc" where
  "settle_replica members pid rep acc =
     (if rp_Role rep \<noteq> replicaRoleVoter then acc\<lparr>sa_inFlight := sa_inFlight acc @ [pid]\<rparr>
      else if \<not> members (rp_Endpoint rep) then acc\<lparr>sa_stranded := sa_stranded acc @ [pid]\<rparr>
      else acc\<lparr>sa_hosted := (sa_hosted acc)(rp_Endpoint rep := sa_hosted acc (rp_Endpoint rep) + 1),
               sa_total := sa_total acc + 1\<rparr>)"

definition settle_partition :: "(string \<Rightarrow> bool) \<Rightarrow> PartitionPlacement \<Rightarrow> settle_acc \<Rightarrow> settle_acc" where
  "settle_partition members part acc =
     (if pp_State part \<noteq> PartitionStateActive \<or> pp_Replicas part = [] then acc
      else fold (settle_replica members (pp_PartitionID part)) (pp_Replicas part) acc)"

definition is_member_endpoint :: "KahunaCluster \<Rightarrow> int32 \<Rightarrow> string \<Rightarrow> bool" where
  "is_member_endpoint cluster current e \<longleftrightarrow> e \<in> set (map (raftEndpoint cluster) (range_int current))"

definition settle_scan :: "KahunaCluster \<Rightarrow> Placement \<Rightarrow> int32 \<Rightarrow> settle_acc" where
  "settle_scan cluster p current =
     fold (settle_partition (is_member_endpoint cluster current)) (plc_Partitions p)
       \<lparr>sa_hosted = (\<lambda>_. 0), sa_total = 0, sa_inFlight = [], sa_stranded = []\<rparr>"

definition placementSettled :: "KahunaCluster \<Rightarrow> Placement option \<Rightarrow> int32 \<Rightarrow> (string \<Rightarrow> int) \<times> int \<times> string" where
  "placementSettled cluster p current =
     (case p of
        None \<Rightarrow> (\<lambda>_. 0, 0, [])
      | Some p \<Rightarrow>
          let acc = settle_scan cluster p current in
          (sa_hosted acc, sa_total acc,
           if sa_inFlight acc \<noteq> [] then ''replica moves in flight on partitions '' @ fmt_ints (sa_inFlight acc)
           else if sa_stranded acc \<noteq> [] then
             ''partitions '' @ fmt_ints (sa_stranded acc) @ '' still have replicas on nodes that left''
           else []))"

abbreviation settled_reason :: "KahunaCluster \<Rightarrow> Placement option \<Rightarrow> int32 \<Rightarrow> string" where
  "settled_reason cluster p current \<equiv> snd (snd (placementSettled cluster p current))"


section \<open>Shares\<close>

fun first_short :: "(int32 \<Rightarrow> int) \<Rightarrow> int \<Rightarrow> int32 list \<Rightarrow> int32 option" where
  "first_short held minShare [] = None"
| "first_short held minShare (i # is) =
     (if held i < minShare then Some i else first_short held minShare is)"

definition placementConverged :: "KahunaCluster \<Rightarrow> Placement option \<Rightarrow> int32 \<Rightarrow> gotime \<Rightarrow> gotime option \<Rightarrow> panic + (bool \<times> string)" where
  "placementConverged cluster p current now settleBy =
     (let (hosted, total, reason) = placementSettled cluster p current
      in if reason \<noteq> [] then Inr (False, reason)
         else if current = 0 then Inl DivByZero
         else
           let share = tdiv total current in
           if share = 0 \<or> (case settleBy of Some s \<Rightarrow> \<not> Before now s | None \<Rightarrow> False) then Inr (True, [])
           else
             let minShare = max 1 (tdiv share 2) in
             (case first_short (\<lambda>i. hosted (raftEndpoint cluster i)) minShare (range_int current) of
                None \<Rightarrow> Inr (True, [])
              | Some i \<Rightarrow> Inr (False, podName cluster i @ '' holds '' @ itoa (hosted (raftEndpoint cluster i)) @
                  '' of the '' @ itoa share @ '' data replicas it should carry'')))"


section \<open>Growth\<close>

definition growthCeiling :: "Placement option \<Rightarrow> panic + (int32 \<times> string)" where
  "growthCeiling p =
     (case p of
        None \<Rightarrow> Inl NilDeref
      | Some p \<Rightarrow>
          let full = FullyReplicated p in
          Inr (if full \<noteq> [] then
                 (maxReplicationFactor,
                  ''partitions '' @ fmt_ints full @ '' are fully replicated, so growing past '' @
                  itoa maxReplicationFactor @ '' nodes would exceed '' @ itoa maxReplicationFactor @
                  '' copies; Kahuna 1.12.3 or later converts them shortly after start; an older server '' @
                  ''needs a cluster created with more nodes than its replication factor'')
               else (0, [])))"


section \<open>What settled means\<close>

definition live_partition :: "PartitionPlacement \<Rightarrow> bool" where
  "live_partition part \<longleftrightarrow> pp_State part = PartitionStateActive"

lemma settle_replica_lists:
  "sa_inFlight (settle_replica f pid r acc) = [] \<longleftrightarrow> sa_inFlight acc = [] \<and> rp_Role r = replicaRoleVoter"
  "sa_stranded (settle_replica f pid r acc) = [] \<longleftrightarrow>
     sa_stranded acc = [] \<and> (rp_Role r = replicaRoleVoter \<longrightarrow> f (rp_Endpoint r))"
  by (auto simp: settle_replica_def)

lemma settle_replicas_lists:
  "sa_inFlight (fold (settle_replica f pid) rs acc) = [] \<longleftrightarrow>
     sa_inFlight acc = [] \<and> (\<forall>r \<in> set rs. rp_Role r = replicaRoleVoter)"
  "sa_stranded (fold (settle_replica f pid) rs acc) = [] \<longleftrightarrow>
     sa_stranded acc = [] \<and> (\<forall>r \<in> set rs. rp_Role r = replicaRoleVoter \<longrightarrow> f (rp_Endpoint r))"
  by (induction rs arbitrary: acc) (auto simp: settle_replica_lists)

lemma settle_partitions_lists:
  "sa_inFlight (fold (settle_partition f) ps acc) = [] \<longleftrightarrow>
     sa_inFlight acc = [] \<and> (\<forall>p \<in> set ps. live_partition p \<longrightarrow>
       (\<forall>r \<in> set (pp_Replicas p). rp_Role r = replicaRoleVoter))"
  "sa_stranded (fold (settle_partition f) ps acc) = [] \<longleftrightarrow>
     sa_stranded acc = [] \<and> (\<forall>p \<in> set ps. live_partition p \<longrightarrow>
       (\<forall>r \<in> set (pp_Replicas p). rp_Role r = replicaRoleVoter \<longrightarrow> f (rp_Endpoint r)))"
  by (induction ps arbitrary: acc)
     (auto simp: settle_replicas_lists settle_partition_def live_partition_def)

text \<open>
  The placement is settled exactly when every replica of every active partition is a voter on one
  of the first \<open>current\<close> nodes.
\<close>

definition all_replicas_home :: "KahunaCluster \<Rightarrow> Placement \<Rightarrow> int32 \<Rightarrow> bool" where
  "all_replicas_home c p n \<longleftrightarrow>
     (\<forall>part \<in> set (plc_Partitions p). live_partition part \<longrightarrow>
        (\<forall>r \<in> set (pp_Replicas part). rp_Role r = replicaRoleVoter \<and>
           (\<exists>i. 0 \<le> i \<and> i < n \<and> rp_Endpoint r = raftEndpoint c i)))"

lemma settled_reason_None [simp]: "placementSettled c None n = (\<lambda>_. 0, 0, [])"
  by (simp add: placementSettled_def)

lemma settled_reason_iff: "settled_reason c (Some p) n = [] \<longleftrightarrow> all_replicas_home c p n"
proof -
  have "settled_reason c (Some p) n = [] \<longleftrightarrow>
    sa_inFlight (settle_scan c p n) = [] \<and> sa_stranded (settle_scan c p n) = []"
    by (simp add: placementSettled_def Let_def)
  also have "\<dots> \<longleftrightarrow> all_replicas_home c p n"
    unfolding settle_scan_def settle_partitions_lists all_replicas_home_def
    by (fastforce simp: is_member_endpoint_def image_iff)
  finally show ?thesis .
qed

text \<open>The replicas counted when settled: every replica of every active partition.\<close>

definition live_replicas :: "Placement \<Rightarrow> ReplicaPlacement list" where
  "live_replicas p = concat (map pp_Replicas (filter live_partition (plc_Partitions p)))"

lemma settle_partitions_concat:
  assumes "\<forall>part \<in> set ps. live_partition part \<longrightarrow>
    (\<forall>r \<in> set (pp_Replicas part). rp_Role r = replicaRoleVoter \<and> f (rp_Endpoint r))"
  shows "sa_total (fold (settle_partition f) ps acc) =
      sa_total acc + int (length (concat (map pp_Replicas (filter live_partition ps))))"
    and "sa_hosted (fold (settle_partition f) ps acc) e =
      sa_hosted acc e + int (length (filter (\<lambda>r. rp_Endpoint r = e)
        (concat (map pp_Replicas (filter live_partition ps)))))"
proof -
  have rs: "sa_total (fold (settle_replica f pid) rs acc) = sa_total acc + int (length rs) \<and>
      sa_hosted (fold (settle_replica f pid) rs acc) e =
        sa_hosted acc e + int (length (filter (\<lambda>r. rp_Endpoint r = e) rs))"
    if "\<forall>r \<in> set rs. rp_Role r = replicaRoleVoter \<and> f (rp_Endpoint r)" for pid rs acc
    using that by (induction rs arbitrary: acc) (auto simp: settle_replica_def)
  from assms show "sa_total (fold (settle_partition f) ps acc) =
      sa_total acc + int (length (concat (map pp_Replicas (filter live_partition ps))))"
    by (induction ps arbitrary: acc) (auto simp: settle_partition_def live_partition_def rs)
  from assms show "sa_hosted (fold (settle_partition f) ps acc) e =
      sa_hosted acc e + int (length (filter (\<lambda>r. rp_Endpoint r = e)
        (concat (map pp_Replicas (filter live_partition ps)))))"
    by (induction ps arbitrary: acc) (auto simp: settle_partition_def live_partition_def rs)
qed

lemma placementSettled_home:
  assumes "all_replicas_home c p n"
  shows "placementSettled c (Some p) n =
    (\<lambda>e. int (length (filter (\<lambda>r. rp_Endpoint r = e) (live_replicas p))),
     int (length (live_replicas p)), [])"
proof -
  have *: "\<forall>part \<in> set (plc_Partitions p). live_partition part \<longrightarrow>
    (\<forall>r \<in> set (pp_Replicas part). rp_Role r = replicaRoleVoter \<and> is_member_endpoint c n (rp_Endpoint r))"
    using assms by (fastforce simp: all_replicas_home_def is_member_endpoint_def)
  have "settled_reason c (Some p) n = []" using assms by (simp add: settled_reason_iff)
  then show ?thesis
    unfolding live_replicas_def
    by (simp add: placementSettled_def Let_def settle_scan_def settle_partitions_concat [OF *] fun_eq_iff)
qed

lemma first_short_None: "first_short held k is = None \<longleftrightarrow> (\<forall>i \<in> set is. k \<le> held i)"
  by (induction "is") auto

lemma first_short_Some: "first_short held k is = Some i \<Longrightarrow> i \<in> set is \<and> held i < k"
  by (induction "is") (auto split: if_splits)

text \<open>The share check on a settled placement, with the replicas counted.\<close>

abbreviation held_by :: "KahunaCluster \<Rightarrow> Placement \<Rightarrow> int32 \<Rightarrow> int" where
  "held_by c q i \<equiv> int (length (filter (\<lambda>r. rp_Endpoint r = raftEndpoint c i) (live_replicas q)))"

lemma placementConverged_home:
  assumes "1 \<le> n" "all_replicas_home c q n" "share = int (length (live_replicas q)) div n"
  shows "placementConverged c (Some q) n now settleBy =
    (if share = 0 \<or> (\<exists>s. settleBy = Some s \<and> s \<le> now) then Inr (True, [])
     else case first_short (held_by c q) (max 1 (share div 2)) (range_int n) of
         None \<Rightarrow> Inr (True, [])
       | Some i \<Rightarrow> Inr (False, podName c i @ '' holds '' @ itoa (held_by c q i) @ '' of the '' @ itoa share @
           '' data replicas it should carry''))"
proof -
  have "0 \<le> share" using assms by (simp add: pos_imp_zdiv_nonneg_iff)
  then have "tdiv (int (length (live_replicas q))) n = share" "tdiv share 2 = share div 2"
    using assms by simp_all
  then show ?thesis using assms(1)
    by (simp add: placementConverged_def placementSettled_home [OF assms(2)] Let_def not_less
        split: option.splits)
qed


section \<open>Properties\<close>

text \<open>
  A placement counts as settled on n nodes exactly when every replica of every active partition
  is a voter on one of the nodes 0 to n - 1, so no move is in flight and no replica is stranded.
\<close>

lemma placementSettled_iff:
  "snd (snd (placementSettled c (Some p) n)) = [] \<longleftrightarrow>
     (\<forall>part \<in> set (plc_Partitions p). pp_State part = PartitionStateActive \<longrightarrow>
        (\<forall>r \<in> set (pp_Replicas part). rp_Role r = replicaRoleVoter \<and>
           (\<exists>i. 0 \<le> i \<and> i < n \<and> rp_Endpoint r = raftEndpoint c i)))"
  using settled_reason_iff [of c p n] unfolding all_replicas_home_def live_partition_def .

text \<open>
  With at least one node the share check never fails to answer. It lets the next step go ahead
  exactly when the placement is settled and, unless the settle deadline has passed or there are
  fewer replicas than nodes, every node holds at least half of an even share and at least one
  replica; a refusal is always explained.
\<close>

lemma placementConverged_share:
  assumes "1 \<le> n"
  shows "\<exists>ok why. placementConverged c p n now settleBy = Inr (ok, why) \<and> (ok \<longleftrightarrow> why = []) \<and>
    (ok \<longleftrightarrow> (case p of None \<Rightarrow> True | Some q \<Rightarrow> all_replicas_home c q n \<and>
       (let share = int (length (live_replicas q)) div n in
        share = 0 \<or> (\<exists>s. settleBy = Some s \<and> s \<le> now) \<or>
        (\<forall>i \<in> {0..<n}. max 1 (share div 2) \<le>
           int (length (filter (\<lambda>r. rp_Endpoint r = raftEndpoint c i) (live_replicas q)))))))"
proof (cases p)
  case None
  then have "placementConverged c p n now settleBy = Inr (True, [])"
    using assms by (simp add: placementConverged_def)
  then show ?thesis using None by (intro exI [of _ True] exI [of _ "[]"]) simp
next
  case (Some q)
  show ?thesis
  proof (cases "all_replicas_home c q n")
    case False
    then have "settled_reason c (Some q) n \<noteq> []" by (simp add: settled_reason_iff)
    then show ?thesis using Some False by (auto simp: placementConverged_def Let_def split: prod.splits)
  next
    case True
    define share where "share = int (length (live_replicas q)) div n"
    note eq = placementConverged_home [OF assms True share_def, of now settleBy]
    note fs = first_short_None [of "held_by c q" "max 1 (share div 2)" "range_int n", unfolded set_range_int]
    define good where "good \<longleftrightarrow> share = 0 \<or> (\<exists>s. settleBy = Some s \<and> s \<le> now) \<or>
      (\<forall>i \<in> {0..<n}. max 1 (share div 2) \<le> held_by c q i)"
    have G: "(case p of None \<Rightarrow> True | Some q \<Rightarrow> all_replicas_home c q n \<and>
       (let share = int (length (live_replicas q)) div n in
        share = 0 \<or> (\<exists>s. settleBy = Some s \<and> s \<le> now) \<or>
        (\<forall>i \<in> {0..<n}. max 1 (share div 2) \<le>
           int (length (filter (\<lambda>r. rp_Endpoint r = raftEndpoint c i) (live_replicas q)))))) \<longleftrightarrow> good"
      unfolding Some good_def share_def Let_def using True by simp
    have "\<exists>why. placementConverged c p n now settleBy = Inr (good, why) \<and> (good \<longleftrightarrow> why = [])"
    proof (cases "share = 0 \<or> (\<exists>s. settleBy = Some s \<and> s \<le> now)")
      case True
      then have good unfolding good_def by blast
      then show ?thesis unfolding Some eq using True by simp
    next
      case False
      show ?thesis
      proof (cases "first_short (held_by c q) (max 1 (share div 2)) (range_int n)")
        case None
        then have good using fs unfolding good_def by blast
        then show ?thesis unfolding \<open>p = Some q\<close> eq using False None by simp
      next
        case (Some i)
        then have "\<not> good" using fs False unfolding good_def by simp
        then show ?thesis unfolding \<open>p = Some q\<close> eq using False Some by simp
      qed
    qed
    then show ?thesis unfolding G by blast
  qed
qed

end
