(* ===== verification/Backup_Runner.thy ===== *)
theory Backup_Runner
  imports Kahuna_Client Backup_Schedule Replica_Placement
begin

text \<open>
  Running a backup outside the reconcile loop and recording its result, from
  \<open>src/internal/controller/backup.go\<close>: \<open>backupRunner\<close>, \<open>runBackup\<close> and \<open>applyBackupResult\<close>.

  The runner keeps jobs behind pointers: the goroutine of a job writes to its own job even when the
  map no longer refers to it, so the model has a heap of jobs and a map from clusters to heap
  addresses. The runner implements a plain map from clusters to jobs.
\<close>


section \<open>Jobs\<close>

record backupJob =
  bj_kind :: backupKind
  bj_scheduled :: gotime
  bj_parent :: string
  bj_done :: bool
  bj_info :: "BackupInfo option"
  bj_err :: "goerr option"

definition new_job :: "backupKind \<Rightarrow> gotime \<Rightarrow> string \<Rightarrow> backupJob" where
  "new_job kind scheduled parent = \<lparr>bj_kind = kind, bj_scheduled = scheduled, bj_parent = parent,
     bj_done = False, bj_info = None, bj_err = None\<rparr>"

record 'k backupRunner =
  br_jobs :: "'k \<rightharpoonup> nat"
  br_heap :: "nat \<rightharpoonup> backupJob"
  br_next :: nat

definition runner_empty :: "'k backupRunner" where
  "runner_empty = \<lparr>br_jobs = Map.empty, br_heap = Map.empty, br_next = 0\<rparr>"

definition runner_start :: "'k \<Rightarrow> backupJob \<Rightarrow> 'k backupRunner \<Rightarrow> 'k backupRunner" where
  "runner_start key job r = \<lparr>br_jobs = (br_jobs r)(key \<mapsto> br_next r),
     br_heap = (br_heap r)(br_next r \<mapsto> job), br_next = br_next r + 1\<rparr>"

text \<open>The last step of a job's goroutine, on the job at its own address.\<close>

definition finished :: "goerr + BackupInfo \<Rightarrow> backupJob \<Rightarrow> backupJob" where
  "finished result job = job\<lparr>bj_done := True,
     bj_info := (case result of Inr info \<Rightarrow> Some info | Inl _ \<Rightarrow> None),
     bj_err := (case result of Inr _ \<Rightarrow> None | Inl e \<Rightarrow> Some e)\<rparr>"

lemma finished_fields [simp]:
  "bj_done (finished x j)" "bj_kind (finished x j) = bj_kind j" "bj_scheduled (finished x j) = bj_scheduled j"
  "bj_parent (finished x j) = bj_parent j" "bj_err (finished (Inr i) j) = None"
  "bj_info (finished (Inr i) j) = Some i" "bj_err (finished (Inl e) j) = Some e"
  by (simp_all add: finished_def)

definition runner_finish :: "nat \<Rightarrow> goerr + BackupInfo \<Rightarrow> 'k backupRunner \<Rightarrow> 'k backupRunner" where
  "runner_finish a result r = r\<lparr>br_heap := (br_heap r)(a := map_option (finished result) (br_heap r a))\<rparr>"

definition runner_poll :: "'k \<Rightarrow> 'k backupRunner \<Rightarrow> 'k backupRunner \<times> backupJob option" where
  "runner_poll key r =
     (case br_jobs r key of
        None \<Rightarrow> (r, None)
      | Some a \<Rightarrow>
          (case br_heap r a of
             None \<Rightarrow> (r, None)
           | Some job \<Rightarrow>
               (if bj_done job then r\<lparr>br_jobs := (br_jobs r)(key := None)\<rparr> else r, Some job)))"

definition runner_forget :: "'k \<Rightarrow> 'k backupRunner \<Rightarrow> 'k backupRunner" where
  "runner_forget key r = r\<lparr>br_jobs := (br_jobs r)(key := None)\<rparr>"

record backupTarget =
  bt_pod :: string
  bt_url :: string

text \<open>
  The backup requests a job makes: the client's two calls, and whether the job's deadline had passed
  when the call to a node returned an error.
\<close>

record backupCalls =
  bc_full :: "string \<Rightarrow> goerr + BackupInfo"
  bc_incremental :: "string \<Rightarrow> string \<Rightarrow> goerr + BackupInfo"
  bc_expired :: "string \<Rightarrow> bool"

text \<open>Each node asked is recorded, because the request makes the node take a backup.\<close>

fun runBackup_loop :: "backupCalls \<Rightarrow> backupKind \<Rightarrow> string \<Rightarrow> backupTarget list \<Rightarrow> string list \<Rightarrow> bool \<Rightarrow> string list \<Rightarrow> string list \<times> (goerr + BackupInfo)" where
  "runBackup_loop c kind parent [] refusals clears asked =
     (asked,
      if refusals = [] then Inl (Errorf ''no ready node to send the backup to'')
      else if clears then Inl (UnclaimedErr refusals)
      else Inl (Errorf (''no node took the backup: '' @ join ''; '' refusals)))"
| "runBackup_loop c kind parent (t # ts) refusals clears asked =
     (let result = (if kind = backupFull then bc_full c (bt_url t) else bc_incremental c (bt_url t) parent);
          asked = asked @ [bt_url t]
      in case result of
          Inr info \<Rightarrow> (asked, Inr info)
        | Inl err \<Rightarrow>
            if bc_expired c (bt_url t) then
              (asked, Inl (WrapErr (bt_pod t @ '' did not finish the backup before the timeout'') err))
            else
              (case as_BackupError err of
                 Some be \<Rightarrow>
                   if \<not> TryAnotherNode be then (asked, Inl (WrapErr (bt_pod t) err))
                   else runBackup_loop c kind parent ts (refusals @ [bt_pod t @ '': '' @ err_text err])
                     (clears \<and> ClearsOnRetry be) asked
               | None \<Rightarrow>
                   runBackup_loop c kind parent ts (refusals @ [bt_pod t @ '': '' @ err_text err]) False asked))"

definition runBackup :: "backupCalls \<Rightarrow> backupKind \<Rightarrow> string \<Rightarrow> backupTarget list \<Rightarrow> string list \<times> (goerr + BackupInfo)" where
  "runBackup c kind parent targets = runBackup_loop c kind parent targets [] True []"


section \<open>Recording a result\<close>

definition backup_succeeded :: "BackupStatus \<Rightarrow> backupJob \<Rightarrow> BackupInfo \<Rightarrow> gotime \<Rightarrow> BackupStatus" where
  "backup_succeeded st job info now =
     (let st = st\<lparr>bst_LastSuccessfulTime := Some now, bst_LastBackupID := bi_BackupID info,
            bst_LastBackupType := (if bi_ActualKind info = [] then bi_Type info else bi_ActualKind info),
            bst_ConsecutiveFailures := 0, bst_LastFailureTime := None, bst_LastFailureMessage := [],
            bst_UnclaimedSince := None, bst_LastUnclaimedTime := None\<rparr>
      in if bj_kind job = backupFull
         then st\<lparr>bst_LastFullScheduleTime := Some (bj_scheduled job), bst_LastIncrementalScheduleTime := Some now\<rparr>
         else st\<lparr>bst_LastIncrementalScheduleTime := Some (bj_scheduled job)\<rparr>)"

definition backup_failed :: "BackupStatus \<Rightarrow> backupJob \<Rightarrow> goerr \<Rightarrow> gotime \<Rightarrow> BackupStatus" where
  "backup_failed st job err now =
     (let st = st\<lparr>bst_UnclaimedSince := None, bst_LastUnclaimedTime := None\<rparr> in
      case as_BackupError err of
        Some be \<Rightarrow>
          if bj_kind job = backupIncremental \<and> be_Outcome be = BackupOutcomeParentMissing
          then st\<lparr>bst_LastBackupID := [], bst_LastFullScheduleTime := None\<rparr>
          else st\<lparr>bst_ConsecutiveFailures := wrap32 (bst_ConsecutiveFailures st + 1),
                 bst_LastFailureTime := Some now,
                 bst_LastFailureMessage := kind_text (bj_kind job) @ '' backup: '' @ take maxFailureMessage (err_text err)\<rparr>
      | None \<Rightarrow>
          st\<lparr>bst_ConsecutiveFailures := wrap32 (bst_ConsecutiveFailures st + 1),
             bst_LastFailureTime := Some now,
             bst_LastFailureMessage := kind_text (bj_kind job) @ '' backup: '' @ take maxFailureMessage (err_text err)\<rparr>)"

definition applyBackupResult :: "BackupStatus \<Rightarrow> backupJob \<Rightarrow> gotime \<Rightarrow> panic + BackupStatus" where
  "applyBackupResult st job now =
     (case bj_err job of
        None \<Rightarrow> (case bj_info job of None \<Rightarrow> Inl NilDeref | Some info \<Rightarrow> Inr (backup_succeeded st job info now))
      | Some err \<Rightarrow>
          Inr (if as_unclaimed err \<noteq> None \<and> bst_ConsecutiveFailures st = 0 then
                 let since = (case bst_UnclaimedSince st of None \<Rightarrow> now | Some t \<Rightarrow> t) in
                 if Sub now since < unclaimedFailAfter
                 then st\<lparr>bst_UnclaimedSince := Some since, bst_LastUnclaimedTime := Some now\<rparr>
                 else backup_failed st job err now
               else backup_failed st job err now))"


section \<open>The runner as a job store\<close>

text \<open>
  What the reconciler relies on: at most one job per cluster, a finished job handed out by the poll
  that finds it and then gone. The runner's operations interleave as a sequence of events, where
  \<open>Finish a\<close> is the end of the goroutine whose job is at address \<open>a\<close>.
\<close>

datatype 'k runner_event =
    Start 'k backupJob
  | Finish nat "goerr + BackupInfo"
  | Poll 'k
  | Forget 'k

text \<open>A step returns the job that a poll hands out.\<close>

fun runner_step :: "'k backupRunner \<Rightarrow> 'k runner_event \<Rightarrow> 'k backupRunner \<times> ('k \<times> backupJob) list" where
  "runner_step r (Start k j) = (runner_start k j r, [])"
| "runner_step r (Finish a x) = (runner_finish a x r, [])"
| "runner_step r (Poll k) = (case runner_poll k r of (r', None) \<Rightarrow> (r', []) | (r', Some j) \<Rightarrow> (r', [(k, j)]))"
| "runner_step r (Forget k) = (runner_forget k r, [])"

fun steps :: "('s \<Rightarrow> 'e \<Rightarrow> 's \<times> 'd list) \<Rightarrow> 's \<Rightarrow> 'e list \<Rightarrow> 's \<times> 'd list" where
  "steps f s [] = (s, [])"
| "steps f s (e # es) = (let (s', out) = f s e; (s'', out') = steps f s' es in (s'', out @ out'))"

definition results_of :: "'k \<Rightarrow> ('k \<times> backupJob) list \<Rightarrow> backupJob list" where
  "results_of k out = map snd (filter (\<lambda>(k', j). k' = k \<and> bj_done j) out)"

definition starts_of :: "'k \<Rightarrow> 'k runner_event list \<Rightarrow> nat" where
  "starts_of k es = length (filter (\<lambda>e. case e of Start k' _ \<Rightarrow> k' = k | _ \<Rightarrow> False) es)"

lemma results_of_simps [simp]:
  "results_of k [] = []" "results_of k (xs @ ys) = results_of k xs @ results_of k ys"
  "results_of k [(k', j)] = (if k' = k \<and> bj_done j then [j] else [])"
  by (auto simp: results_of_def)

lemma starts_of_simps [simp]:
  "starts_of k [] = 0" "starts_of k (Start k' j # es) = (if k' = k then 1 else 0) + starts_of k es"
  "starts_of k (Finish a x # es) = starts_of k es" "starts_of k (Poll k' # es) = starts_of k es"
  "starts_of k (Forget k' # es) = starts_of k es"
  by (auto simp: starts_of_def)

text \<open>The contract. \<open>jobs\<close> is what the store holds for each cluster.\<close>

locale job_store =
  fixes inv :: "'s \<Rightarrow> bool"
    and jobs :: "'s \<Rightarrow> 'k \<rightharpoonup> backupJob"
    and step :: "'s \<Rightarrow> 'k runner_event \<Rightarrow> 's \<times> ('k \<times> backupJob) list"
  assumes inv_step: "inv s \<Longrightarrow> inv (fst (step s e))"
    and step_start: "inv s \<Longrightarrow> jobs (fst (step s (Start k j))) = (jobs s)(k \<mapsto> j) \<and> snd (step s (Start k j)) = []"
    and step_finish: "inv s \<Longrightarrow> dom (jobs (fst (step s (Finish a x)))) = dom (jobs s) \<and> snd (step s (Finish a x)) = []"
    and step_poll: "inv s \<Longrightarrow> jobs (fst (step s (Poll k))) =
        (case jobs s k of Some j \<Rightarrow> if bj_done j then (jobs s)(k := None) else jobs s | None \<Rightarrow> jobs s) \<and>
        snd (step s (Poll k)) = (case jobs s k of Some j \<Rightarrow> [(k, j)] | None \<Rightarrow> [])"
    and step_forget: "inv s \<Longrightarrow> jobs (fst (step s (Forget k))) = (jobs s)(k := None) \<and> snd (step s (Forget k)) = []"
begin

definition held :: "'k \<Rightarrow> 's \<Rightarrow> nat" where
  "held k s = (if jobs s k = None then 0 else 1)"

lemma step_account:
  assumes "inv s"
  shows "length (results_of k (snd (step s e))) + held k (fst (step s e)) \<le> starts_of k [e] + held k s"
proof (cases e)
  case (Start k' j)
  thus ?thesis using step_start [OF assms] by (simp add: held_def)
next
  case (Finish a x)
  thus ?thesis using step_finish [OF assms, of a x] by (auto simp: held_def dom_def)
next
  case (Poll k')
  thus ?thesis using step_poll [OF assms, of k'] by (auto simp: held_def split: option.splits)
next
  case (Forget k')
  thus ?thesis using step_forget [OF assms] by (simp add: held_def)
qed

lemma results_bounded:
  "inv s \<Longrightarrow> length (results_of k (snd (steps step s es))) + held k (fst (steps step s es)) \<le> starts_of k es + held k s"
proof (induction es arbitrary: s)
  case (Cons e es)
  have "starts_of k (e # es) = starts_of k [e] + starts_of k es" by (cases e) auto
  with step_account [OF Cons.prems, of k e] Cons.IH [OF inv_step [OF Cons.prems, of e]]
  show ?case by (simp add: Let_def case_prod_beta)
qed simp

end

section \<open>The runner keeps the contract\<close>

definition runner_wf :: "'k backupRunner \<Rightarrow> bool" where
  "runner_wf r \<longleftrightarrow>
     (\<forall>k a. br_jobs r k = Some a \<longrightarrow> br_heap r a \<noteq> None) \<and>
     (\<forall>k k' a. br_jobs r k = Some a \<and> br_jobs r k' = Some a \<longrightarrow> k = k') \<and>
     (\<forall>a. br_heap r a \<noteq> None \<longrightarrow> a < br_next r)"

definition runner_jobs :: "'k backupRunner \<Rightarrow> 'k \<rightharpoonup> backupJob" where
  "runner_jobs r k = Option.bind (br_jobs r k) (br_heap r)"

lemma runner_wf_empty [simp]: "runner_wf runner_empty"
  by (simp add: runner_wf_def runner_empty_def)

lemma runner_wf_fresh:
  assumes "runner_wf r"
  shows "br_jobs r k \<noteq> Some (br_next r)"
  using assms unfolding runner_wf_def by (metis less_irrefl)

lemma runner_wfD:
  assumes "runner_wf r"
  shows "br_jobs r k = Some a \<Longrightarrow> br_heap r a \<noteq> None" "br_jobs r k = Some a \<Longrightarrow> br_jobs r k' = Some a \<Longrightarrow> k = k'"
    "br_heap r a \<noteq> None \<Longrightarrow> a < br_next r"
  using assms unfolding runner_wf_def by blast+

lemma runner_start_refines:
  assumes wf: "runner_wf r"
  shows "runner_wf (runner_start k j r)" "runner_jobs (runner_start k j r) = (runner_jobs r)(k \<mapsto> j)"
proof -
  note fresh = runner_wf_fresh [OF wf]
  have "br_heap r a \<noteq> None \<Longrightarrow> a < Suc (br_next r)" for a using runner_wfD(3) [OF wf] by (simp add: less_SucI)
  thus "runner_wf (runner_start k j r)"
    using fresh runner_wfD(1,2) [OF wf] unfolding runner_wf_def
    by (simp add: runner_start_def) (metis option.inject)
  show "runner_jobs (runner_start k j r) = (runner_jobs r)(k \<mapsto> j)"
  proof
    fix k'
    show "runner_jobs (runner_start k j r) k' = ((runner_jobs r)(k \<mapsto> j)) k'"
      using fresh [of k'] by (cases "br_jobs r k'") (auto simp: runner_start_def runner_jobs_def)
  qed
qed

lemma runner_finish_refines:
  assumes "runner_wf r"
  shows "runner_wf (runner_finish a x r)"
    "runner_jobs (runner_finish a x r) =
      (\<lambda>k. if br_jobs r k = Some a then map_option (finished x) (runner_jobs r k) else runner_jobs r k)"
proof -
  show "runner_wf (runner_finish a x r)"
    using assms unfolding runner_wf_def by (auto simp: runner_finish_def)
  have "Option.bind (br_jobs r k) (br_heap (runner_finish a x r)) =
      (if br_jobs r k = Some a then map_option (finished x) (runner_jobs r k) else runner_jobs r k)" for k
    by (cases "br_jobs r k") (auto simp: runner_finish_def runner_jobs_def)
  thus "runner_jobs (runner_finish a x r) =
      (\<lambda>k. if br_jobs r k = Some a then map_option (finished x) (runner_jobs r k) else runner_jobs r k)"
    by (simp add: runner_jobs_def runner_finish_def fun_eq_iff)
qed

lemma runner_forget_refines:
  assumes "runner_wf r"
  shows "runner_wf (runner_forget k r)" "runner_jobs (runner_forget k r) = (runner_jobs r)(k := None)"
  using assms unfolding runner_wf_def by (auto simp: runner_forget_def runner_jobs_def fun_eq_iff)

lemma runner_poll_cases:
  "runner_poll k r =
    (case runner_jobs r k of None \<Rightarrow> (r, None) | Some j \<Rightarrow> (if bj_done j then runner_forget k r else r, Some j))"
proof (cases "br_jobs r k")
  case (Some a)
  thus ?thesis by (cases "br_heap r a") (simp_all add: runner_poll_def runner_jobs_def runner_forget_def)
qed (simp add: runner_poll_def runner_jobs_def)

interpretation jr: job_store runner_wf runner_jobs runner_step
proof unfold_locales
  fix s :: "'k backupRunner" and e k j a x
  assume wf: "runner_wf s"
  note refines = runner_start_refines [OF wf] runner_finish_refines [OF wf] runner_forget_refines [OF wf]
    runner_poll_cases
  show "runner_wf (fst (runner_step s e))"
    by (cases e) (auto simp: refines wf split: option.split)
  show "runner_jobs (fst (runner_step s (Start k j))) = (runner_jobs s)(k \<mapsto> j) \<and> snd (runner_step s (Start k j)) = []"
    by (simp add: refines)
  show "dom (runner_jobs (fst (runner_step s (Finish a x)))) = dom (runner_jobs s) \<and> snd (runner_step s (Finish a x)) = []"
    by (auto simp: refines dom_def split: if_splits)
  show "runner_jobs (fst (runner_step s (Poll k))) =
      (case runner_jobs s k of Some j \<Rightarrow> if bj_done j then (runner_jobs s)(k := None) else runner_jobs s | None \<Rightarrow> runner_jobs s) \<and>
      snd (runner_step s (Poll k)) = (case runner_jobs s k of Some j \<Rightarrow> [(k, j)] | None \<Rightarrow> [])"
    by (simp add: refines split: option.split)
  show "runner_jobs (fst (runner_step s (Forget k))) = (runner_jobs s)(k := None) \<and> snd (runner_step s (Forget k)) = []"
    by (simp add: refines)
qed

text \<open>The abstract store: a map from clusters to jobs. A job that ends changes the entry of the
  cluster it belongs to, if it still belongs to one.\<close>

fun store_step :: "('k \<Rightarrow> bool) \<Rightarrow> ('k \<rightharpoonup> backupJob) \<Rightarrow> 'k runner_event \<Rightarrow> ('k \<rightharpoonup> backupJob) \<times> ('k \<times> backupJob) list" where
  "store_step own m (Start k j) = (m(k \<mapsto> j), [])"
| "store_step own m (Finish a x) = ((\<lambda>k. if own k then map_option (finished x) (m k) else m k), [])"
| "store_step own m (Poll k) = (case m k of None \<Rightarrow> (m, []) | Some j \<Rightarrow> (if bj_done j then m(k := None) else m, [(k, j)]))"
| "store_step own m (Forget k) = (m(k := None), [])"

definition owner :: "'k backupRunner \<Rightarrow> 'k runner_event \<Rightarrow> 'k \<Rightarrow> bool" where
  "owner r e k = (case e of Finish a _ \<Rightarrow> br_jobs r k = Some a | _ \<Rightarrow> False)"

text \<open>C9: The runner with its shared job pointers implements a plain map from clusters to jobs. Every
  operation, and the end of every job at any time, keeps the runner well-formed, acts on the map as
  the abstract operation does, and hands out the same job. At most one cluster sees a job end.\<close>

theorem runner_refines_store:
  assumes "runner_wf r"
  shows "runner_wf (fst (runner_step r e)) \<and>
    store_step (owner r e) (runner_jobs r) e = (runner_jobs (fst (runner_step r e)), snd (runner_step r e)) \<and>
    (\<forall>k k'. owner r e k \<and> owner r e k' \<longrightarrow> k = k')"
proof -
  note refines = runner_start_refines [OF assms] runner_finish_refines [OF assms] runner_forget_refines [OF assms]
    runner_poll_cases
  have "store_step (owner r e) (runner_jobs r) e = (runner_jobs (fst (runner_step r e)), snd (runner_step r e))"
    by (cases e) (auto simp: refines owner_def split: option.split)
  moreover have "\<forall>k k'. owner r e k \<and> owner r e k' \<longrightarrow> k = k'"
    using runner_wfD(2) [OF assms] by (auto simp: owner_def split: runner_event.splits)
  ultimately show ?thesis using jr.inv_step [OF assms] by blast
qed

definition example_info :: BackupInfo where
  "example_info = BackupInfo_zero\<lparr>bi_BackupID := ''b2'', bi_Type := ''full''\<rparr>"

definition example_job :: backupJob where
  "example_job = new_job backupFull (12 * hour) ''b1''"

definition example_runner :: "nat backupRunner" where
  "example_runner = runner_start 7 example_job runner_empty"

lemma example_runner_wf: "runner_wf example_runner"
  unfolding example_runner_def by (rule runner_start_refines(1)) simp

lemma example_runner_jobs: "runner_jobs example_runner = [7 \<mapsto> example_job]"
  unfolding example_runner_def runner_start_refines(2) [OF runner_wf_empty]
  by (simp add: runner_jobs_def runner_empty_def fun_eq_iff)

theorem runner_refines_store_witness:
  "runner_jobs (fst (runner_step example_runner (Finish 0 (Inr example_info)))) =
     [7 \<mapsto> finished (Inr example_info) example_job]"
proof -
  let ?e = "Finish 0 (Inr example_info)"
  have own: "owner example_runner ?e = (\<lambda>k. k = 7)"
    by (rule ext) (simp add: owner_def example_runner_def runner_start_def runner_empty_def)
  have "store_step (owner example_runner ?e) (runner_jobs example_runner) ?e =
      (runner_jobs (fst (runner_step example_runner ?e)), snd (runner_step example_runner ?e))"
    using runner_refines_store [OF example_runner_wf, of ?e] by blast
  hence "runner_jobs (fst (runner_step example_runner ?e)) =
      (\<lambda>k. if k = 7 then map_option (finished (Inr example_info)) ([7 \<mapsto> example_job] k) else [7 \<mapsto> example_job] k)"
    unfolding own example_runner_jobs store_step.simps prod.inject by simp
  thus ?thesis by (simp add: fun_eq_iff)
qed

text \<open>Over any interleaving of starts, polls, ends of jobs and deletions, a cluster never sees more
  results than backups were started for it: no result is applied twice.\<close>

lemma runner_results_at_most_once:
  "length (results_of k (snd (steps runner_step runner_empty es))) \<le> starts_of k es"
proof -
  have "jr.held k runner_empty = 0" by (simp add: jr.held_def runner_jobs_def runner_empty_def)
  with jr.results_bounded [OF runner_wf_empty, of k es] show ?thesis by linarith
qed

text \<open>The events that leave a cluster's job at address \<open>a\<close> alone.\<close>

fun leaves_job :: "'k \<Rightarrow> nat \<Rightarrow> 'k runner_event \<Rightarrow> bool" where
  "leaves_job k a (Start k' j) = (k' \<noteq> k)"
| "leaves_job k a (Finish b x) = (b \<noteq> a)"
| "leaves_job k a (Poll k') = True"
| "leaves_job k a (Forget k') = (k' \<noteq> k)"

lemma job_kept_step:
  assumes "runner_wf r" "br_jobs r k = Some a" "br_heap r a = Some j" "leaves_job k a e"
    "\<not> bj_done j \<or> e \<noteq> Poll k"
  shows "br_jobs (fst (runner_step r e)) k = Some a \<and> br_heap (fst (runner_step r e)) a = Some j"
proof (cases e)
  case (Start k' j')
  have "a \<noteq> br_next r" using runner_wfD(3) [OF assms(1), of a] assms(3) by simp
  with Start assms(2-4) show ?thesis by (simp add: runner_start_def)
next
  case (Finish b x)
  with assms(2-4) show ?thesis by (simp add: runner_finish_def)
next
  case (Poll k')
  have "runner_jobs r k = Some j" using assms(2,3) by (simp add: runner_jobs_def)
  thus ?thesis using Poll assms(2,3,5)
    by (cases "k' = k") (simp_all add: runner_poll_cases runner_forget_def split: option.split)
next
  case (Forget k')
  with assms(2-4) show ?thesis by (simp add: runner_forget_def)
qed

lemma job_kept_steps:
  assumes "runner_wf r" "br_jobs r k = Some a" "br_heap r a = Some j" "list_all (leaves_job k a) es"
    "\<not> bj_done j \<or> Poll k \<notin> set es"
  shows "runner_wf (fst (steps runner_step r es)) \<and> br_jobs (fst (steps runner_step r es)) k = Some a \<and>
    br_heap (fst (steps runner_step r es)) a = Some j"
  using assms
proof (induction es arbitrary: r)
  case (Cons e es)
  have "runner_wf (fst (runner_step r e))" by (rule jr.inv_step [OF Cons.prems(1)])
  moreover have "br_jobs (fst (runner_step r e)) k = Some a \<and> br_heap (fst (runner_step r e)) a = Some j"
    using Cons.prems by (intro job_kept_step) auto
  ultimately show ?case using Cons.IH [of "fst (runner_step r e)"] Cons.prems(4,5)
    by (simp add: Let_def case_prod_beta)
qed simp

lemma steps_append:
  "fst (steps f s (xs @ ys)) = fst (steps f (fst (steps f s xs)) ys)"
  by (induction xs arbitrary: s) (auto simp: Let_def case_prod_beta)

text \<open>A started job's result is delivered. Whatever else happens, and however often the cluster is
  polled in the meantime, as long as its own job is neither forgotten nor replaced, the first poll
  after the job ends returns the job with exactly its result.\<close>

lemma runner_result_delivered:
  assumes "runner_wf r" "\<not> bj_done j"
    "list_all (leaves_job k (br_next r)) es" "list_all (leaves_job k (br_next r)) es'" "Poll k \<notin> set es'"
  shows "snd (runner_step (fst (steps runner_step r ([Start k j] @ es @ [Finish (br_next r) x] @ es'))) (Poll k)) =
    [(k, finished x j)]"
proof -
  let ?a = "br_next r"
  let ?r1 = "runner_start k j r"
  let ?r2 = "fst (steps runner_step ?r1 es)"
  let ?r3 = "runner_finish ?a x ?r2"
  let ?r4 = "fst (steps runner_step ?r3 es')"
  have "runner_wf ?r1" by (rule runner_start_refines(1) [OF assms(1)])
  hence r2: "runner_wf ?r2 \<and> br_jobs ?r2 k = Some ?a \<and> br_heap ?r2 ?a = Some j"
    using assms(2,3) by (intro job_kept_steps) (auto simp: runner_start_def)
  hence "runner_wf ?r3" using runner_finish_refines(1) by blast
  hence r4: "runner_wf ?r4 \<and> br_jobs ?r4 k = Some ?a \<and> br_heap ?r4 ?a = Some (finished x j)"
    using assms(4,5) r2 by (intro job_kept_steps) (auto simp: runner_finish_def)
  have "fst (steps runner_step r ([Start k j] @ es @ [Finish ?a x] @ es')) = ?r4"
    by (simp only: steps_append) (simp add: Let_def)
  moreover have "runner_jobs ?r4 k = Some (finished x j)" using r4 by (simp add: runner_jobs_def)
  ultimately show ?thesis by (simp add: runner_poll_cases)
qed


section \<open>Asking the nodes\<close>

definition ask :: "backupCalls \<Rightarrow> backupKind \<Rightarrow> string \<Rightarrow> backupTarget \<Rightarrow> goerr + BackupInfo" where
  "ask c kind parent t =
     (if kind = backupFull then bc_full c (bt_url t) else bc_incremental c (bt_url t) parent)"

text \<open>A node's answer after which the next node is asked: an error that is not a final refusal, before
  the deadline.\<close>

definition passes_on :: "backupCalls \<Rightarrow> backupKind \<Rightarrow> string \<Rightarrow> backupTarget \<Rightarrow> bool" where
  "passes_on c kind parent t =
     (case ask c kind parent t of
        Inr _ \<Rightarrow> False
      | Inl err \<Rightarrow> \<not> bc_expired c (bt_url t) \<and>
          (case as_BackupError err of Some be \<Rightarrow> TryAnotherNode be | None \<Rightarrow> True))"

definition clears_on_retry :: "backupCalls \<Rightarrow> backupKind \<Rightarrow> string \<Rightarrow> backupTarget \<Rightarrow> bool" where
  "clears_on_retry c kind parent t =
     (case ask c kind parent t of
        Inr _ \<Rightarrow> False
      | Inl err \<Rightarrow> (case as_BackupError err of Some be \<Rightarrow> ClearsOnRetry be | None \<Rightarrow> False))"

definition refusal :: "backupCalls \<Rightarrow> backupKind \<Rightarrow> string \<Rightarrow> backupTarget \<Rightarrow> string" where
  "refusal c kind parent t =
     bt_pod t @ '': '' @ (case ask c kind parent t of Inl err \<Rightarrow> err_text err | Inr _ \<Rightarrow> [])"

definition verdict :: "backupCalls \<Rightarrow> backupKind \<Rightarrow> string \<Rightarrow> backupTarget \<Rightarrow> goerr + BackupInfo" where
  "verdict c kind parent t =
     (case ask c kind parent t of
        Inr info \<Rightarrow> Inr info
      | Inl err \<Rightarrow>
          if bc_expired c (bt_url t) then Inl (WrapErr (bt_pod t @ '' did not finish the backup before the timeout'') err)
          else Inl (WrapErr (bt_pod t) err))"

lemma runBackup_loop_pass:
  assumes "passes_on c kind parent t"
  shows "runBackup_loop c kind parent (t # ts) rs cl asked =
    runBackup_loop c kind parent ts (rs @ [refusal c kind parent t]) (cl \<and> clears_on_retry c kind parent t) (asked @ [bt_url t])"
  using assms by (auto simp: passes_on_def refusal_def clears_on_retry_def ask_def Let_def split: sum.splits option.splits)

lemma runBackup_loop_stop:
  assumes "\<not> passes_on c kind parent t"
  shows "runBackup_loop c kind parent (t # ts) rs cl asked = (asked @ [bt_url t], verdict c kind parent t)"
  using assms by (auto simp: passes_on_def verdict_def ask_def Let_def split: sum.splits option.splits)

text \<open>The nodes asked are those that pass the request on, and the first one that does not.\<close>

lemma runBackup_loop_eq:
  "runBackup_loop c kind parent ts rs cl asked =
    (case dropWhile (passes_on c kind parent) ts of
       t # _ \<Rightarrow> (asked @ map bt_url (takeWhile (passes_on c kind parent) ts @ [t]), verdict c kind parent t)
     | [] \<Rightarrow> (asked @ map bt_url ts,
         let all = rs @ map (refusal c kind parent) ts in
         if all = [] then Inl (Errorf ''no ready node to send the backup to'')
         else if cl \<and> list_all (clears_on_retry c kind parent) ts then Inl (UnclaimedErr all)
         else Inl (Errorf (''no node took the backup: '' @ join ''; '' all))))"
proof (induction ts arbitrary: rs cl asked)
  case (Cons t ts)
  show ?case
  proof (cases "passes_on c kind parent t")
    case True
    show ?thesis unfolding runBackup_loop_pass [OF True] Cons.IH using True
      by (cases "dropWhile (passes_on c kind parent) ts") (simp_all add: Let_def del: dropWhile_eq_Nil_conv)
  next
    case False
    thus ?thesis unfolding runBackup_loop_stop [OF False] by simp
  qed
qed simp

text \<open>The request goes to the nodes in order, stops at the first one that takes it, refuses it for
  good or runs into the deadline, and its answer is the result. When every node passed, the result
  is unclaimed exactly when each refused with an outcome that clears on retry, and names them all.\<close>

lemma runBackup_asks:
  "runBackup c kind parent ts =
    (case dropWhile (passes_on c kind parent) ts of
       t # _ \<Rightarrow> (map bt_url (takeWhile (passes_on c kind parent) ts @ [t]), verdict c kind parent t)
     | [] \<Rightarrow> (map bt_url ts,
         if ts = [] then Inl (Errorf ''no ready node to send the backup to'')
         else if list_all (clears_on_retry c kind parent) ts then Inl (UnclaimedErr (map (refusal c kind parent) ts))
         else Inl (Errorf (''no node took the backup: '' @ join ''; '' (map (refusal c kind parent) ts)))))"
  unfolding runBackup_def runBackup_loop_eq
  by (cases "dropWhile (passes_on c kind parent) ts") (simp_all add: Let_def del: dropWhile_eq_Nil_conv)


definition example_targets :: "backupTarget list" where
  "example_targets = map (\<lambda>(p, u). \<lparr>bt_pod = p, bt_url = u\<rparr>) [(''db-0'', ''a''), (''db-1'', ''b''), (''db-2'', ''c'')]"

definition example_calls :: backupCalls where
  "example_calls = \<lparr>
     bc_full = (\<lambda>u. if u = ''b'' then Inr example_info
        else Inl (BackupErr \<lparr>be_StatusCode = 409, be_Outcome = BackupOutcomeNotBackupCoordinator, be_Detail = []\<rparr>)),
     bc_incremental = (\<lambda>_ _. Inr example_info), bc_expired = (\<lambda>_. False)\<rparr>"

lemma example_runs: "runBackup example_calls backupFull [] example_targets = ([''a'', ''b''], Inr example_info)"
  by (simp add: runBackup_def example_calls_def example_targets_def TryAnotherNode_def)


section \<open>Recording results\<close>

text \<open>The runner never hands out a finished job that makes recording it panic.\<close>

lemma applyBackupResult_finished: "\<exists>st'. applyBackupResult st (finished x job) now = Inr st'"
  by (cases x) (auto simp: applyBackupResult_def)

definition parent_missing :: "backupJob \<Rightarrow> goerr \<Rightarrow> bool" where
  "parent_missing job err \<longleftrightarrow> bj_kind job = backupIncremental \<and>
     (case as_BackupError err of Some be \<Rightarrow> be_Outcome be = BackupOutcomeParentMissing | None \<Rightarrow> False)"

text \<open>An unclaimed attempt that does not count as a failure yet.\<close>

definition tolerated :: "BackupStatus \<Rightarrow> goerr \<Rightarrow> gotime \<Rightarrow> bool" where
  "tolerated st err now \<longleftrightarrow> as_unclaimed err \<noteq> None \<and> bst_ConsecutiveFailures st = 0 \<and>
     Sub now (case bst_UnclaimedSince st of None \<Rightarrow> now | Some t \<Rightarrow> t) < unclaimedFailAfter"

lemma as_unclaimed_no_BackupError: "as_unclaimed err \<noteq> None \<Longrightarrow> as_BackupError err = None"
  by (induction err) auto

lemma backup_failed_eq:
  "backup_failed st job err now =
    (if parent_missing job err
     then st\<lparr>bst_UnclaimedSince := None, bst_LastUnclaimedTime := None, bst_LastBackupID := [], bst_LastFullScheduleTime := None\<rparr>
     else st\<lparr>bst_UnclaimedSince := None, bst_LastUnclaimedTime := None,
       bst_ConsecutiveFailures := wrap32 (bst_ConsecutiveFailures st + 1), bst_LastFailureTime := Some now,
       bst_LastFailureMessage := kind_text (bj_kind job) @ '' backup: '' @ take maxFailureMessage (err_text err)\<rparr>)"
  by (cases "as_BackupError err") (simp_all add: backup_failed_def parent_missing_def Let_def)

lemma apply_failure:
  assumes "bj_err job = Some err"
  shows "applyBackupResult st job now = Inr (
    if tolerated st err now then st\<lparr>bst_UnclaimedSince :=
         Some (case bst_UnclaimedSince st of None \<Rightarrow> now | Some t \<Rightarrow> t), bst_LastUnclaimedTime := Some now\<rparr>
    else if parent_missing job err
      then st\<lparr>bst_UnclaimedSince := None, bst_LastUnclaimedTime := None, bst_LastBackupID := [], bst_LastFullScheduleTime := None\<rparr>
    else st\<lparr>bst_UnclaimedSince := None, bst_LastUnclaimedTime := None,
        bst_ConsecutiveFailures := wrap32 (bst_ConsecutiveFailures st + 1), bst_LastFailureTime := Some now,
        bst_LastFailureMessage := kind_text (bj_kind job) @ '' backup: '' @ take maxFailureMessage (err_text err)\<rparr>)"
  unfolding applyBackupResult_def assms option.case backup_failed_eq tolerated_def
  by (simp add: Let_def del: split_paired_Ex not_None_eq)

text \<open>Only a success moves the schedule: it records the schedule time the backup covered, its
  identity, and clears the failure state. After a failure the backup is as due as it was before,
  unless an incremental one lost its parent; then there is no full backup and no parent recorded
  any more, and the failure does not count.\<close>

lemma applyBackupResult_anchors:
  "\<exists>st'. applyBackupResult st (finished x job) now = Inr st' \<and>
     (case x of
        Inr info \<Rightarrow>
          bst_LastSuccessfulTime st' = Some now \<and> bst_LastBackupID st' = bi_BackupID info \<and>
          bst_ConsecutiveFailures st' = 0 \<and> bst_LastUnclaimedTime st' = None \<and>
          bst_LastFullScheduleTime st' =
            (if bj_kind job = backupFull then Some (bj_scheduled job) else bst_LastFullScheduleTime st) \<and>
          bst_LastIncrementalScheduleTime st' = Some (if bj_kind job = backupFull then now else bj_scheduled job)
      | Inl err \<Rightarrow>
          bst_LastSuccessfulTime st' = bst_LastSuccessfulTime st \<and>
          bst_LastIncrementalScheduleTime st' = bst_LastIncrementalScheduleTime st \<and>
          (if parent_missing job err
           then bst_LastFullScheduleTime st' = None \<and> bst_LastBackupID st' = [] \<and>
             bst_ConsecutiveFailures st' = bst_ConsecutiveFailures st
           else bst_LastFullScheduleTime st' = bst_LastFullScheduleTime st \<and> bst_LastBackupID st' = bst_LastBackupID st))"
proof (cases x)
  case (Inr info)
  thus ?thesis by (simp add: applyBackupResult_def backup_succeeded_def Let_def)
next
  case (Inl err)
  have "tolerated st err now \<Longrightarrow> \<not> parent_missing job err"
    using as_unclaimed_no_BackupError [of err] by (auto simp: tolerated_def parent_missing_def)
  moreover have "parent_missing (finished x job) err = parent_missing job err" by (simp add: parent_missing_def)
  ultimately show ?thesis using apply_failure [of "finished x job" err st now] Inl by simp
qed

text \<open>A failed backup is retried and nothing else happens in between: after a failure that counts,
  no backup starts until the backoff for the new failure count has passed since the failure, and
  from then on a backup of the kind that was due is due again.\<close>

lemma failed_backup_retried:
  assumes "backup_input_ok A B inp" "bin_now inp = now" "full_due A inp"
    "bj_err job = Some err" "\<not> tolerated (bin_status inp) err now" "\<not> parent_missing job err"
    "0 \<le> bst_ConsecutiveFailures (bin_status inp)" "bst_ConsecutiveFailures (bin_status inp) < 2 ^ 31 - 1"
    "applyBackupResult (bin_status inp) job now = Inr st'"
    "now \<le> t" "case bst_LastFullScheduleTime (bin_status inp) of None \<Rightarrow> True | Some l \<Rightarrow> t \<le> l + schedule_horizon"
  shows "bd_kind (decideBackup (inp\<lparr>bin_status := st', bin_now := t\<rparr>)) =
    (if t < now + backupRetryDelay (bst_ConsecutiveFailures (bin_status inp) + 1) then backupNone else backupFull)"
proof -
  let ?inp = "inp\<lparr>bin_status := st', bin_now := t\<rparr>"
  have "in32 (bst_ConsecutiveFailures (bin_status inp) + 1)" using assms(7,8) by (simp add: in32_def)
  hence f: "bst_ConsecutiveFailures st' = bst_ConsecutiveFailures (bin_status inp) + 1" "bst_LastFailureTime st' = Some now"
      "bst_LastFullScheduleTime st' = bst_LastFullScheduleTime (bin_status inp)"
    using assms(9) [unfolded apply_failure [OF assms(4)]] assms(5,6) by (simp_all, safe) simp_all
  have ok: "backup_input_ok A B ?inp" using assms(1,11) f(3)
    by (cases "bst_LastFullScheduleTime (bin_status inp)") (simp_all add: backup_input_ok_def)
  have due: "full_due A ?inp"
  proof (cases "bst_LastFullScheduleTime (bin_status inp)")
    case (Some l)
    have "missed A l now \<subseteq> missed A l t" using assms(10) by auto
    thus ?thesis using assms(2,3) f(3) Some by (auto simp: full_due_def)
  qed (simp add: full_due_def f)
  have "backup_held ?inp \<longleftrightarrow> t < now + backupRetryDelay (bst_ConsecutiveFailures (bin_status inp) + 1)"
    using f assms(7) by (simp add: backup_held_def backup_retry_at_def)
  thus ?thesis
    using backup_due_kind [OF ok] due by (simp add: decideBackup_def Let_def backup_held_def)
qed

definition example_failure :: backupJob where
  "example_failure = finished (Inl (Errorf ''connection refused'')) example_job"

lemma example_failure_err [simp]: "bj_err example_failure = Some (Errorf ''connection refused'')"
  by (simp add: example_failure_def)

lemma example_failure_counts [simp]:
  "\<not> tolerated st (Errorf e) t" "\<not> parent_missing j (Errorf e)"
  by (simp_all add: tolerated_def parent_missing_def)

lemma failed_backup_retried_witness:
  "\<exists>st'. applyBackupResult example_backup_status example_failure (12 * hour + minute) = Inr st' \<and>
     bd_kind (decideBackup (example_backup_input\<lparr>bin_status := st', bin_now := 12 * hour + minute + 30 * second\<rparr>)) = backupNone \<and>
     bd_kind (decideBackup (example_backup_input\<lparr>bin_status := st', bin_now := 12 * hour + 2 * minute\<rparr>)) = backupFull"
proof -
  obtain st' where st': "applyBackupResult example_backup_status example_failure (12 * hour + minute) = Inr st'"
    using apply_failure [OF example_failure_err] by blast
  have d: "backupRetryDelay 1 = minute" by (simp add: backupRetryDelay_def backupRetryInitial_def backupRetryMax_def)
  note r = failed_backup_retried [OF example_backup_input_ok [of "{}"] _ example_full_due example_failure_err,
      of "12 * hour + minute" st']
  show ?thesis
    using r [of "12 * hour + minute + 30 * second"] r [of "12 * hour + 2 * minute"] st' d
    by (intro exI [of _ st']) (simp add: schedule_horizon_def)
qed

text \<open>An incremental backup whose parent is gone starts a new chain: the next decision, at any time
  not held by an earlier failure's backoff, is a full backup, whatever the schedules say.\<close>

lemma parent_missing_starts_chain:
  assumes "bj_err job = Some err" "parent_missing job err"
    "applyBackupResult (bin_status inp) job now = Inr st'"
    "\<not> backup_held (inp\<lparr>bin_status := st'\<rparr>)"
  shows "decideBackup (inp\<lparr>bin_status := st'\<rparr>) =
    \<lparr>bd_kind = backupFull, bd_scheduled = bin_now inp, bd_retryAt = 0, bd_next = 0\<rparr>"
proof -
  have "\<not> tolerated (bin_status inp) err now"
    using assms(2) as_unclaimed_no_BackupError [of err] by (auto simp: tolerated_def parent_missing_def)
  hence "bst_LastFullScheduleTime st' = None"
    using assms(3) [unfolded apply_failure [OF assms(1)]] assms(2) by (simp, safe) simp
  hence "backup_due (inp\<lparr>bin_status := st'\<rparr>) =
      \<lparr>bd_kind = backupFull, bd_scheduled = bin_now inp, bd_retryAt = 0, bd_next = 0\<rparr>"
    by (simp add: backup_due_def)
  thus ?thesis using assms(4) by (simp add: decideBackup_def backup_held_def Let_def)
qed

definition example_orphan :: backupJob where
  "example_orphan = finished
     (Inl (WrapErr ''db-0'' (BackupErr \<lparr>be_StatusCode = 409, be_Outcome = BackupOutcomeParentMissing, be_Detail = []\<rparr>)))
     (new_job backupIncremental (12 * hour) ''b1'')"

lemma parent_missing_starts_chain_witness:
  "\<exists>st'. applyBackupResult example_backup_status example_orphan (12 * hour + minute) = Inr st' \<and>
     bd_kind (decideBackup (example_backup_input\<lparr>bin_status := st'\<rparr>)) = backupFull"
proof -
  let ?err = "WrapErr ''db-0'' (BackupErr \<lparr>be_StatusCode = 409, be_Outcome = BackupOutcomeParentMissing, be_Detail = []\<rparr>)"
  have e: "bj_err example_orphan = Some ?err" by (simp add: example_orphan_def)
  have p: "parent_missing example_orphan ?err" by (simp add: parent_missing_def example_orphan_def new_job_def)
  have "\<not> tolerated example_backup_status ?err (12 * hour + minute)" by (simp add: tolerated_def)
  with p obtain st' where st': "applyBackupResult example_backup_status example_orphan (12 * hour + minute) = Inr st'"
      "bst_ConsecutiveFailures st' = 0" "bst_LastUnclaimedTime st' = None"
    using apply_failure [OF e, of example_backup_status "12 * hour + minute"] by simp
  hence "\<not> backup_held (example_backup_input\<lparr>bin_status := st'\<rparr>)" by (simp add: backup_held_def backup_retry_at_def)
  with parent_missing_starts_chain [OF e p, of example_backup_input] st'(1) show ?thesis by auto
qed


section \<open>Unclaimed attempts\<close>

text \<open>The status after a run of unclaimed attempts at the given times.\<close>

fun unclaimed_run :: "BackupStatus \<Rightarrow> (backupJob \<times> gotime) list \<Rightarrow> panic + BackupStatus" where
  "unclaimed_run st [] = Inr st"
| "unclaimed_run st ((job, t) # rest) =
     (case applyBackupResult st job t of Inl p \<Rightarrow> Inl p | Inr st' \<Rightarrow> unclaimed_run st' rest)"

definition is_unclaimed :: "backupJob \<Rightarrow> bool" where
  "is_unclaimed job = (case bj_err job of Some err \<Rightarrow> as_unclaimed err \<noteq> None | None \<Rightarrow> False)"

lemma is_unclaimedE:
  assumes "is_unclaimed job"
  obtains err where "bj_err job = Some err" "as_unclaimed err \<noteq> None"
  using assms by (auto simp: is_unclaimed_def split: option.splits)

lemma unclaimed_tolerated:
  assumes "is_unclaimed job" "bst_ConsecutiveFailures st = 0" "bst_UnclaimedSince st = Some t0" "t - t0 < unclaimedFailAfter"
  shows "applyBackupResult st job t = Inr (st\<lparr>bst_UnclaimedSince := Some t0, bst_LastUnclaimedTime := Some t\<rparr>)"
proof -
  obtain err where e: "bj_err job = Some err" "as_unclaimed err \<noteq> None" by (rule is_unclaimedE [OF assms(1)])
  have "Sub t t0 < unclaimedFailAfter"
    using assms(4) by (subst Sub_less_iff) (simp_all add: unclaimedFailAfter_def in64_def)
  hence "tolerated st err t" using e(2) assms(2,3) by (simp add: tolerated_def)
  thus ?thesis using apply_failure [OF e(1)] assms(3) by simp
qed

lemma unclaimed_run_tolerated:
  assumes "bst_ConsecutiveFailures st = 0" "bst_UnclaimedSince st = Some t0"
    "list_all (\<lambda>(job, t). is_unclaimed job \<and> t - t0 < unclaimedFailAfter) rest"
  shows "\<exists>st'. unclaimed_run st rest = Inr st' \<and> bst_ConsecutiveFailures st' = 0 \<and> bst_UnclaimedSince st' = Some t0"
  using assms
proof (induction rest arbitrary: st)
  case (Cons x rest)
  obtain job t where x: "x = (job, t)" by fastforce
  let ?st = "st\<lparr>bst_UnclaimedSince := Some t0, bst_LastUnclaimedTime := Some t\<rparr>"
  have "applyBackupResult st job t = Inr ?st" using Cons.prems x by (intro unclaimed_tolerated) auto
  thus ?case using Cons.IH [of ?st] Cons.prems x by simp
qed simp

text \<open>C26: Attempts that no node takes are not a failure for five minutes, however many there are, and
  the first one five minutes or more after the first counts as one, so a cluster that never gets a
  backup coordinator does report failing backups.\<close>

theorem unclaimed_fails_after_bound:
  assumes "bst_ConsecutiveFailures st = 0" "bst_UnclaimedSince st = None" "is_unclaimed job0"
    "list_all (\<lambda>(job, t). is_unclaimed job \<and> t - t0 < unclaimedFailAfter) rest"
    "is_unclaimed job" "unclaimedFailAfter \<le> t - t0"
  shows "\<exists>st1 st2. unclaimed_run st ((job0, t0) # rest) = Inr st1 \<and> bst_ConsecutiveFailures st1 = 0 \<and>
    applyBackupResult st1 job t = Inr st2 \<and> bst_ConsecutiveFailures st2 = 1 \<and> bst_LastFailureTime st2 = Some t"
proof -
  let ?st = "st\<lparr>bst_UnclaimedSince := Some t0, bst_LastUnclaimedTime := Some t0\<rparr>"
  obtain err0 where e0: "bj_err job0 = Some err0" "as_unclaimed err0 \<noteq> None" by (rule is_unclaimedE [OF assms(3)])
  have "tolerated st err0 t0" using e0(2) assms(1,2) by (simp add: tolerated_def Sub_def unclaimedFailAfter_def)
  hence first: "applyBackupResult st job0 t0 = Inr ?st" using apply_failure [OF e0(1)] assms(2) by simp
  obtain st1 where st1: "unclaimed_run ?st rest = Inr st1" "bst_ConsecutiveFailures st1 = 0" "bst_UnclaimedSince st1 = Some t0"
    using unclaimed_run_tolerated [of ?st t0 rest] assms(1,4) by auto
  obtain err where e: "bj_err job = Some err" "as_unclaimed err \<noteq> None" by (rule is_unclaimedE [OF assms(5)])
  have "unclaimedFailAfter \<le> Sub t t0"
    using assms(6) by (subst le_Sub_iff) (simp_all add: unclaimedFailAfter_def in64_def)
  hence "\<not> tolerated st1 err t" using st1(3) by (simp add: tolerated_def)
  moreover have "\<not> parent_missing job err" using as_unclaimed_no_BackupError [OF e(2)] by (simp add: parent_missing_def)
  ultimately have "\<exists>st2. applyBackupResult st1 job t = Inr st2 \<and> bst_ConsecutiveFailures st2 = 1 \<and> bst_LastFailureTime st2 = Some t"
    using apply_failure [OF e(1)] st1(2) by (simp add: in32_def)
  thus ?thesis using first st1 by auto
qed

definition example_unclaimed :: backupJob where
  "example_unclaimed = finished (Inl (UnclaimedErr [''db-0: not the coordinator''])) example_job"

lemma example_is_unclaimed [simp]: "is_unclaimed example_unclaimed"
  by (simp add: is_unclaimed_def example_unclaimed_def)

theorem unclaimed_fails_after_bound_witness:
  "\<exists>st1 st2. unclaimed_run BackupStatus_zero [(example_unclaimed, hour), (example_unclaimed, hour + minute)] = Inr st1 \<and>
    bst_ConsecutiveFailures st1 = 0 \<and> applyBackupResult st1 example_unclaimed (hour + 5 * minute) = Inr st2 \<and>
    bst_ConsecutiveFailures st2 = 1 \<and> bst_LastFailureTime st2 = Some (hour + 5 * minute)"
  using unclaimed_fails_after_bound [of BackupStatus_zero example_unclaimed hour "[(example_unclaimed, hour + minute)]"
      example_unclaimed "hour + 5 * minute"]
  by (simp add: BackupStatus_zero_def unclaimedFailAfter_def)

end
