(* ===== verification/Scale_Plan.thy ===== *)
theory Scale_Plan
  imports Replica_Placement
begin

text \<open>
  The StatefulSet size and rolling-update partition of one pass, from
  \<open>src/internal/controller/plan.go\<close>.

  The locale \<open>one_node_stepper\<close> is the contract of a component that walks a size toward a target:
  in a pass whose environment lets it move it moves by exactly one toward the target, otherwise it
  stays. Its lemmas bound a pass and a run of passes and show that a run of moving passes reaches
  the target; it is interpreted on \<open>buildPlan\<close> here and on \<open>decideAutoscale\<close> in its theory.
\<close>


section \<open>The plan\<close>

record plan =
  pl_Replicas :: int32
  pl_Partition :: int32
  pl_Reason :: string

definition rosterMatches :: "KahunaCluster \<Rightarrow> Membership option \<Rightarrow> int32 \<Rightarrow> bool" where
  "rosterMatches cluster m replicas =
     (case m of
        None \<Rightarrow> False
      | Some m \<Rightarrow>
          if wrap32 (int (length (mbr_Members m))) \<noteq> replicas then False
          else list_all (\<lambda>i. HasVoter m (raftEndpoint cluster i)) (range_int replicas))"

definition roster_missing :: "KahunaCluster \<Rightarrow> Membership \<Rightarrow> int32 \<Rightarrow> string list" where
  "roster_missing cluster m replicas =
     map (podName cluster) (filter (\<lambda>i. \<not> HasVoter m (raftEndpoint cluster i)) (range_int replicas))"

definition roster_extra :: "KahunaCluster \<Rightarrow> Membership \<Rightarrow> int32 \<Rightarrow> string list" where
  "roster_extra cluster m replicas =
     filter (\<lambda>e. e \<notin> set (map (raftEndpoint cluster) (range_int replicas)))
       (map mem_Endpoint (mbr_Members m))"

definition rosterHoldReason :: "KahunaCluster \<Rightarrow> Membership option \<Rightarrow> int32 \<Rightarrow> string" where
  "rosterHoldReason cluster m replicas =
     (case m of
        None \<Rightarrow> ''waiting for cluster membership to become readable''
      | Some m \<Rightarrow>
          let missing = roster_missing cluster m replicas; extra = roster_extra cluster m replicas in
          if missing \<noteq> [] \<and> extra \<noteq> [] then
            ''waiting for '' @ fmt_strings missing @ '' to become voters and '' @ fmt_strings extra @ '' to be evicted''
          else if missing \<noteq> [] then ''waiting for '' @ fmt_strings missing @ '' to become voters''
          else if extra \<noteq> [] then ''waiting for the cluster to evict '' @ fmt_strings extra
          else ''waiting for the roster to converge'')"

definition buildPlan :: "KahunaCluster \<Rightarrow> int32 \<Rightarrow> bool \<Rightarrow> Membership option \<Rightarrow> Placement option \<Rightarrow> goerr option \<Rightarrow> plan" where
  "buildPlan cluster currentReplicas bootstrapped m placement placementErr =
     (let target = desiredReplicas cluster in
      if \<not> bootstrapped then \<lparr>pl_Replicas = target, pl_Partition = 0, pl_Reason = []\<rparr>
      else
        let converged = rosterMatches cluster m currentReplicas;
            p = \<lparr>pl_Replicas = currentReplicas, pl_Partition = 0, pl_Reason = []\<rparr>
        in
        if \<not> converged then
          p\<lparr>pl_Partition := currentReplicas, pl_Reason := rosterHoldReason cluster m currentReplicas\<rparr>
        else case placementErr of
            Some err \<Rightarrow> p\<lparr>pl_Reason := ''waiting for replica placement to become readable: '' @ err_text err\<rparr>
          | None \<Rightarrow>
              let reason = snd (snd (placementSettled cluster placement currentReplicas)) in
              if reason \<noteq> [] then p\<lparr>pl_Reason := ''waiting for replica placement to settle: '' @ reason\<rparr>
              else if currentReplicas < target then p\<lparr>pl_Replicas := wrap32 (currentReplicas + 1)\<rparr>
              else if currentReplicas > target then
                (if currentReplicas > 1 then p\<lparr>pl_Replicas := wrap32 (currentReplicas - 1)\<rparr> else p)
              else p)"


section \<open>Walking one node at a time\<close>

locale one_node_stepper =
  fixes step :: "'e \<Rightarrow> int \<Rightarrow> int"
    and target :: "'e \<Rightarrow> int \<Rightarrow> int"
    and moves :: "'e \<Rightarrow> int \<Rightarrow> bool"
    and ok :: "'e \<Rightarrow> int \<Rightarrow> bool"
  assumes step_eq: "ok e n \<Longrightarrow> step e n = (if moves e n then n + sgn (target e n - n) else n)"
begin

lemma step_by_one: "ok e n \<Longrightarrow> \<bar>step e n - n\<bar> \<le> 1"
  by (simp add: step_eq sgn_if)

lemma step_toward: "ok e n \<Longrightarrow> \<bar>target e n - step e n\<bar> \<le> \<bar>target e n - n\<bar>"
  by (simp add: step_eq sgn_if)

lemma step_stays: "ok e n \<Longrightarrow> \<not> moves e n \<Longrightarrow> step e n = n"
  by (simp add: step_eq)

lemma step_between:
  "ok e n \<Longrightarrow> min n (target e n) \<le> step e n \<and> step e n \<le> max n (target e n)"
  by (auto simp: step_eq sgn_if)

text \<open>A run of passes moves the size by at most the number of passes.\<close>

lemma run_bound:
  assumes "\<And>e n. e \<in> set es \<Longrightarrow> Q n \<Longrightarrow> ok e n \<and> Q (step e n)" and "Q n"
  shows "\<bar>fold step es n - n\<bar> \<le> int (length es)"
  using assms
proof (induction es arbitrary: n)
  case (Cons e es)
  have "ok e n" "Q (step e n)" using Cons.prems by auto
  then have "\<bar>fold step es (step e n) - step e n\<bar> \<le> int (length es)" "\<bar>step e n - n\<bar> \<le> 1"
    using Cons.IH [of "step e n"] Cons.prems(1) step_by_one by auto
  then show ?case by simp
qed simp

text \<open>
  Passes that move toward one fixed target reach it in as many passes as it is away, and stay.
\<close>

lemma run_reaches:
  assumes "\<And>e n. e \<in> set es \<Longrightarrow> Q n \<Longrightarrow> ok e n \<and> moves e n \<and> target e n = T \<and> Q (step e n)"
    and "Q n" and "nat \<bar>T - n\<bar> \<le> length es"
  shows "fold step es n = T"
  using assms
proof (induction es arbitrary: n)
  case (Cons e es)
  have *: "ok e n" "moves e n" "target e n = T" "Q (step e n)" using Cons.prems by auto
  then have "step e n = n + sgn (T - n)" by (simp add: step_eq)
  then have "nat \<bar>T - step e n\<bar> \<le> length es"
    using Cons.prems(3) by (auto simp: sgn_if)
  then show ?case using Cons.IH [of "step e n"] Cons.prems(1) * by simp
qed simp

end

text \<open>
  The environment of a planning pass: the cluster and what is read of its roster and placement, as
  a function of the size the pass finds, because roster and placement follow the size.
\<close>

type_synonym plan_env = "int32 \<Rightarrow> KahunaCluster \<times> Membership option \<times> Placement option \<times> goerr option"

definition plan_step :: "plan_env \<Rightarrow> int32 \<Rightarrow> int32" where
  "plan_step e n = (case e n of (c, m, p, perr) \<Rightarrow> pl_Replicas (buildPlan c n True m p perr))"

definition plan_target :: "plan_env \<Rightarrow> int32 \<Rightarrow> int32" where
  "plan_target e n = desiredReplicas (fst (e n))"

definition plan_moves :: "plan_env \<Rightarrow> int32 \<Rightarrow> bool" where
  "plan_moves e n = (case e n of (c, m, p, perr) \<Rightarrow>
     rosterMatches c m n \<and> perr = None \<and> settled_reason c p n = [])"

definition plan_ok :: "plan_env \<Rightarrow> int32 \<Rightarrow> bool" where
  "plan_ok e n \<longleftrightarrow> 1 \<le> n \<and> in32 n \<and> 1 \<le> plan_target e n \<and> in32 (plan_target e n)"

lemma in32_step:
  "in32 n \<Longrightarrow> in32 t \<Longrightarrow> n < t \<Longrightarrow> in32 (n + 1)"
  "in32 n \<Longrightarrow> in32 t \<Longrightarrow> t < n \<Longrightarrow> in32 (n - 1)"
  by (auto simp: in32_def)

interpretation ps: one_node_stepper plan_step plan_target plan_moves plan_ok
proof
  fix e :: plan_env and n
  obtain c m p perr where e: "e n = (c, m, p, perr)" by (cases "e n")
  assume "plan_ok e n"
  then have *: "1 \<le> n" "in32 n" "1 \<le> desiredReplicas c" "in32 (desiredReplicas c)"
    by (simp_all add: plan_ok_def plan_target_def e)
  show "plan_step e n = (if plan_moves e n then n + sgn (plan_target e n - n) else n)"
    using * in32_step [OF *(2,4)]
    by (auto simp: e plan_step_def plan_moves_def plan_target_def buildPlan_def Let_def sgn_if
        split: option.splits)
qed

lemma plan_step_range:
  assumes "plan_ok e n"
  shows "1 \<le> plan_step e n" "in32 (plan_step e n)"
  using ps.step_between [OF assms] in32_between [of n "plan_target e n" "plan_step e n"]
    in32_between [of "plan_target e n" n "plan_step e n"] assms
  by (auto simp: plan_ok_def min_def max_def split: if_splits)


section \<open>Rosters that match\<close>

lemma rosterMatches_exact:
  assumes "in32 (int (length (mbr_Members m)))"
  shows "rosterMatches c (Some m) n \<longleftrightarrow>
    0 \<le> n \<and> mset (map mem_Endpoint (mbr_Members m)) = mset (map (raftEndpoint c) (range_int n)) \<and>
    (\<forall>x \<in> set (mbr_Members m). mem_Role x = RoleVoter)" (is "?L \<longleftrightarrow> ?R")
proof
  assume ?L
  with assms have "int (length (mbr_Members m)) = n" "\<forall>i \<in> {0..<n}. HasVoter m (raftEndpoint c i)"
    by (auto simp: rosterMatches_def list_all_iff split: if_splits)
  then show ?R using rn.voters_cover [of m n c] by (auto simp: rn.expected_def)
next
  assume ?R
  then show ?L using rn.voters_cover_conv [of m c n] assms
    by (auto simp: rosterMatches_def list_all_iff rn.expected_def)
qed

text \<open>A roster that does not match is explained: some node is missing or some member is extra.\<close>

lemma roster_mismatch:
  assumes "in32 (int (length (mbr_Members m)))" "0 \<le> n" "distinct (map mem_Endpoint (mbr_Members m))"
    and "roster_missing c m n = []" "roster_extra c m n = []"
  shows "rosterMatches c (Some m) n"
proof -
  let ?eps = "map mem_Endpoint (mbr_Members m)" and ?exp = "map (raftEndpoint c) (range_int n)"
  have v: "\<forall>i \<in> {0..<n}. HasVoter m (raftEndpoint c i)"
    using assms(4) by (auto simp: roster_missing_def filter_empty_conv)
  have "set ?eps \<subseteq> set ?exp"
    using assms(5) by (auto simp: roster_extra_def filter_empty_conv)
  moreover have "set ?exp \<subseteq> set ?eps"
    using v unfolding HasVoter_Voters Voters_def by auto
  ultimately have "mset ?eps = mset ?exp"
    using assms(3) rn.distinct_endpoints [of c n] by (metis set_eq_iff_mset_eq_distinct subset_antisym)
  then have "size (mset ?eps) = size (mset ?exp)" by simp
  then have "int (length (mbr_Members m)) = n" using assms(2) by simp
  then show ?thesis using assms(1) v by (auto simp: rosterMatches_def list_all_iff)
qed


section \<open>Properties\<close>

text \<open>
  C10: the roster matches a size n exactly when its members are the nodes 0 to n - 1, each listed
  once and each a voter: nothing missing, nothing extra, nothing still catching up.
\<close>

theorem rosterMatches_iff:
  assumes "in32 (int (length (mbr_Members m)))"
  shows "rosterMatches c (Some m) n \<longleftrightarrow>
    0 \<le> n \<and> mset (map mem_Endpoint (mbr_Members m)) = mset (map (raftEndpoint c) (range_int n)) \<and>
    (\<forall>x \<in> set (mbr_Members m). mem_Role x = RoleVoter)"
  using assms by (rule rosterMatches_exact)

definition example_roster :: "KahunaCluster \<Rightarrow> int32 list \<Rightarrow> Membership" where
  "example_roster c nodes = \<lparr>mbr_MembershipVersion = 1,
     mbr_Members = map (\<lambda>i. \<lparr>mem_Endpoint = raftEndpoint c i, mem_NodeID = nodeIDForOrdinal i,
       mem_Role = RoleVoter, mem_JoinedVersion = 1\<rparr>) nodes,
     mbr_LocalRole = RoleVoter, mbr_Initialized = True\<rparr>"

theorem rosterMatches_iff_witness:
  "rosterMatches example_cluster (Some (example_roster example_cluster [2, 0, 1])) 3"
proof -
  have "in32 (int (length (mbr_Members (example_roster example_cluster [2, 0, 1]))))"
    by (simp add: example_roster_def)
  from rosterMatches_iff [OF this, of example_cluster 3] show ?thesis
    by (simp add: example_roster_def range_int_def upto.simps)
qed

text \<open>
  C4: once bootstrapped, a pass changes the size by at most one node, toward the desired size and
  never below one; and it changes it only when the roster matches the current size, the placement
  was read, and no replica is moving or stranded.
\<close>

theorem buildPlan_one_step:
  assumes "1 \<le> n" "in32 n" "1 \<le> desiredReplicas c" "in32 (desiredReplicas c)"
  shows "let r = pl_Replicas (buildPlan c n True m p perr) in
    \<bar>r - n\<bar> \<le> 1 \<and> 1 \<le> r \<and> \<bar>desiredReplicas c - r\<bar> \<le> \<bar>desiredReplicas c - n\<bar> \<and>
    (r = n \<or> (rosterMatches c m n \<and> perr = None \<and> snd (snd (placementSettled c p n)) = []))"
proof -
  let ?e = "\<lambda>_. (c, m, p, perr)"
  have ok: "plan_ok ?e n" using assms by (simp add: plan_ok_def plan_target_def)
  have r: "pl_Replicas (buildPlan c n True m p perr) = plan_step ?e n" by (simp add: plan_step_def)
  show ?thesis
    unfolding r Let_def
    using plan_step_range(1) [OF ok] ps.step_by_one [OF ok] ps.step_toward [OF ok] ps.step_stays [OF ok]
    unfolding plan_target_def plan_moves_def prod.case fst_conv by blast
qed

theorem buildPlan_one_step_witness:
  "let r = pl_Replicas (buildPlan example_cluster 5 True None None None) in \<bar>r - 5\<bar> \<le> 1 \<and> 1 \<le> r"
  using buildPlan_one_step [of 5 example_cluster None None None]
  by (auto simp: Let_def desiredReplicas_def specReplicas_def example_cluster_def)

text \<open>
  While the roster does not match the current size of a bootstrapped cluster, the size stays and
  the rolling update is frozen for every ordinal; when it matches, the update may proceed.
\<close>

lemma buildPlan_freezes_updates:
  "let pl = buildPlan c n True m p perr in
     if rosterMatches c m n then pl_Partition pl = 0
     else pl_Partition pl = n \<and> pl_Replicas pl = n \<and> pl_Reason pl = rosterHoldReason c m n"
  by (auto simp: buildPlan_def Let_def split: option.splits)

text \<open>
  C14: while every pass finds the roster matching the size, the placement readable and settled, the
  size reaches the desired one in as many passes as it is nodes away, and stays there. The roster
  and placement a pass reads are functions of the size it finds.
\<close>

theorem buildPlan_reaches_target:
  assumes "1 \<le> n" "in32 n" "1 \<le> desiredReplicas c" "in32 (desiredReplicas c)"
    and "\<forall>e \<in> set passes. \<forall>k \<in> {min n (desiredReplicas c)..max n (desiredReplicas c)}.
      rosterMatches c (roster e k) k \<and> snd (snd (placementSettled c (placement e k) k)) = []"
    and "nat \<bar>desiredReplicas c - n\<bar> \<le> length passes"
  shows "fold (\<lambda>e k. pl_Replicas (buildPlan c k True (roster e k) (placement e k) None)) passes n =
    desiredReplicas c"
proof -
  let ?env = "\<lambda>e k. (c, roster e k, placement e k, None :: goerr option)"
  let ?Q = "\<lambda>k. k \<in> {min n (desiredReplicas c)..max n (desiredReplicas c)}"
  have step: "plan_step (?env e) = (\<lambda>k. pl_Replicas (buildPlan c k True (roster e k) (placement e k) None))" for e
    by (simp add: plan_step_def fun_eq_iff)
  have "fold plan_step (map ?env passes) n = desiredReplicas c"
  proof (rule ps.run_reaches [where Q = ?Q])
    fix e k assume "e \<in> set (map ?env passes)" and k: "?Q k"
    then obtain d where d: "e = ?env d" "d \<in> set passes" by auto
    have t: "plan_target e k = desiredReplicas c" by (simp add: d plan_target_def)
    have "in32 k" using k assms(2,4) by (auto simp: min_def max_def in32_def split: if_splits)
    moreover have "1 \<le> k" using k assms(1,3) by (auto simp: min_def split: if_splits)
    ultimately have ok: "plan_ok e k" using assms(3,4) by (simp add: plan_ok_def t)
    then have "?Q (plan_step e k)" using ps.step_between [OF ok] k unfolding t by auto
    moreover have "plan_moves e k" using d k assms(5) by (simp add: plan_moves_def)
    ultimately show "plan_ok e k \<and> plan_moves e k \<and> plan_target e k = desiredReplicas c \<and>
        ?Q (plan_step e k)"
      using ok t by blast
  qed (use assms in simp_all)
  then show ?thesis by (simp add: fold_map comp_def step)
qed

lemma example_roster_matches:
  assumes "0 \<le> k" "in32 k"
  shows "rosterMatches c (Some (example_roster c (range_int k))) k"
  using assms by (auto simp: rosterMatches_def example_roster_def list_all_iff HasVoter_iff)

theorem buildPlan_reaches_target_witness:
  "fold (\<lambda>e k. pl_Replicas (buildPlan example_cluster k True
       (Some (example_roster example_cluster (range_int k))) None None)) [(), ()] 1 = 3"
proof -
  have t: "desiredReplicas example_cluster = 3"
    by (simp add: desiredReplicas_def specReplicas_def example_cluster_def)
  show ?thesis
    using buildPlan_reaches_target [of 1 example_cluster "[(), ()]"
        "\<lambda>e k. Some (example_roster example_cluster (range_int k))" "\<lambda>e k. None"]
    by (simp add: t example_roster_matches in32_def)
qed

text \<open>
  A bootstrapped cluster that is not at its desired size and does not move says why; and while
  the roster it read does not match, the reason names a node that is not a voter yet or a member
  that does not belong, provided the roster lists no endpoint twice.
\<close>

lemma buildPlan_explains:
  assumes "1 \<le> n" "in32 n" "1 \<le> desiredReplicas c" "in32 (desiredReplicas c)"
  shows "(pl_Replicas (buildPlan c n True m p perr) = n \<and> desiredReplicas c \<noteq> n \<longrightarrow>
      pl_Reason (buildPlan c n True m p perr) \<noteq> []) \<and>
    (m = Some r \<and> \<not> rosterMatches c m n \<and> distinct (map mem_Endpoint (mbr_Members r)) \<and>
      in32 (int (length (mbr_Members r))) \<longrightarrow>
      (\<exists>i \<in> {0..<n}. \<not> HasVoter r (raftEndpoint c i)) \<or>
      (\<exists>x \<in> set (mbr_Members r). \<forall>i \<in> {0..<n}. mem_Endpoint x \<noteq> raftEndpoint c i))"
proof (intro conjI impI)
  let ?pl = "buildPlan c n True m p perr"
  assume "pl_Replicas ?pl = n \<and> desiredReplicas c \<noteq> n"
  then show "pl_Reason ?pl \<noteq> []"
    using assms in32_step [OF assms(2,4)]
    by (auto simp: buildPlan_def Let_def rosterHoldReason_def split: option.splits if_splits)
next
  assume h: "m = Some r \<and> \<not> rosterMatches c m n \<and> distinct (map mem_Endpoint (mbr_Members r)) \<and>
      in32 (int (length (mbr_Members r)))"
  then have "\<not> (roster_missing c r n = [] \<and> roster_extra c r n = [])"
    using roster_mismatch [of r n c] assms(1) by auto
  then show "(\<exists>i \<in> {0..<n}. \<not> HasVoter r (raftEndpoint c i)) \<or>
      (\<exists>x \<in> set (mbr_Members r). \<forall>i \<in> {0..<n}. mem_Endpoint x \<noteq> raftEndpoint c i)"
    by (auto simp: roster_missing_def roster_extra_def filter_empty_conv)
qed

lemma buildPlan_explains_witness:
  "pl_Replicas (buildPlan example_cluster 1 True None None None) = 1 \<and>
   pl_Reason (buildPlan example_cluster 1 True None None None) \<noteq> []"
  using buildPlan_explains [of 1 example_cluster None None None Membership_zero]
  by (simp add: desiredReplicas_def specReplicas_def example_cluster_def)
    (simp add: buildPlan_def rosterMatches_def)

end
