(* ===== verification/Status_Conditions.thy ===== *)
theory Status_Conditions
  imports API_Types
begin

text \<open>
  Writing and comparing status conditions, from \<open>src/internal/controller/kahunacluster_controller.go\<close>.
  \<open>SetStatusCondition\<close> and \<open>RemoveStatusCondition\<close> of apimachinery are a parameter
  (\<open>apimeta\<close>); \<open>apimeta_laws\<close> is their documented behaviour as far as the operator relies on it:
  the condition of the given type then carries the given status, reason and message (or is gone),
  and the conditions of every other type are left alone. \<open>apimeta_simple\<close> is an instance.
\<close>

record apimeta =
  am_Set :: "Condition list \<Rightarrow> Condition \<Rightarrow> Condition list"
  am_Remove :: "Condition list \<Rightarrow> string \<Rightarrow> Condition list"

definition setCondition :: "apimeta \<Rightarrow> KahunaClusterStatus \<Rightarrow> string \<Rightarrow> bool \<Rightarrow> string \<Rightarrow> string \<Rightarrow> string \<Rightarrow> KahunaClusterStatus" where
  "setCondition am status condType active trueReason falseReason message =
     status\<lparr>st_Conditions := am_Set am (st_Conditions status)
       \<lparr>cond_Type = condType, cond_Status = (if active then ConditionTrue else ConditionFalse),
        cond_Reason = (if active then trueReason else falseReason), cond_Message = message,
        cond_LastTransitionTime = 0\<rparr>\<rparr>"

text \<open>
  The comparison of two statuses without condition timestamps. \<open>Semantic.DeepEqual\<close> identifies nil
  and empty slices, as lists do.
\<close>

definition strip_times :: "KahunaClusterStatus \<Rightarrow> KahunaClusterStatus" where
  "strip_times s = s\<lparr>st_Conditions := map (\<lambda>c. c\<lparr>cond_LastTransitionTime := 0\<rparr>) (st_Conditions s)\<rparr>"

definition equalStatus :: "KahunaClusterStatus \<Rightarrow> KahunaClusterStatus \<Rightarrow> bool" where
  "equalStatus a b \<longleftrightarrow> strip_times a = strip_times b"


section \<open>The laws the operator relies on\<close>

definition condition_of :: "KahunaClusterStatus \<Rightarrow> string \<Rightarrow> (ConditionStatus \<times> string \<times> string) option" where
  "condition_of s t = map_option (\<lambda>c. (cond_Status c, cond_Reason c, cond_Message c))
     (find (\<lambda>c. cond_Type c = t) (st_Conditions s))"

abbreviation conditions_at :: "Condition list \<Rightarrow> string \<Rightarrow> (ConditionStatus \<times> string \<times> string) option" where
  "conditions_at cs t \<equiv> map_option (\<lambda>c. (cond_Status c, cond_Reason c, cond_Message c))
     (find (\<lambda>c. cond_Type c = t) cs)"

definition apimeta_laws :: "apimeta \<Rightarrow> bool" where
  "apimeta_laws am \<longleftrightarrow>
     (\<forall>cs c t. conditions_at (am_Set am cs c) t =
        (if t = cond_Type c then Some (cond_Status c, cond_Reason c, cond_Message c)
         else conditions_at cs t)) \<and>
     (\<forall>cs u t. conditions_at (am_Remove am cs u) t = (if t = u then None else conditions_at cs t))"

definition apimeta_simple :: apimeta where
  "apimeta_simple = \<lparr>am_Set = (\<lambda>cs c. filter (\<lambda>d. cond_Type d \<noteq> cond_Type c) cs @ [c]),
     am_Remove = (\<lambda>cs u. filter (\<lambda>d. cond_Type d \<noteq> u) cs)\<rparr>"

lemma find_filter_neq:
  "find (\<lambda>c. cond_Type c = t) (filter (\<lambda>d. cond_Type d \<noteq> u) cs) =
     (if t = u then None else find (\<lambda>c. cond_Type c = t) cs)"
  by (induction cs) auto

lemma find_append: "find P (xs @ ys) = (case find P xs of None \<Rightarrow> find P ys | Some x \<Rightarrow> Some x)"
  by (induction xs) auto

lemma apimeta_simple_laws: "apimeta_laws apimeta_simple"
  by (auto simp: apimeta_laws_def apimeta_simple_def find_append find_filter_neq split: option.splits)

lemma condition_of_setCondition [simp]:
  "apimeta_laws am \<Longrightarrow> condition_of (setCondition am s t active tr fr msg) u =
     (if u = t then Some (if active then ConditionTrue else ConditionFalse, if active then tr else fr, msg)
      else condition_of s u)"
  by (simp add: apimeta_laws_def condition_of_def setCondition_def)

lemma setCondition_fields [simp]:
  "st_ObservedGeneration (setCondition am s t a tr fr msg) = st_ObservedGeneration s"
  "st_Phase (setCondition am s t a tr fr msg) = st_Phase s"
  "st_Replicas (setCondition am s t a tr fr msg) = st_Replicas s"
  "st_ReadyReplicas (setCondition am s t a tr fr msg) = st_ReadyReplicas s"
  "st_Voters (setCondition am s t a tr fr msg) = st_Voters s"
  "st_Learners (setCondition am s t a tr fr msg) = st_Learners s"
  "st_MembershipVersion (setCondition am s t a tr fr msg) = st_MembershipVersion s"
  "st_Members (setCondition am s t a tr fr msg) = st_Members s"
  "st_Bootstrapped (setCondition am s t a tr fr msg) = st_Bootstrapped s"
  "st_BootstrapSize (setCondition am s t a tr fr msg) = st_BootstrapSize s"
  "st_CurrentImage (setCondition am s t a tr fr msg) = st_CurrentImage s"
  "st_UpdatePartition (setCondition am s t a tr fr msg) = st_UpdatePartition s"
  "st_Autoscaling (setCondition am s t a tr fr msg) = st_Autoscaling s"
  "st_Backup (setCondition am s t a tr fr msg) = st_Backup s"
  by (simp_all add: setCondition_def)

lemma equalStatus_refl [simp]: "equalStatus s s"
  by (simp add: equalStatus_def)

lemma strip_times_fields:
  assumes "equalStatus a b"
  shows "st_Autoscaling a = st_Autoscaling b" "st_Backup a = st_Backup b"
    "st_Bootstrapped a = st_Bootstrapped b" "st_BootstrapSize a = st_BootstrapSize b"
    "st_Phase a = st_Phase b"
proof -
  have *: "strip_times a = strip_times b" using assms by (simp add: equalStatus_def)
  show "st_Autoscaling a = st_Autoscaling b"
    using arg_cong [OF *, of st_Autoscaling] by (simp add: strip_times_def)
  show "st_Backup a = st_Backup b" using arg_cong [OF *, of st_Backup] by (simp add: strip_times_def)
  show "st_Bootstrapped a = st_Bootstrapped b"
    using arg_cong [OF *, of st_Bootstrapped] by (simp add: strip_times_def)
  show "st_BootstrapSize a = st_BootstrapSize b"
    using arg_cong [OF *, of st_BootstrapSize] by (simp add: strip_times_def)
  show "st_Phase a = st_Phase b" using arg_cong [OF *, of st_Phase] by (simp add: strip_times_def)
qed

end
