(* ===== verification/Autoscaler.thy ===== *)
theory Autoscaler
  imports Scale_Plan Status_Conditions
begin

text \<open>
  The traffic-driven autoscaler, from \<open>src/internal/controller/autoscaler.go\<close>: turning counters into
  rates, averaging them per node, and deciding the node count.

  The sampler's state is a map from clusters to a map from pod UIDs to samples; the mutex around it
  makes each use atomic, so state passing models it. \<open>query\<close> stands for the client's \<open>Metrics\<close>,
  \<open>now\<close> for \<open>time.Now()\<close>. \<open>decideAutoscale\<close> is split into the stages of the source's
  function: the starting state, the ratios, the recommendation and the step.
\<close>


section \<open>Constants\<close>

definition metricWritesAdmitted :: string where
  "metricWritesAdmitted = ''kahuna.kv.write.admitted''"
definition metricClientQueueDepth :: string where
  "metricClientQueueDepth = ''raft.executor.client_queue_depth''"
definition minSampleInterval :: duration where "minSampleInterval = 10 * second"
definition requeueAutoscaling :: duration where "requeueAutoscaling = 15 * second"
definition defaultScaleUpStabilization :: duration where "defaultScaleUpStabilization = 60 * second"
definition defaultScaleDownStabilization :: duration where
  "defaultScaleDownStabilization = 300 * second"
definition defaultTolerancePercent :: int where "defaultTolerancePercent = 10"


section \<open>Sampling\<close>

record podSample =
  smp_writesTotal :: f64
  smp_monotonicMs :: int64
  smp_rate :: f64
  smp_hasRate :: bool

type_synonym pod_samples = "string \<rightharpoonup> podSample"
type_synonym cluster_key = "string \<times> string" \<comment> \<open>namespace and name\<close>
type_synonym trafficSampler = "cluster_key \<rightharpoonup> pod_samples"

definition cluster_key :: "KahunaCluster \<Rightarrow> cluster_key" where
  "cluster_key c = (kc_Namespace c, kc_Name c)"

definition observeSample :: "pod_samples \<Rightarrow> string \<Rightarrow> f64 \<Rightarrow> int64 \<Rightarrow> pod_samples \<times> f64 \<times> bool" where
  "observeSample samples uid tot monotonicMs =
     (let fresh = (samples(uid \<mapsto> \<lparr>smp_writesTotal = tot, smp_monotonicMs = monotonicMs,
                     smp_rate = Fin 0, smp_hasRate = False\<rparr>), Fin 0, False)
      in case samples uid of
          None \<Rightarrow> fresh
        | Some prev \<Rightarrow>
            if f_less tot (smp_writesTotal prev) \<or> monotonicMs \<le> smp_monotonicMs prev then fresh
            else
              let d = wrap64 (monotonicMs - smp_monotonicMs prev) in
              if wrap64 (d * millisecond) < minSampleInterval then (samples, smp_rate prev, smp_hasRate prev)
              else
                let rate = f_div (f_sub tot (smp_writesTotal prev)) (f_div (of_int64 d) (Fin 1000)) in
                (samples(uid \<mapsto> \<lparr>smp_writesTotal = tot, smp_monotonicMs = monotonicMs,
                   smp_rate = rate, smp_hasRate = True\<rparr>), rate, True))"

record trafficSignal =
  sig_writesPerNode :: "f64 option"
  sig_queuePerNode :: "f64 option"

definition trafficSignal_zero :: trafficSignal where
  "trafficSignal_zero = \<lparr>sig_writesPerNode = None, sig_queuePerNode = None\<rparr>"

definition ready_pods :: "Pod list \<Rightarrow> Pod list" where
  "ready_pods pods = filter (\<lambda>p. pod_PodIP p \<noteq> [] \<and> pod_DeletionTimestamp p = None \<and> podIsReady p) pods"

fun fetch_metrics :: "(string \<Rightarrow> goerr + Metrics) \<Rightarrow> KahunaCluster \<Rightarrow> Pod list \<Rightarrow> goerr + (Pod \<times> Metrics) list" where
  "fetch_metrics query cluster [] = Inr []"
| "fetch_metrics query cluster (p # ps) =
     (case query (podBaseURL cluster p) of
        Inl err \<Rightarrow> Inl (WrapErr (''reading metrics from '' @ pod_Name p) err)
      | Inr m \<Rightarrow> (case fetch_metrics query cluster ps of Inl e \<Rightarrow> Inl e | Inr rs \<Rightarrow> Inr ((p, m) # rs)))"

record measure_acc =
  mac_samples :: pod_samples
  mac_writes :: f64
  mac_queue :: f64
  mac_known :: bool

definition measure_one :: "Pod \<times> Metrics \<Rightarrow> measure_acc \<Rightarrow> measure_acc" where
  "measure_one r acc =
     (let tot = fst (CounterTotal (snd r) metricWritesAdmitted);
          depth = fst (GaugeSum (snd r) metricClientQueueDepth);
          (samples, rate, known) = observeSample (mac_samples acc) (pod_UID (fst r)) tot (mtr_MonotonicMs (snd r))
      in \<lparr>mac_samples = samples, mac_writes = f_add (mac_writes acc) rate,
          mac_queue = f_add (mac_queue acc) depth, mac_known = (mac_known acc \<and> known)\<rparr>)"

definition measure_traffic :: "(string \<Rightarrow> goerr + Metrics) \<Rightarrow> KahunaCluster \<Rightarrow> Pod list \<Rightarrow> trafficSampler \<Rightarrow> trafficSampler \<times> trafficSignal \<times> goerr option" where
  "measure_traffic query cluster pods traffic =
     (let ready = ready_pods pods in
      if ready = [] then (traffic, trafficSignal_zero, Some (Errorf ''no ready pod to read metrics from''))
      else case fetch_metrics query cluster ready of
          Inl err \<Rightarrow> (traffic, trafficSignal_zero, Some err)
        | Inr readings \<Rightarrow>
            let samples = (case traffic (cluster_key cluster) of None \<Rightarrow> Map.empty | Some s \<Rightarrow> s);
                acc = fold measure_one readings
                  \<lparr>mac_samples = samples, mac_writes = Fin 0, mac_queue = Fin 0, mac_known = True\<rparr>;
                live = set (map pod_UID ready);
                n = of_int64 (int (length ready))
            in (traffic(cluster_key cluster \<mapsto> mac_samples acc |` live),
                \<lparr>sig_writesPerNode = (if mac_known acc then Some (f_div (mac_writes acc) n) else None),
                 sig_queuePerNode = Some (f_div (mac_queue acc) n)\<rparr>,
                None))"

definition traffic_forget :: "trafficSampler \<Rightarrow> cluster_key \<Rightarrow> trafficSampler" where
  "traffic_forget traffic key = traffic(key := None)"


section \<open>Deciding\<close>

record autoscaleInput =
  ai_spec :: AutoscalingSpec
  ai_prev :: "AutoscalingStatus option"
  ai_initial :: int32
  ai_signal :: trafficSignal
  ai_converged :: bool
  ai_growthCeiling :: int32
  ai_ceilingReason :: string
  ai_now :: gotime

record autoscaleDecision =
  ad_status :: AutoscalingStatus
  ad_limited :: bool
  ad_reason :: string

definition secondsOr :: "int32 option \<Rightarrow> duration \<Rightarrow> duration" where
  "secondsOr v fallback = (case v of None \<Rightarrow> fallback | Some s \<Rightarrow> wrap64 (s * second))"

definition roundedPtr :: "f64_impl \<Rightarrow> f64 option \<Rightarrow> int64 option" where
  "roundedPtr impl v = (case v of None \<Rightarrow> None | Some x \<Rightarrow> Some (to_int64 impl (f_round x)))"

definition autoscale_start :: "f64_impl \<Rightarrow> autoscaleInput \<Rightarrow> AutoscalingStatus" where
  "autoscale_start impl inp =
     (let spec = ai_spec inp;
          st = (case ai_prev inp of None \<Rightarrow> AutoscalingStatus_zero | Some p \<Rightarrow> p);
          st = (if ast_DesiredReplicas st = 0 then st\<lparr>ast_DesiredReplicas := ai_initial inp\<rparr> else st);
          clamped = min (max (ast_DesiredReplicas st) (aus_MinReplicas spec)) (aus_MaxReplicas spec);
          st = (if clamped \<noteq> ast_DesiredReplicas st
                then st\<lparr>ast_DesiredReplicas := clamped, ast_LastScaleTime := Some (ai_now inp)\<rparr> else st)
      in st\<lparr>ast_WritesPerSecondPerNode := roundedPtr impl (sig_writesPerNode (ai_signal inp)),
            ast_QueueDepthPerNode := roundedPtr impl (sig_queuePerNode (ai_signal inp))\<rparr>)"

definition autoscale_hold :: "AutoscalingStatus \<Rightarrow> string \<Rightarrow> autoscaleDecision" where
  "autoscale_hold st reason =
     \<lparr>ad_status = st\<lparr>ast_RecommendedReplicas := ast_DesiredReplicas st,
        ast_AboveTargetSince := None, ast_BelowTargetSince := None\<rparr>,
      ad_limited = (reason \<noteq> []), ad_reason = reason\<rparr>"

definition signal_ratio :: "int32 option \<Rightarrow> f64 option \<Rightarrow> f64 list \<times> bool" where
  "signal_ratio t v =
     (case t of
        None \<Rightarrow> ([], True)
      | Some t \<Rightarrow> (case v of Some x \<Rightarrow> ([f_div x (of_int64 t)], True) | None \<Rightarrow> ([], False)))"

definition autoscale_ratios :: "AutoscalingSpec \<Rightarrow> trafficSignal \<Rightarrow> f64 list \<times> bool" where
  "autoscale_ratios spec sig =
     (let (ws, wk) = signal_ratio (aus_TargetWritesPerSecond spec) (sig_writesPerNode sig);
          (qs, qk) = signal_ratio (aus_TargetQueueDepth spec) (sig_queuePerNode sig)
      in (ws @ qs, wk \<and> qk))"

definition autoscale_tolerance :: "AutoscalingSpec \<Rightarrow> f64" where
  "autoscale_tolerance spec =
     (case aus_TolerancePercent spec of
        None \<Rightarrow> f_div (of_int64 defaultTolerancePercent) (Fin 100)
      | Some t \<Rightarrow> f_div (of_int64 t) (Fin 100))"

definition autoscale_recommend :: "f64_impl \<Rightarrow> AutoscalingSpec \<Rightarrow> int32 \<Rightarrow> f64 \<Rightarrow> bool \<Rightarrow> int32" where
  "autoscale_recommend impl spec current ratio allKnown =
     (let rec = (if f_less (autoscale_tolerance spec) (f_abs (f_sub ratio (Fin 1)))
                 then to_int32 impl (f_ceil (f_mul (of_int64 current) ratio)) else current);
          rec = (if rec < current \<and> \<not> allKnown then current else rec)
      in min (max rec (aus_MinReplicas spec)) (aus_MaxReplicas spec))"

definition upWindow :: "AutoscalingSpec \<Rightarrow> duration" where
  "upWindow spec = secondsOr (aus_ScaleUpStabilizationSeconds spec) defaultScaleUpStabilization"

definition downWindow :: "AutoscalingSpec \<Rightarrow> duration" where
  "downWindow spec = secondsOr (aus_ScaleDownStabilizationSeconds spec) defaultScaleDownStabilization"

text \<open>
  The step: the new status, or the ceiling's refusal. \<open>st\<close> carries the current size, \<open>rec\<close>
  the recommendation.
\<close>

definition autoscale_step :: "autoscaleInput \<Rightarrow> AutoscalingStatus \<Rightarrow> int32 \<Rightarrow> autoscaleDecision + AutoscalingStatus" where
  "autoscale_step inp st rec =
     (let spec = ai_spec inp; current = ast_DesiredReplicas st; now = ai_now inp in
      if rec > current then
        let st = st\<lparr>ast_BelowTargetSince := None\<rparr> in
        if ai_growthCeiling inp > 0 \<and> current \<ge> ai_growthCeiling inp then
          Inl \<lparr>ad_status = st\<lparr>ast_AboveTargetSince := None\<rparr>, ad_limited = True,
            ad_reason = ai_ceilingReason inp\<rparr>
        else
          let since = (case ast_AboveTargetSince st of None \<Rightarrow> now | Some t \<Rightarrow> t);
              st = st\<lparr>ast_AboveTargetSince := Some since\<rparr>
          in Inr (if Sub now since \<ge> upWindow spec
                  then st\<lparr>ast_DesiredReplicas := wrap32 (current + 1), ast_LastScaleTime := Some now,
                          ast_AboveTargetSince := None\<rparr>
                  else st)
      else if rec < current then
        let st = st\<lparr>ast_AboveTargetSince := None\<rparr>;
            since = (case ast_BelowTargetSince st of None \<Rightarrow> now | Some t \<Rightarrow> t);
            st = st\<lparr>ast_BelowTargetSince := Some since\<rparr>
        in Inr (if Sub now since \<ge> downWindow spec
                then st\<lparr>ast_DesiredReplicas := wrap32 (current - 1), ast_LastScaleTime := Some now,
                        ast_BelowTargetSince := None\<rparr>
                else st)
      else Inr (st\<lparr>ast_AboveTargetSince := None, ast_BelowTargetSince := None\<rparr>))"

definition decideAutoscale :: "f64_impl \<Rightarrow> autoscaleInput \<Rightarrow> autoscaleDecision" where
  "decideAutoscale impl inp =
     (let spec = ai_spec inp; st = autoscale_start impl inp in
      if \<not> ai_converged inp then autoscale_hold st []
      else case autoscale_ratios spec (ai_signal inp) of
          ([], _) \<Rightarrow> autoscale_hold st ''no traffic signal is available yet''
        | (r # rs, allKnown) \<Rightarrow>
            let ratio = foldl f_max r rs;
                tolerance = autoscale_tolerance spec;
                rec = autoscale_recommend impl spec (ast_DesiredReplicas st) ratio allKnown
            in (case autoscale_step inp (st\<lparr>ast_RecommendedReplicas := rec\<rparr>) rec of
                  Inl d \<Rightarrow> d
                | Inr st' \<Rightarrow>
                    if rec = aus_MaxReplicas spec \<and> f_less (f_add (Fin 1) tolerance) ratio then
                      \<lparr>ad_status = st', ad_limited = True,
                       ad_reason = ''traffic asks for more than maxReplicas ('' @ itoa (aus_MaxReplicas spec) @ '')''\<rparr>
                    else \<lparr>ad_status = st', ad_limited = False, ad_reason = []\<rparr>))"


section \<open>A pass\<close>

definition sized_members :: "int32 \<Rightarrow> Pod list \<Rightarrow> Pod list" where
  "sized_members current pods =
     filter (\<lambda>p. \<not> (ordinalOf (pod_Name p) < 0 \<or> ordinalOf (pod_Name p) \<ge> current)) pods"

definition ready_count :: "Pod list \<Rightarrow> int32" where
  "ready_count members =
     wrap32 (int (length (filter (\<lambda>p. podIsReady p \<and> pod_DeletionTimestamp p = None) members)))"

text \<open>Whether the last step has landed, and what is still awaited when the roster says it has.\<close>

definition autoscale_converged :: "KahunaCluster \<Rightarrow> bool \<Rightarrow> Membership option \<Rightarrow> Placement option \<Rightarrow> goerr option \<Rightarrow> Pod list \<Rightarrow> gotime \<Rightarrow> panic + (bool \<times> string)" where
  "autoscale_converged cluster bootstrapped membership placement placementErr pods now =
     (let current = desiredReplicas cluster in
      if \<not> (bootstrapped \<and> rosterMatches cluster membership current \<and>
            ready_count (sized_members current pods) = current) then Inr (False, [])
      else case placementErr of
          Some err \<Rightarrow> Inr (False, ''replica placement could not be read: '' @ err_text err)
        | None \<Rightarrow>
            placementConverged cluster placement current now
              (case st_Autoscaling (kc_Status cluster) of
                 Some as \<Rightarrow> map_option (\<lambda>t. Add t placementSettleTimeout) (ast_LastScaleTime as)
               | None \<Rightarrow> None))"

definition autoscale_report :: "autoscaleDecision \<Rightarrow> goerr option \<Rightarrow> string \<Rightarrow> autoscaleDecision" where
  "autoscale_report d measureErr waiting =
     (case measureErr of
        Some err \<Rightarrow> d\<lparr>ad_limited := True,
          ad_reason := ''traffic metrics could not be read: '' @ err_text err\<rparr>
      | None \<Rightarrow>
          if waiting \<noteq> [] then d\<lparr>ad_reason := ''waiting for replica placement to settle: '' @ waiting\<rparr>
          else d)"

definition autoscale_message :: "autoscaleDecision \<Rightarrow> string" where
  "autoscale_message d =
     (if ad_reason d = [] then
        ''desired '' @ itoa (ast_DesiredReplicas (ad_status d)) @ '', recommended '' @
        itoa (ast_RecommendedReplicas (ad_status d))
      else ad_reason d)"

definition reconcileAutoscaling :: "f64_impl \<Rightarrow> apimeta \<Rightarrow> (string \<Rightarrow> goerr + Metrics) \<Rightarrow> gotime \<Rightarrow> KahunaCluster \<Rightarrow> bool \<Rightarrow> Membership option \<Rightarrow> Placement option \<Rightarrow> goerr option \<Rightarrow> Pod list \<Rightarrow> trafficSampler \<Rightarrow> panic + (KahunaClusterStatus \<times> trafficSampler)" where
  "reconcileAutoscaling impl am query now cluster bootstrapped membership placement placementErr pods traffic =
     (case kc_Autoscaling cluster of
        None \<Rightarrow>
          Inr ((kc_Status cluster)\<lparr>st_Autoscaling := None,
                 st_Conditions := am_Remove am (st_Conditions (kc_Status cluster)) ConditionAutoscalingLimited\<rparr>,
               traffic_forget traffic (cluster_key cluster))
      | Some spec \<Rightarrow>
          (case autoscale_converged cluster bootstrapped membership placement placementErr pods now of
             Inl p \<Rightarrow> Inl p
           | Inr (converged, waiting) \<Rightarrow>
               let current = desiredReplicas cluster;
                   inp = \<lparr>ai_spec = spec, ai_prev = st_Autoscaling (kc_Status cluster),
                      ai_initial = initialAutoscaledReplicas cluster spec, ai_signal = trafficSignal_zero,
                      ai_converged = converged, ai_growthCeiling = 0, ai_ceilingReason = [], ai_now = now\<rparr>;
                   (traffic', sig, measureErr) =
                     (if converged then measure_traffic query cluster (sized_members current pods) traffic
                      else (traffic, trafficSignal_zero, None))
               in case (if converged then growthCeiling placement else Inr (0, [])) of
                    Inl p \<Rightarrow> Inl p
                  | Inr (limit, ceilingReason) \<Rightarrow>
                      let d = autoscale_report (decideAutoscale impl (inp\<lparr>ai_signal := sig,
                            ai_growthCeiling := limit, ai_ceilingReason := ceilingReason\<rparr>)) measureErr waiting
                      in Inr (setCondition am ((kc_Status cluster)\<lparr>st_Autoscaling := Some (ad_status d)\<rparr>)
                                ConditionAutoscalingLimited (ad_limited d) ''Limited'' ''WithinLimits''
                                (autoscale_message d),
                              traffic')))"


section \<open>The decision as a step\<close>

text \<open>
  The size a decision starts from, the recommendation it makes (if it makes one), since when the
  traffic has been above or below target, and whether a step is due.
\<close>

definition base_size :: "autoscaleInput \<Rightarrow> int32" where
  "base_size inp =
     (let d = (case ai_prev inp of None \<Rightarrow> 0 | Some p \<Rightarrow> ast_DesiredReplicas p);
          d = (if d = 0 then ai_initial inp else d)
      in min (max d (aus_MinReplicas (ai_spec inp))) (aus_MaxReplicas (ai_spec inp)))"

definition recommendation :: "f64_impl \<Rightarrow> autoscaleInput \<Rightarrow> int32 option" where
  "recommendation impl inp =
     (if \<not> ai_converged inp then None
      else case autoscale_ratios (ai_spec inp) (ai_signal inp) of
          ([], _) \<Rightarrow> None
        | (r # rs, allKnown) \<Rightarrow>
            Some (autoscale_recommend impl (ai_spec inp) (base_size inp) (foldl f_max r rs) allKnown))"

definition above_since :: "autoscaleInput \<Rightarrow> gotime" where
  "above_since inp = (case ai_prev inp of None \<Rightarrow> ai_now inp
     | Some p \<Rightarrow> (case ast_AboveTargetSince p of None \<Rightarrow> ai_now inp | Some t \<Rightarrow> t))"

definition below_since :: "autoscaleInput \<Rightarrow> gotime" where
  "below_since inp = (case ai_prev inp of None \<Rightarrow> ai_now inp
     | Some p \<Rightarrow> (case ast_BelowTargetSince p of None \<Rightarrow> ai_now inp | Some t \<Rightarrow> t))"

definition up_due :: "f64_impl \<Rightarrow> autoscaleInput \<Rightarrow> bool" where
  "up_due impl inp = (case recommendation impl inp of None \<Rightarrow> False | Some rec \<Rightarrow>
     base_size inp < rec \<and> \<not> (0 < ai_growthCeiling inp \<and> ai_growthCeiling inp \<le> base_size inp) \<and>
     upWindow (ai_spec inp) \<le> Sub (ai_now inp) (above_since inp))"

definition down_due :: "f64_impl \<Rightarrow> autoscaleInput \<Rightarrow> bool" where
  "down_due impl inp = (case recommendation impl inp of None \<Rightarrow> False | Some rec \<Rightarrow>
     rec < base_size inp \<and> downWindow (ai_spec inp) \<le> Sub (ai_now inp) (below_since inp))"

lemma autoscale_start_fields:
  "ast_DesiredReplicas (autoscale_start impl inp) = base_size inp"
  "ast_AboveTargetSince (autoscale_start impl inp) = (case ai_prev inp of None \<Rightarrow> None | Some p \<Rightarrow> ast_AboveTargetSince p)"
  "ast_BelowTargetSince (autoscale_start impl inp) = (case ai_prev inp of None \<Rightarrow> None | Some p \<Rightarrow> ast_BelowTargetSince p)"
  by (auto simp: autoscale_start_def base_size_def Let_def AutoscalingStatus_zero_def split: option.splits)

lemma base_size_bounds:
  "valid_autoscaling (ai_spec inp) \<Longrightarrow>
     aus_MinReplicas (ai_spec inp) \<le> base_size inp \<and> base_size inp \<le> aus_MaxReplicas (ai_spec inp)"
  by (auto simp: base_size_def Let_def valid_autoscaling_def)

lemma autoscale_recommend_bounds:
  "valid_autoscaling spec \<Longrightarrow> aus_MinReplicas spec \<le> autoscale_recommend impl spec n ratio known \<and>
     autoscale_recommend impl spec n ratio known \<le> aus_MaxReplicas spec"
  by (auto simp: autoscale_recommend_def Let_def valid_autoscaling_def)

lemma recommendation_bounds:
  "valid_autoscaling (ai_spec inp) \<Longrightarrow> recommendation impl inp = Some rec \<Longrightarrow>
     aus_MinReplicas (ai_spec inp) \<le> rec \<and> rec \<le> aus_MaxReplicas (ai_spec inp)"
  using autoscale_recommend_bounds
  by (auto simp: recommendation_def split: if_splits prod.splits list.splits)

lemma base_size_in32:
  assumes "valid_autoscaling (ai_spec inp)"
  shows "in32 (base_size inp)"
  using base_size_bounds [OF assms] assms
  by (auto simp: valid_autoscaling_def intro: in32_between)

lemma step_in32:
  assumes "valid_autoscaling (ai_spec inp)" "recommendation impl inp = Some rec"
  shows "base_size inp < rec \<Longrightarrow> in32 (base_size inp + 1)" "rec < base_size inp \<Longrightarrow> in32 (base_size inp - 1)"
proof -
  have "in32 rec"
    using recommendation_bounds [OF assms] assms(1) by (auto simp: valid_autoscaling_def intro: in32_between)
  then show "base_size inp < rec \<Longrightarrow> in32 (base_size inp + 1)" "rec < base_size inp \<Longrightarrow> in32 (base_size inp - 1)"
    using base_size_in32 [OF assms(1)] in32_step by blast+
qed

text \<open>The status after a decision, stage by stage.\<close>

lemma decide_no_recommendation:
  assumes "recommendation impl inp = None"
  shows "ad_status (decideAutoscale impl inp) =
    (autoscale_start impl inp)\<lparr>ast_RecommendedReplicas := base_size inp,
       ast_AboveTargetSince := None, ast_BelowTargetSince := None\<rparr>"
  using assms
  by (auto simp: recommendation_def decideAutoscale_def Let_def autoscale_hold_def autoscale_start_fields
      split: if_splits prod.splits list.splits)

lemma decide_recommendation:
  assumes "recommendation impl inp = Some rec"
  shows "ad_status (decideAutoscale impl inp) =
    (case autoscale_step inp ((autoscale_start impl inp)\<lparr>ast_RecommendedReplicas := rec\<rparr>) rec of
       Inl d \<Rightarrow> ad_status d | Inr st \<Rightarrow> st)"
  using assms
  by (auto simp: recommendation_def decideAutoscale_def Let_def autoscale_start_fields
      split: if_splits prod.splits list.splits sum.splits)

lemma decide_desired:
  assumes "valid_autoscaling (ai_spec inp)"
  shows "ast_DesiredReplicas (ad_status (decideAutoscale impl inp)) =
    (if up_due impl inp then base_size inp + 1
     else if down_due impl inp then base_size inp - 1 else base_size inp)"
proof (cases "recommendation impl inp")
  case None
  then show ?thesis
    by (simp add: decide_no_recommendation up_due_def down_due_def autoscale_start_fields)
next
  case (Some rec)
  note r = step_in32 [OF assms Some]
  consider "base_size inp < rec" | "rec < base_size inp" | "rec = base_size inp" by linarith
  then show ?thesis
  proof cases
    case 1
    with r(1) Some show ?thesis
      by (simp add: decide_recommendation autoscale_step_def Let_def autoscale_start_fields
          up_due_def down_due_def above_since_def split: option.splits)
  next
    case 2
    with r(2) Some show ?thesis
      by (simp add: decide_recommendation autoscale_step_def Let_def autoscale_start_fields
          up_due_def down_due_def below_since_def split: option.splits)
  next
    case 3
    with Some show ?thesis
      by (simp add: decide_recommendation autoscale_step_def Let_def autoscale_start_fields
          up_due_def down_due_def)
  qed
qed

lemma up_due_not_down: "up_due impl inp \<Longrightarrow> \<not> down_due impl inp"
  by (auto simp: up_due_def down_due_def split: option.splits)

text \<open>A recommendation below the current size needs every targeted signal.\<close>

lemma recommend_partial:
  assumes "aus_MinReplicas spec \<le> n" "n \<le> aus_MaxReplicas spec"
  shows "n \<le> autoscale_recommend impl spec n ratio False"
  using assms by (auto simp: autoscale_recommend_def Let_def)

lemma recommend_dead_band:
  assumes "aus_MinReplicas spec \<le> n" "n \<le> aus_MaxReplicas spec"
    and "\<not> f_less (autoscale_tolerance spec) (f_abs (f_sub ratio (Fin 1)))"
  shows "autoscale_recommend impl spec n ratio known = n"
  using assms by (auto simp: autoscale_recommend_def Let_def)

text \<open>The autoscaler as a stepper: the environment is the input, the size its previous desired one.\<close>

definition with_size :: "autoscaleInput \<Rightarrow> int32 \<Rightarrow> autoscaleInput" where
  "with_size inp n = inp\<lparr>ai_prev := Some ((case ai_prev inp of None \<Rightarrow> AutoscalingStatus_zero | Some p \<Rightarrow> p)
     \<lparr>ast_DesiredReplicas := n\<rparr>)\<rparr>"

definition autoscale_size :: "f64_impl \<times> autoscaleInput \<Rightarrow> int32 \<Rightarrow> int32" where
  "autoscale_size e n = ast_DesiredReplicas (ad_status (decideAutoscale (fst e) (with_size (snd e) n)))"

definition autoscale_target :: "f64_impl \<times> autoscaleInput \<Rightarrow> int32 \<Rightarrow> int32" where
  "autoscale_target e n = (case recommendation (fst e) (with_size (snd e) n) of None \<Rightarrow> n | Some rec \<Rightarrow> rec)"

definition autoscale_moves :: "f64_impl \<times> autoscaleInput \<Rightarrow> int32 \<Rightarrow> bool" where
  "autoscale_moves e n \<longleftrightarrow>
     up_due (fst e) (with_size (snd e) n) \<or> down_due (fst e) (with_size (snd e) n)"

definition autoscale_ok :: "f64_impl \<times> autoscaleInput \<Rightarrow> int32 \<Rightarrow> bool" where
  "autoscale_ok e n \<longleftrightarrow> valid_autoscaling (ai_spec (snd e)) \<and>
     aus_MinReplicas (ai_spec (snd e)) \<le> n \<and> n \<le> aus_MaxReplicas (ai_spec (snd e))"

lemma base_size_with_size: "autoscale_ok (impl, inp) n \<Longrightarrow> base_size (with_size inp n) = n"
  by (auto simp: base_size_def with_size_def autoscale_ok_def valid_autoscaling_def Let_def)

interpretation as: one_node_stepper autoscale_size autoscale_target autoscale_moves autoscale_ok
proof
  fix e :: "f64_impl \<times> autoscaleInput" and n
  obtain impl inp where e: "e = (impl, inp)" by (cases e)
  assume ok: "autoscale_ok e n"
  let ?i = "with_size inp n"
  have v: "valid_autoscaling (ai_spec ?i)" using ok by (simp add: e autoscale_ok_def with_size_def)
  have b: "base_size ?i = n" using ok base_size_with_size by (simp add: e)
  show "autoscale_size e n = (if autoscale_moves e n then n + sgn (autoscale_target e n - n) else n)"
    unfolding autoscale_size_def autoscale_moves_def autoscale_target_def e fst_conv snd_conv
      decide_desired [OF v] b
    by (auto simp: up_due_def down_due_def b sgn_if split: option.splits)
qed


section \<open>Samples and signals\<close>

text \<open>A stored sample of a counter that is finite and never negative.\<close>

definition sample_ok :: "podSample \<Rightarrow> bool" where
  "sample_ok s \<longleftrightarrow> (\<exists>x \<ge> 0. smp_writesTotal s = Fin x) \<and> 0 \<le> smp_monotonicMs s \<and>
     in64 (smp_monotonicMs s) \<and> f_nonneg (smp_rate s)"

definition samples_ok :: "pod_samples \<Rightarrow> bool" where
  "samples_ok m \<longleftrightarrow> (\<forall>s \<in> ran m. sample_ok s)"

lemma samples_ok_update: "samples_ok m \<Longrightarrow> sample_ok s \<Longrightarrow> samples_ok (m(uid \<mapsto> s))"
  by (auto simp: samples_ok_def ran_def)

lemma rate_nonneg:
  assumes "0 \<le> y" "y \<le> x" "1 \<le> d" "in64 d"
  shows "f_nonneg (f_div (f_sub (Fin x) (Fin y)) (f_div (of_int64 d) (Fin 1000)))"
proof -
  obtain r where r: "of_int64 d = Fin r" "1 \<le> r" "r \<le> 2 ^ 63"
    using of_int64_bounds [OF assms(3,4)] by blast
  have "\<exists>q. rnd (r / 1000) = Fin q \<and> 0 \<le> q \<and> q \<le> 2 ^ 63"
    using r by (intro rnd_le_pow) simp_all
  then obtain q where q: "rnd (r / 1000) = Fin q" by blast
  have "(2::rat) powi (- 1022) \<le> 2 powi (- 10)" by (rule power_int_increasing) simp_all
  also have "\<dots> \<le> r / 1000" using r(2) by (simp add: power_int_minus)
  finally have "f_pos (Fin q)" using rnd_pos q by metis
  moreover have "f_nonneg (f_sub (Fin x) (Fin y))" using assms by (simp add: f_sub_def rnd_nonneg)
  ultimately have "f_nonneg (f_div (f_sub (Fin x) (Fin y)) (Fin q))" by (intro f_nonneg_div) simp_all
  then show ?thesis by (simp add: r(1) q)
qed

lemma observeSample_ok:
  assumes "samples_ok m" "0 \<le> x" "0 \<le> ms" "in64 ms"
    and "observeSample m uid (Fin x) ms = (m', rate, known)"
  shows "samples_ok m' \<and> f_nonneg rate"
proof -
  have fresh: "samples_ok (m(uid \<mapsto> \<lparr>smp_writesTotal = Fin x, smp_monotonicMs = ms,
      smp_rate = Fin 0, smp_hasRate = False\<rparr>))"
    using assms by (intro samples_ok_update) (auto simp: sample_ok_def)
  show ?thesis
  proof (cases "m uid")
    case None
    then show ?thesis using assms(5) fresh by (auto simp: observeSample_def Let_def)
  next
    case (Some prev)
    then have p: "sample_ok prev" using assms(1) by (auto simp: samples_ok_def ran_def)
    then obtain y where y: "smp_writesTotal prev = Fin y" "0 \<le> y" by (auto simp: sample_ok_def)
    let ?d = "ms - smp_monotonicMs prev"
    let ?rate = "f_div (f_sub (Fin x) (Fin y)) (f_div (of_int64 ?d) (Fin 1000))"
    show ?thesis
    proof (cases "x < y \<or> ms \<le> smp_monotonicMs prev")
      case True
      then show ?thesis using assms(5) fresh Some y by (auto simp: observeSample_def Let_def)
    next
      case False
      then have d: "1 \<le> ?d" "in64 ?d" using p assms(3,4) by (auto simp: sample_ok_def in64_def)
      have nn: "f_nonneg ?rate" using False y(2) d by (intro rate_nonneg) auto
      moreover from this have "samples_ok (m(uid \<mapsto> \<lparr>smp_writesTotal = Fin x, smp_monotonicMs = ms,
          smp_rate = ?rate, smp_hasRate = True\<rparr>))"
        using assms by (intro samples_ok_update) (auto simp: sample_ok_def)
      moreover have "f_nonneg (smp_rate prev)" using p by (simp add: sample_ok_def)
      ultimately show ?thesis using assms(1,5) Some y False d
        by (auto simp: observeSample_def Let_def split: if_splits)
    qed
  qed
qed

text \<open>A reading of a node whose counters and gauges are finite and not negative.\<close>

definition reading_ok :: "Metrics \<Rightarrow> bool" where
  "reading_ok m \<longleftrightarrow> (\<exists>x \<ge> 0. fst (CounterTotal m metricWritesAdmitted) = Fin x) \<and>
     (\<forall>r \<in> set (mtr_Rows m). pred_option f_nonneg (mr_Last r)) \<and>
     0 \<le> mtr_MonotonicMs m \<and> in64 (mtr_MonotonicMs m)"

definition acc_ok :: "measure_acc \<Rightarrow> bool" where
  "acc_ok a \<longleftrightarrow> samples_ok (mac_samples a) \<and> f_nonneg (mac_writes a) \<and> f_nonneg (mac_queue a)"

lemma measure_one_ok: "acc_ok a \<Longrightarrow> reading_ok (snd r) \<Longrightarrow> acc_ok (measure_one r a)"
proof -
  assume a: "acc_ok a" and r: "reading_ok (snd r)"
  from r obtain x where x: "fst (CounterTotal (snd r) metricWritesAdmitted) = Fin x" "0 \<le> x"
    by (auto simp: reading_ok_def)
  obtain m' rate known where o: "observeSample (mac_samples a) (pod_UID (fst r)) (Fin x) (mtr_MonotonicMs (snd r))
      = (m', rate, known)" by (cases "observeSample (mac_samples a) (pod_UID (fst r)) (Fin x) (mtr_MonotonicMs (snd r))")
  have "samples_ok m' \<and> f_nonneg rate"
    using a r x(2) o by (intro observeSample_ok) (auto simp: acc_ok_def reading_ok_def)
  moreover have "f_nonneg (fst (GaugeSum (snd r) metricClientQueueDepth))"
    using r by (intro GaugeSum_nonneg) (simp add: reading_ok_def)
  ultimately show "acc_ok (measure_one r a)"
    using a by (auto simp: acc_ok_def measure_one_def Let_def x o intro: f_nonneg_add)
qed

lemma measure_fold_ok:
  "acc_ok a \<Longrightarrow> \<forall>r \<in> set rs. reading_ok (snd r) \<Longrightarrow> acc_ok (fold measure_one rs a)"
  by (induction rs arbitrary: a) (auto intro: measure_one_ok)

lemma fetch_metrics_Inr:
  "fetch_metrics query c ps = Inr rs \<Longrightarrow>
     map fst rs = ps \<and> (\<forall>r \<in> set rs. query (podBaseURL c (fst r)) = Inr (snd r))"
  by (induction ps arbitrary: rs) (auto split: sum.splits)

lemma fetch_metrics_all:
  "(\<exists>rs. fetch_metrics query c ps = Inr rs) \<longleftrightarrow> (\<forall>p \<in> set ps. \<exists>m. query (podBaseURL c p) = Inr m)"
  by (induction ps) (auto split: sum.splits)

lemma samples_ok_restrict: "samples_ok m \<Longrightarrow> samples_ok (m |` A)"
  by (auto simp: samples_ok_def ran_def restrict_map_def split: if_splits)

lemma measure_traffic_failed:
  assumes "\<not> (ready_pods pods \<noteq> [] \<and> (\<forall>p \<in> set (ready_pods pods). \<exists>m. query (podBaseURL c p) = Inr m))"
  shows "\<exists>e. measure_traffic query c pods traffic = (traffic, trafficSignal_zero, Some e)"
proof (cases "ready_pods pods = []")
  case False
  with assms obtain e where "fetch_metrics query c (ready_pods pods) = Inl e"
    using fetch_metrics_all [of query c "ready_pods pods"] by (metis sum.exhaust)
  with False show ?thesis by (simp add: measure_traffic_def)
qed (simp add: measure_traffic_def)

lemma measure_traffic_answered:
  assumes "ready_pods pods \<noteq> [] \<and> (\<forall>p \<in> set (ready_pods pods). \<exists>m. query (podBaseURL c p) = Inr m)"
    and "pred_option samples_ok (traffic (cluster_key c))"
    and "\<forall>p \<in> set (ready_pods pods). \<forall>m. query (podBaseURL c p) = Inr m \<longrightarrow> reading_ok m"
    and "in64 (int (length pods))"
  shows "\<exists>s w q. measure_traffic query c pods traffic =
      (traffic(cluster_key c \<mapsto> s), \<lparr>sig_writesPerNode = w, sig_queuePerNode = q\<rparr>, None) \<and>
    pred_option f_nonneg w \<and> pred_option f_nonneg q \<and> samples_ok s \<and> dom s \<subseteq> pod_UID ` set (ready_pods pods)"
proof -
  obtain rs where rs: "fetch_metrics query c (ready_pods pods) = Inr rs"
    using assms(1) fetch_metrics_all by blast
  have "\<forall>r \<in> set rs. reading_ok (snd r)"
    using fetch_metrics_Inr [OF rs] assms(3) by (metis image_eqI list.set_map)
  moreover define a0 where "a0 = \<lparr>mac_samples = (case traffic (cluster_key c) of None \<Rightarrow> Map.empty | Some s \<Rightarrow> s),
      mac_writes = Fin 0, mac_queue = Fin 0, mac_known = True\<rparr>"
  moreover have "acc_ok a0"
    using assms(2) by (auto simp: acc_ok_def a0_def samples_ok_def split: option.splits)
  ultimately have acc: "acc_ok (fold measure_one rs a0)" by (intro measure_fold_ok)
  have "1 \<le> int (length (ready_pods pods))" using assms(1) by (cases "ready_pods pods") auto
  moreover have "length (ready_pods pods) \<le> length pods" by (simp add: ready_pods_def)
  ultimately obtain n where n: "of_int64 (int (length (ready_pods pods))) = Fin n" "1 \<le> n"
    using of_int64_bounds [of "int (length (ready_pods pods))"] assms(4) by (auto simp: in64_def)
  define a where "a = fold measure_one rs a0"
  have "f_nonneg (f_div (mac_writes a) (Fin n))" "f_nonneg (f_div (mac_queue a) (Fin n))"
    using acc n(2) by (auto simp: acc_ok_def a_def intro!: f_nonneg_div)
  moreover have "samples_ok (mac_samples a |` (pod_UID ` set (ready_pods pods)))"
    using acc by (simp add: acc_ok_def a_def samples_ok_restrict)
  moreover have "measure_traffic query c pods traffic =
      (traffic(cluster_key c \<mapsto> mac_samples a |` (pod_UID ` set (ready_pods pods))),
       \<lparr>sig_writesPerNode = (if mac_known a then Some (f_div (mac_writes a) (Fin n)) else None),
        sig_queuePerNode = Some (f_div (mac_queue a) (Fin n))\<rparr>, None)"
    using assms(1) rs n(1) by (simp add: measure_traffic_def Let_def a0_def a_def)
  moreover have "dom (mac_samples a |` (pod_UID ` set (ready_pods pods))) \<subseteq> pod_UID ` set (ready_pods pods)"
    by simp
  moreover have "pred_option f_nonneg (if mac_known a then Some (f_div (mac_writes a) (Fin n)) else None)"
    using calculation(1) by simp
  ultimately show ?thesis by (metis option.pred_inject(2))
qed


section \<open>Runs of passes\<close>

text \<open>
  Between two passes the status is written to the API server and read back, which keeps times to
  the second. A history is the stored status, the clock of the last pass and the steps traffic
  caused so far, newest first, each with its time and whether it grew the cluster.
\<close>

definition persist_time :: "gotime \<Rightarrow> gotime" where
  "persist_time t = t - t mod second"

definition persist_autoscaling :: "AutoscalingStatus \<Rightarrow> AutoscalingStatus" where
  "persist_autoscaling st = st\<lparr>ast_AboveTargetSince := map_option persist_time (ast_AboveTargetSince st),
     ast_BelowTargetSince := map_option persist_time (ast_BelowTargetSince st),
     ast_LastScaleTime := map_option persist_time (ast_LastScaleTime st)\<rparr>"

record autoscale_history =
  ah_status :: "AutoscalingStatus option"
  ah_clock :: gotime
  ah_steps :: "(gotime \<times> bool) list"

definition autoscale_record :: "autoscaleInput \<Rightarrow> AutoscalingStatus \<Rightarrow> (gotime \<times> bool) list \<Rightarrow> (gotime \<times> bool) list" where
  "autoscale_record inp st steps =
     (if ast_DesiredReplicas st = base_size inp then steps
      else (ai_now inp, base_size inp < ast_DesiredReplicas st) # steps)"

inductive autoscale_run :: "f64_impl \<Rightarrow> AutoscalingSpec \<Rightarrow> autoscale_history \<Rightarrow> bool" for impl spec where
  autoscale_run_start: "autoscale_run impl spec \<lparr>ah_status = None, ah_clock = t, ah_steps = []\<rparr>"
| autoscale_run_pass: "autoscale_run impl spec h \<Longrightarrow> ai_spec inp = spec \<Longrightarrow>
     ai_prev inp = map_option persist_autoscaling (ah_status h) \<Longrightarrow> ah_clock h \<le> ai_now inp \<Longrightarrow>
     st = ad_status (decideAutoscale impl inp) \<Longrightarrow>
     autoscale_run impl spec \<lparr>ah_status = Some st, ah_clock = ai_now inp,
       ah_steps = autoscale_record inp st (ah_steps h)\<rparr>"

definition step_window :: "AutoscalingSpec \<Rightarrow> bool \<Rightarrow> duration" where
  "step_window spec up = (if up then upWindow spec else downWindow spec)"

definition steps_apart :: "AutoscalingSpec \<Rightarrow> (gotime \<times> bool) list \<Rightarrow> bool" where
  "steps_apart spec steps =
     successively (\<lambda>newer older. step_window spec (snd newer) - second < fst newer - fst older) steps"

definition history_ok :: "AutoscalingSpec \<Rightarrow> autoscale_history \<Rightarrow> bool" where
  "history_ok spec h \<longleftrightarrow> steps_apart spec (ah_steps h) \<and>
     (case ah_steps h of [] \<Rightarrow> True | (u, _) # _ \<Rightarrow> u \<le> ah_clock h \<and>
        (\<forall>st. ah_status h = Some st \<longrightarrow>
           pred_option (\<lambda>t. persist_time u \<le> t) (ast_AboveTargetSince st) \<and>
           pred_option (\<lambda>t. persist_time u \<le> t) (ast_BelowTargetSince st)))"

lemma persist_time_bounds: "persist_time t \<le> t" "t - second < persist_time t"
  using pos_mod_sign [of second t] pos_mod_bound [of second t] by (simp_all add: persist_time_def)

lemma persist_time_mono: "persist_time u \<le> t \<Longrightarrow> persist_time u \<le> persist_time t"
proof -
  have eq: "persist_time t = t div second * second" for t
    by (simp add: persist_time_def minus_mod_eq_div_mult)
  assume "persist_time u \<le> t"
  then have "u div second * second div second \<le> t div second"
    unfolding eq by (intro zdiv_mono1) simp_all
  then show ?thesis unfolding eq by simp
qed

lemma windows_in64:
  assumes "valid_autoscaling spec"
  shows "0 \<le> step_window spec up" "in64 (step_window spec up)"
proof -
  have "0 \<le> secondsOr v d \<and> in64 (secondsOr v d)"
    if "pred_option (\<lambda>n. 0 \<le> n \<and> in32 n) v" "0 \<le> d" "in64 d" for v d
  proof (cases v)
    case (Some n)
    with that have "in64 (n * second)" "0 \<le> n" by (simp_all add: in64_def in32_def)
    then show ?thesis by (simp add: secondsOr_def Some)
  qed (use that in \<open>simp add: secondsOr_def\<close>)
  then show "0 \<le> step_window spec up" "in64 (step_window spec up)"
    using assms
    by (auto simp: step_window_def upWindow_def downWindow_def valid_autoscaling_def in64_def
        defaultScaleUpStabilization_def defaultScaleDownStabilization_def)
qed

text \<open>After a pass the clocks are unset or what the pass counted from; a step unsets both.\<close>

lemma decide_clocks:
  assumes "valid_autoscaling (ai_spec inp)" "st = ad_status (decideAutoscale impl inp)"
  shows "ast_AboveTargetSince st \<in> {None, Some (above_since inp)}"
    and "ast_BelowTargetSince st \<in> {None, Some (below_since inp)}"
    and "ast_DesiredReplicas st \<noteq> base_size inp \<Longrightarrow>
      ast_AboveTargetSince st = None \<and> ast_BelowTargetSince st = None"
proof -
  show "ast_AboveTargetSince st \<in> {None, Some (above_since inp)}"
    and "ast_BelowTargetSince st \<in> {None, Some (below_since inp)}"
    by (cases "recommendation impl inp";
        auto simp: assms(2) decide_no_recommendation decide_recommendation autoscale_step_def Let_def
          above_since_def below_since_def autoscale_start_fields split: option.splits)+
  assume "ast_DesiredReplicas st \<noteq> base_size inp"
  then show "ast_AboveTargetSince st = None \<and> ast_BelowTargetSince st = None"
    by (cases "recommendation impl inp";
        auto simp: assms(2) decide_no_recommendation decide_recommendation autoscale_step_def Let_def
          autoscale_start_fields split: if_splits)
qed

lemma since_after_step:
  assumes "history_ok spec h" "ah_steps h = (u, b) # steps" "ah_clock h \<le> ai_now inp"
    and "ai_prev inp = map_option persist_autoscaling (ah_status h)"
  shows "persist_time u \<le> above_since inp" "persist_time u \<le> below_since inp"
proof -
  have u: "persist_time u \<le> ai_now inp"
    using assms(1-3) persist_time_bounds(1) [of u] by (simp add: history_ok_def)
  show "persist_time u \<le> above_since inp" "persist_time u \<le> below_since inp"
    using assms u
    by (auto simp: above_since_def below_since_def history_ok_def persist_autoscaling_def
        intro: persist_time_mono split: option.splits)
qed

lemma autoscale_run_ok:
  assumes "autoscale_run impl spec h" "valid_autoscaling spec"
  shows "history_ok spec h"
  using assms(1)
proof (induction rule: autoscale_run.induct)
  case (autoscale_run_start t)
  show ?case by (simp add: history_ok_def steps_apart_def)
next
  case (autoscale_run_pass h inp st)
  have v: "valid_autoscaling (ai_spec inp)" using autoscale_run_pass assms(2) by simp
  note c = decide_clocks [OF v autoscale_run_pass.hyps(5)]
  note d = decide_desired [OF v, of impl, folded autoscale_run_pass.hyps(5)]
  show ?case
  proof (cases "ast_DesiredReplicas st = base_size inp")
    case True
    then show ?thesis
    proof (cases "ah_steps h")
      case (Cons s steps)
      obtain u b where s: "s = (u, b)" by (cases s)
      note since = since_after_step [OF autoscale_run_pass.IH Cons [unfolded s] autoscale_run_pass.hyps(4,3)]
      have "pred_option (\<lambda>t. persist_time u \<le> t) (ast_AboveTargetSince st)"
        "pred_option (\<lambda>t. persist_time u \<le> t) (ast_BelowTargetSince st)"
        using c(1,2) since by auto
      then show ?thesis using True Cons autoscale_run_pass
        by (auto simp: history_ok_def autoscale_record_def s)
    qed (simp add: history_ok_def autoscale_record_def steps_apart_def)
  next
    case False
    let ?up = "base_size inp < ast_DesiredReplicas st"
    let ?since = "if ?up then above_since inp else below_since inp"
    have "step_window spec ?up \<le> Sub (ai_now inp) ?since"
      using False d autoscale_run_pass.hyps(2)
      by (auto simp: step_window_def up_due_def down_due_def split: if_splits option.splits)
    then have w: "step_window spec ?up \<le> ai_now inp - ?since"
      using le_Sub_iff windows_in64 [OF assms(2)] by blast
    have "steps_apart spec ((ai_now inp, ?up) # ah_steps h)"
    proof (cases "ah_steps h")
      case (Cons s steps)
      obtain u b where s: "s = (u, b)" by (cases s)
      note since = since_after_step [OF autoscale_run_pass.IH Cons [unfolded s] autoscale_run_pass.hyps(4,3)]
      have "persist_time u \<le> ?since" using since by simp
      then have "step_window spec ?up - second < ai_now inp - u"
        using w persist_time_bounds(2) [of u] by linarith
      then show ?thesis using autoscale_run_pass.IH
        by (simp add: steps_apart_def Cons s history_ok_def)
    qed (simp add: steps_apart_def)
    then show ?thesis using False c(3) by (simp add: history_ok_def autoscale_record_def)
  qed
qed


section \<open>Lemmas for a whole pass\<close>

lemma autoscale_ratios_known:
  assumes "snd (autoscale_ratios spec sig)"
  shows "aus_TargetWritesPerSecond spec \<noteq> None \<Longrightarrow> sig_writesPerNode sig \<noteq> None"
    and "aus_TargetQueueDepth spec \<noteq> None \<Longrightarrow> sig_queuePerNode sig \<noteq> None"
  using assms by (auto simp: autoscale_ratios_def signal_ratio_def split: option.splits prod.splits)

lemma down_due_known:
  assumes "valid_autoscaling (ai_spec inp)" "down_due impl inp"
  shows "snd (autoscale_ratios (ai_spec inp) (ai_signal inp))"
proof -
  obtain rs k where r: "autoscale_ratios (ai_spec inp) (ai_signal inp) = (rs, k)" by fastforce
  from assms(2) obtain rec where rec: "recommendation impl inp = Some rec" "rec < base_size inp"
    by (auto simp: down_due_def split: option.splits)
  then obtain ratio where "rec = autoscale_recommend impl (ai_spec inp) (base_size inp) ratio k"
    by (auto simp: recommendation_def r split: if_splits list.splits)
  with rec(2) recommend_partial [of "ai_spec inp" "base_size inp" impl ratio] base_size_bounds [OF assms(1)]
  have k by (cases k) simp_all
  then show ?thesis by (simp add: r)
qed

lemma due_window:
  assumes "valid_autoscaling (ai_spec inp)"
  shows "up_due impl inp \<Longrightarrow> upWindow (ai_spec inp) \<le> ai_now inp - above_since inp"
    and "down_due impl inp \<Longrightarrow> downWindow (ai_spec inp) \<le> ai_now inp - below_since inp"
  using windows_in64 [OF assms, of True] windows_in64 [OF assms, of False]
  by (auto simp: up_due_def down_due_def step_window_def le_Sub_iff split: option.splits)

lemma decide_in_bounds:
  assumes "valid_autoscaling (ai_spec inp)"
  shows "aus_MinReplicas (ai_spec inp) \<le> ast_DesiredReplicas (ad_status (decideAutoscale impl inp)) \<and>
    ast_DesiredReplicas (ad_status (decideAutoscale impl inp)) \<le> aus_MaxReplicas (ai_spec inp)"
  using base_size_bounds [OF assms] recommendation_bounds [OF assms, of impl]
  by (auto simp: decide_desired [OF assms] up_due_def down_due_def split: option.splits; fastforce)

lemma autoscale_report_status [simp]: "ad_status (autoscale_report d e w) = ad_status d"
  by (simp add: autoscale_report_def split: option.splits)

lemma autoscale_converged_total:
  assumes "valid_spec (kc_Spec c)"
  shows "\<exists>r. autoscale_converged c b m p perr pods now = Inr r"
proof -
  have *: "desiredReplicas c \<noteq> 0" using desiredReplicas_pos [OF assms] by linarith
  have "\<exists>r. placementConverged c p (desiredReplicas c) now s = Inr r" for s
    using * by (auto simp: placementConverged_def Let_def split: prod.splits option.splits)
  then show ?thesis by (auto simp: autoscale_converged_def Let_def split: option.splits)
qed

lemma autoscale_converged_nil:
  assumes "valid_spec (kc_Spec c)"
  shows "(\<exists>why. autoscale_converged c b m None perr pods now = Inr (True, why)) \<longleftrightarrow>
    b \<and> rosterMatches c m (desiredReplicas c) \<and>
    ready_count (sized_members (desiredReplicas c) pods) = desiredReplicas c \<and> perr = None"
proof -
  have *: "desiredReplicas c \<noteq> 0" using desiredReplicas_pos [OF assms] by linarith
  have "placementConverged c None (desiredReplicas c) now s = Inr (True, [])" for s
    using * by (simp add: placementConverged_def tdiv_def)
  then show ?thesis by (auto simp: autoscale_converged_def Let_def split: option.splits)
qed


section \<open>Properties\<close>

text \<open>
  C11: a decision keeps the desired size inside the bounds of the spec and moves it by at most one
  node from the previous size (itself first brought inside the bounds), and not at all while the
  previous step is still in progress.
\<close>

theorem decideAutoscale_bounded_step:
  assumes "valid_autoscaling (ai_spec inp)"
  shows "let n = ast_DesiredReplicas (ad_status (decideAutoscale impl inp)) in
    aus_MinReplicas (ai_spec inp) \<le> n \<and> n \<le> aus_MaxReplicas (ai_spec inp) \<and>
    \<bar>n - base_size inp\<bar> \<le> 1 \<and> (\<not> ai_converged inp \<longrightarrow> n = base_size inp)"
  using decide_in_bounds [OF assms, of impl]
  by (auto simp: decide_desired [OF assms] up_due_def down_due_def recommendation_def Let_def)

definition example_input :: "f64 \<Rightarrow> gotime \<Rightarrow> autoscaleInput" where
  "example_input writes now = \<lparr>ai_spec = example_autoscaling, ai_prev = None, ai_initial = 3,
     ai_signal = \<lparr>sig_writesPerNode = Some writes, sig_queuePerNode = None\<rparr>, ai_converged = True,
     ai_growthCeiling = 0, ai_ceilingReason = [], ai_now = now\<rparr>"

lemma example_input_facts [simp]:
  "ai_spec (example_input w t) = example_autoscaling" "base_size (example_input w t) = 3"
  "ai_now (example_input w t) = t" "ai_prev (example_input w t) = None"
  by (simp_all add: example_input_def base_size_def example_autoscaling_def)

theorem decideAutoscale_bounded_step_witness:
  "\<bar>ast_DesiredReplicas (ad_status (decideAutoscale example_impl (example_input (Fin 500) 0))) - 3\<bar> \<le> 1"
  using decideAutoscale_bounded_step [of "example_input (Fin 500) 0" example_impl]
  by (simp add: example_valid Let_def)





text \<open>
  Traffic of k times the write target per node, k at least two, makes the recommendation k times
  the current size, held inside the bounds.
\<close>

lemma decideAutoscale_recommends:
  assumes "valid_autoscaling (ai_spec inp)" "ai_converged inp" "2 \<le> k"
    and "aus_TargetWritesPerSecond (ai_spec inp) = Some t" "aus_TargetQueueDepth (ai_spec inp) = None"
    and "aus_TolerancePercent (ai_spec inp) = None"
    and "sig_writesPerNode (ai_signal inp) = Some (Fin (of_int (k * t)))"
    and "in32 (base_size inp * k)" "k < 2 ^ 31"
  shows "ast_RecommendedReplicas (ad_status (decideAutoscale impl inp)) =
    min (max (base_size inp * k) (aus_MinReplicas (ai_spec inp))) (aus_MaxReplicas (ai_spec inp))"
proof -
  let ?n = "base_size inp"
  have t: "1 \<le> t" "t < 2 ^ 31" using assms(1,4) by (simp_all add: valid_autoscaling_def in32_def)
  have n: "3 \<le> ?n" using base_size_bounds [OF assms(1)] assms(1) by (simp add: valid_autoscaling_def)
  have ex: "of_int64 t = Fin (of_int t)" "of_int64 ?n = Fin (of_int ?n)"
    using t base_size_in32 [OF assms(1)] n by (simp_all add: of_int64_exact in32_def)
  have kr: "rnd (of_int k) = Fin (of_int k)" "rnd (of_int k - 1) = Fin (of_int k - 1)"
    using rnd_of_int [of k] rnd_of_int [of "k - 1"] assms(3,9) by simp_all
  have ratio: "f_div (Fin (of_int (k * t))) (of_int64 t) = Fin (of_int k)"
    using t by (simp add: ex kr)
  have tol: "f_less (autoscale_tolerance (ai_spec inp)) (Fin 1)"
    using rnd_small [of "1 / 10"] by (simp add: autoscale_tolerance_def assms(6) defaultTolerancePercent_def of_int64_exact)
  have dead: "f_less (autoscale_tolerance (ai_spec inp)) (f_abs (f_sub (Fin (of_int k)) (Fin 1)))"
    using tol assms(3) by (cases "autoscale_tolerance (ai_spec inp)") (auto simp: f_sub_def kr)
  have "rnd (of_int (?n * k)) = Fin (of_int (?n * k))"
    using assms(3,8) n by (intro rnd_of_int) (simp add: in32_def)
  then have "f_ceil (f_mul (of_int64 ?n) (Fin (of_int k))) = Fin (of_int (?n * k))"
    by (simp add: ex flip: of_int_mult)
  then have "to_int32 impl (f_ceil (f_mul (of_int64 ?n) (Fin (of_int k)))) = ?n * k"
    using assms(3,8) n by (simp add: to_int32_def trunc_def flip: of_int_mult)
  then have "recommendation impl inp = Some (min (max (?n * k) (aus_MinReplicas (ai_spec inp)))
      (aus_MaxReplicas (ai_spec inp)))"
    using dead by (simp add: recommendation_def assms(2) autoscale_ratios_def signal_ratio_def assms(4,5,7)
        ratio [unfolded of_int_mult] autoscale_recommend_def Let_def)
  then show ?thesis
    by (simp add: decide_recommendation autoscale_step_def Let_def split: sum.splits)
qed

text \<open>
  A measurement succeeds exactly when there is a ready pod and every ready pod answered; it
  then keeps samples of these pods only, and from counters that are finite and not negative every
  signal it gives is a number that is not negative. A failed measurement changes no sample and
  gives no signal.
\<close>

lemma measure_traffic_signals:
  assumes "measure_traffic query c pods traffic = (traffic', sig, err)"
    and "pred_option samples_ok (traffic (cluster_key c))"
    and "\<forall>p \<in> set (ready_pods pods). \<forall>m. query (podBaseURL c p) = Inr m \<longrightarrow> reading_ok m"
    and "in64 (int (length pods))"
  shows "(err = None \<longleftrightarrow> ready_pods pods \<noteq> [] \<and>
      (\<forall>p \<in> set (ready_pods pods). \<exists>m. query (podBaseURL c p) = Inr m)) \<and>
    (err \<noteq> None \<longrightarrow> traffic' = traffic \<and> sig = trafficSignal_zero) \<and>
    (err = None \<longrightarrow> pred_option f_nonneg (sig_writesPerNode sig) \<and> pred_option f_nonneg (sig_queuePerNode sig) \<and>
      (\<exists>s. traffic' = traffic(cluster_key c \<mapsto> s) \<and> samples_ok s \<and> dom s \<subseteq> pod_UID ` set (ready_pods pods)))"
proof (cases "ready_pods pods \<noteq> [] \<and> (\<forall>p \<in> set (ready_pods pods). \<exists>m. query (podBaseURL c p) = Inr m)")
  case True
  from measure_traffic_answered [where traffic = traffic, OF True assms(2-4)] show ?thesis
    using assms(1) True by auto
next
  case False
  then obtain e where "measure_traffic query c pods traffic = (traffic, trafficSignal_zero, Some e)"
    using measure_traffic_failed by blast
  then show ?thesis using assms(1) False by auto
qed

text \<open>
  C36: a pass of the autoscaler on an admitted cluster panics in one situation only, a nil
  dereference: the cluster has converged (bootstrapped, roster matching, every node ready) and the
  server has no replica placement, which is passed on as neither a placement nor an error.
\<close>

theorem reconcileAutoscaling_panics_iff:
  assumes "valid_spec (kc_Spec c)"
  shows "reconcileAutoscaling impl am query now c bootstrapped m p perr pods traffic = Inl pn \<longleftrightarrow>
    pn = NilDeref \<and> kc_Autoscaling c \<noteq> None \<and> p = None \<and> perr = None \<and> bootstrapped \<and>
    rosterMatches c m (desiredReplicas c) \<and>
    ready_count (sized_members (desiredReplicas c) pods) = desiredReplicas c"
proof (cases "kc_Autoscaling c")
  case None
  then show ?thesis by (simp add: reconcileAutoscaling_def)
next
  case (Some spec)
  obtain ok why where conv: "autoscale_converged c bootstrapped m p perr pods now = Inr (ok, why)"
    using autoscale_converged_total [OF assms] by (metis prod.exhaust)
  have "reconcileAutoscaling impl am query now c bootstrapped m p perr pods traffic = Inl pn \<longleftrightarrow>
      ok \<and> p = None \<and> pn = NilDeref"
    by (auto simp: reconcileAutoscaling_def Some conv growthCeiling_def Let_def split: prod.splits option.splits)
  moreover have "p = None \<Longrightarrow> ok \<longleftrightarrow> bootstrapped \<and> rosterMatches c m (desiredReplicas c) \<and>
      ready_count (sized_members (desiredReplicas c) pods) = desiredReplicas c \<and> perr = None"
    using autoscale_converged_nil [OF assms, of bootstrapped m perr pods now] conv by auto
  ultimately show ?thesis using Some by auto
qed

theorem reconcileAutoscaling_panics_iff_witness:
  "\<not> reconcileAutoscaling example_impl apimeta_simple (\<lambda>_. Inl (Errorf ''timeout'')) 0 example_cluster
     False None None None [] Map.empty = Inl NilDeref"
  using reconcileAutoscaling_panics_iff [OF example_valid(1)] by simp

text \<open>
  A pass that returns leaves an autoscaled cluster with a desired size inside its bounds, and
  touches nothing of the status but the autoscaler's state and conditions; without autoscaling it
  clears that state.
\<close>

lemma reconcileAutoscaling_in_bounds:
  assumes "valid_spec (kc_Spec c)"
    and "reconcileAutoscaling impl am query now c bootstrapped m p perr pods traffic = Inr (st, traffic')"
  shows "desired_in_bounds (c\<lparr>kc_Status := st\<rparr>) \<and> (st_Autoscaling st = None \<longleftrightarrow> kc_Autoscaling c = None) \<and>
    st = (kc_Status c)\<lparr>st_Autoscaling := st_Autoscaling st, st_Conditions := st_Conditions st\<rparr>"
proof (cases "kc_Autoscaling c")
  case None
  then show ?thesis using assms(2) by (auto simp: reconcileAutoscaling_def desired_in_bounds_def)
next
  case (Some spec)
  from assms(2) obtain d inp where d: "st_Autoscaling st = Some (ad_status (decideAutoscale impl inp))"
    "ai_spec inp = spec"
    "st = (kc_Status c)\<lparr>st_Autoscaling := st_Autoscaling st, st_Conditions := st_Conditions st\<rparr>"
    by (auto simp: reconcileAutoscaling_def Some Let_def setCondition_def split: sum.splits prod.splits if_splits)
  have "valid_autoscaling (ai_spec inp)"
    using valid_spec_autoscaling [OF assms(1)] Some d(2) by simp
  from decide_in_bounds [OF this, of impl] show ?thesis
    using d Some by (simp add: desired_in_bounds_def)
qed

end
