(* ===== verification/Backups.thy ===== *)
theory Backups
  imports Certificates Backup_Runner Autoscaler
begin

text \<open>
  The backup half of a pass, from \<open>src/internal/controller/backup.go\<close>: the claim that holds the
  backups and the key that signs them, whether the claim can be used, whether a backup may start now,
  and \<open>reconcileBackup\<close>, which collects a finished backup and starts the next one. The schedule
  parser is a parameter.
\<close>


section \<open>The claim and the key\<close>

definition backupMACKeyBytes :: nat where "backupMACKeyBytes = 32"

definition sameAccessModes :: "string list \<Rightarrow> string list \<Rightarrow> bool" where
  "sameAccessModes a b \<longleftrightarrow> list_all (\<lambda>m. m \<in> set b) a \<and> list_all (\<lambda>m. m \<in> set a) b"

definition claimNeedsReplacing :: "PersistentVolumeClaim \<Rightarrow> PersistentVolumeClaim \<Rightarrow> bool" where
  "claimNeedsReplacing existing desired =
     (if om_DeletionTimestamp (pvc_Meta existing) \<noteq> None \<or> pvc_VolumeName existing \<noteq> [] \<or>
         (pvc_Phase existing \<noteq> [] \<and> pvc_Phase existing \<noteq> ''Pending'') then False
      else if \<not> sameAccessModes (pvc_AccessModes existing) (pvc_AccessModes desired) then True
      else if pvc_StorageClassName desired \<noteq> None \<and> pvc_StorageClassName existing \<noteq> pvc_StorageClassName desired then True
      else pvc_Storage existing \<noteq> pvc_Storage desired)"

definition reconcileBackupClaim :: "'w kube \<Rightarrow> KahunaCluster \<Rightarrow> BackupSpec \<Rightarrow> VolumeSpec \<Rightarrow> 'w \<Rightarrow> 'w \<times> goerr option" where
  "reconcileBackupClaim kb cluster b claim w =
     (let desired = desiredBackupClaim cluster b claim; key = meta_key (pvc_Meta desired) in
      case ka_Get (kb_PVC kb) key w of
        (w, Inl err) \<Rightarrow>
          if IsNotFound err then
            (case ka_Create (kb_PVC kb) desired w of
               (w, Inl err) \<Rightarrow> (w, if IsAlreadyExists err then None else Some (WrapErr ''creating backup claim'' err))
             | (w, Inr _) \<Rightarrow> (w, None))
          else (w, Some err)
      | (w, Inr existing) \<Rightarrow>
          if claimNeedsReplacing existing desired then
            (case ka_Delete (kb_PVC kb) key
                (Some (om_UID (pvc_Meta existing), om_ResourceVersion (pvc_Meta existing))) w of
               (w, None) \<Rightarrow> (w, None)
             | (w, Some err) \<Rightarrow>
                 (w, if IsNotFound err \<or> IsConflict err then None
                     else Some (WrapErr ''deleting unbound backup claim'' err)))
          else (w, None))"

definition reconcileBackupKey :: "'w kube \<Rightarrow> KahunaCluster \<Rightarrow> 'w \<Rightarrow> 'w \<times> goerr option" where
  "reconcileBackupKey kb cluster w =
     (let name = backupMACSecretName cluster in
      case ka_Get (kb_Secret kb) (kc_Namespace cluster, name) w of
        (w, Inl err) \<Rightarrow>
          if IsNotFound err then
            (case kb_Rand kb backupMACKeyBytes w of
               (w, Inl err) \<Rightarrow> (w, Some (WrapErr ''generating backup MAC key'' err))
             | (w, Inr key) \<Rightarrow>
                 (case ka_Create (kb_Secret kb) (secretMeta cluster name backupMACKey key) w of
                    (w, Inl err) \<Rightarrow> (w, if IsAlreadyExists err then None else Some (WrapErr ''creating backup MAC key'' err))
                  | (w, Inr _) \<Rightarrow> (w, None)))
          else (w, Some err)
      | (w, Inr _) \<Rightarrow> (w, None))"

definition reconcileBackupResources :: "'w kube \<Rightarrow> KahunaCluster \<Rightarrow> 'w \<Rightarrow> 'w \<times> goerr option" where
  "reconcileBackupResources kb cluster w =
     (case sp_Backup (kc_Spec cluster) of
        None \<Rightarrow> (w, None)
      | Some b \<Rightarrow>
          (case (case bvs_Claim (bks_Volume b) of
                   None \<Rightarrow> (w, None)
                 | Some claim \<Rightarrow> reconcileBackupClaim kb cluster b claim w) of
             (w, Some err) \<Rightarrow> (w, Some err)
           | (w, None) \<Rightarrow>
               if bks_MACKeySecretRef b = None then reconcileBackupKey kb cluster w else (w, None)))"


section \<open>Reading the claim\<close>

record backupVolume =
  bv_bound :: bool
  bv_ready :: bool
  bv_reason :: string
  bv_message :: string

definition is_alpha :: "char \<Rightarrow> bool" where
  "is_alpha c \<longleftrightarrow> (let n = of_char c :: nat in 65 \<le> n \<and> n \<le> 90 \<or> 97 \<le> n \<and> n \<le> 122)"

text \<open>The pattern \<open>^[A-Za-z]([A-Za-z0-9_,:]*[A-Za-z0-9_])?$\<close>.\<close>

definition conditionReason :: "string \<Rightarrow> bool" where
  "conditionReason s \<longleftrightarrow>
     s \<noteq> [] \<and> is_alpha (hd s) \<and>
     list_all (\<lambda>c. is_alpha c \<or> is_digit c \<or> c \<in> {CHR ''_'', CHR '','', CHR '':''}) (tl s) \<and>
     (tl s = [] \<or> last s \<notin> {CHR '','', CHR '':''})"

definition eventTime :: "Event \<Rightarrow> gotime" where
  "eventTime e =
     (let t = ev_CreationTimestamp e;
          t = (if After (ev_LastTimestamp e) t then ev_LastTimestamp e else t);
          t = (if After (ev_EventTime e) t then ev_EventTime e else t)
      in case ev_SeriesTime e of Some c \<Rightarrow> if After c t then c else t | None \<Rightarrow> t)"

fun latest_event :: "Event list \<Rightarrow> Event option \<Rightarrow> Event option" where
  "latest_event [] latest = latest"
| "latest_event (e # es) latest =
     latest_event es (case latest of None \<Rightarrow> Some e | Some l \<Rightarrow> if After (eventTime e) (eventTime l) then Some e else latest)"

definition latestClaimWarning :: "'w kube \<Rightarrow> PersistentVolumeClaim \<Rightarrow> 'w \<Rightarrow> 'w \<times> (goerr + Event option)" where
  "latestClaimWarning kb pvc w =
     (case kb_ListWarnings kb (om_Namespace (pvc_Meta pvc)) (om_UID (pvc_Meta pvc)) w of
        (w, Inl err) \<Rightarrow> (w, Inl err)
      | (w, Inr items) \<Rightarrow> (w, Inr (latest_event items None)))"

definition readBackupVolume :: "'w kube \<Rightarrow> KahunaCluster \<Rightarrow> BackupSpec \<Rightarrow> 'w \<Rightarrow> 'w \<times> backupVolume" where
  "readBackupVolume kb cluster b w =
     (let name = backupClaimName cluster b; q = ''PersistentVolumeClaim '' @ fmt_q name;
          unbound = (\<lambda>r m. \<lparr>bv_bound = False, bv_ready = False, bv_reason = r, bv_message = m\<rparr>);
          stuck = ''. Every node mounts it, so no pod can start until it is bound'' in
      case ka_Get (kb_PVC kb) (kc_Namespace cluster, name) w of
        (w, Inl err) \<Rightarrow>
          (w, if IsNotFound err
              then unbound ''ClaimNotFound'' (q @ '' does not exist. Every node mounts it, so no pod can start until it exists'')
              else unbound ''ClaimUnreadable'' (''reading '' @ q @ '': '' @ err_text err))
      | (w, Inr pvc) \<Rightarrow>
          if pvc_Phase pvc = ''Bound'' then
            (w, if \<not> singleNode cluster \<and> ''ReadWriteMany'' \<notin> set (pvc_StatusAccessModes pvc)
                then \<lparr>bv_bound = True, bv_ready = False, bv_reason = ''NotReadWriteMany'', bv_message =
                   q @ '' is bound with access modes '' @ fmt_strings (pvc_StatusAccessModes pvc) @
                   '', not ReadWriteMany. Every node mounts it, so a pod that runs on a different Kubernetes node than the volume cannot start''\<rparr>
                else \<lparr>bv_bound = True, bv_ready = True, bv_reason = ''ClaimBound'', bv_message = q @ '' is bound''\<rparr>)
          else if pvc_Phase pvc = ''Lost'' then
            (w, unbound ''ClaimLost'' (q @ '' lost its PersistentVolume '' @ fmt_q (pvc_VolumeName pvc)))
          else
            (case latestClaimWarning kb pvc w of
               (w, Inl _) \<Rightarrow> (w, unbound ''ClaimPending'' (q @ '' is not bound yet'' @ stuck))
             | (w, Inr None) \<Rightarrow> (w, unbound ''ClaimPending'' (q @ '' is not bound yet'' @ stuck))
             | (w, Inr (Some warning)) \<Rightarrow>
                 (w, unbound (if conditionReason (ev_Reason warning) then ev_Reason warning else ''ClaimPending'')
                   (q @ '' is not bound: '' @ ev_Reason warning @ '': '' @
                    TrimRightFunc (\<lambda>c. c = CHR ''.'') (TrimSpace (ev_Message warning)) @ stuck @
                    (if ''ReadWriteMany'' \<in> set (pvc_AccessModes pvc)
                     then ''. The claim asks for ReadWriteMany, so its StorageClass must support that access mode. '' @
                       ''Set spec.backup.volume.claim.storageClassName to a class that does, or name a ReadWriteMany claim in spec.backup.volume.claimName''
                     else [])))))"

definition setBackupVolumeCondition :: "apimeta \<Rightarrow> KahunaClusterStatus \<Rightarrow> backupVolume \<Rightarrow> KahunaClusterStatus" where
  "setBackupVolumeCondition am st v =
     setCondition am st ConditionBackupVolumeReady (bv_ready v) (bv_reason v) (bv_reason v) (bv_message v)"

definition setBackupCondition :: "apimeta \<Rightarrow> KahunaClusterStatus \<Rightarrow> bool \<Rightarrow> string \<Rightarrow> string \<Rightarrow> KahunaClusterStatus" where
  "setBackupCondition am st failing reason message =
     setCondition am st ConditionBackupFailing failing reason reason message"


section \<open>Whether a backup may start\<close>

definition composedBackupVersion :: "int \<times> int \<times> int" where "composedBackupVersion = (1, 12, 5)"

text \<open>The pattern \<open>^v?(\d+)\.(\d+)\.(\d+)(?:[-+].*)?$\<close>, as the three groups of digits.\<close>

definition digits_dot :: "string \<Rightarrow> (string \<times> string) option" where
  "digits_dot s =
     (let d = takeWhile is_digit s; r = dropWhile is_digit s in
      if d \<noteq> [] \<and> r \<noteq> [] \<and> hd r = CHR ''.'' then Some (d, tl r) else None)"

definition imageVersionPattern :: "string \<Rightarrow> (string \<times> string \<times> string) option" where
  "imageVersionPattern s =
     (let s = (if s \<noteq> [] \<and> hd s = CHR ''v'' then tl s else s) in
      case digits_dot s of
        None \<Rightarrow> None
      | Some (a, s) \<Rightarrow>
          (case digits_dot s of
             None \<Rightarrow> None
           | Some (b, s) \<Rightarrow>
               let c = takeWhile is_digit s; r = dropWhile is_digit s in
               if c \<noteq> [] \<and> (r = [] \<or> hd r \<in> {CHR ''-'', CHR ''+''} \<and> CHR 0x0A \<notin> set r) then Some (a, b, c) else None))"

definition imageVersion :: "string \<Rightarrow> (int \<times> int \<times> int) option" where
  "imageVersion img =
     (let img = takeWhile (\<lambda>c. c \<noteq> CHR ''@'') img; i = LastIndex img CHR '':'' in
      if i < 0 \<or> CHR ''/'' \<in> set (drop (nat i) img) then None
      else
        case imageVersionPattern (drop (nat i + 1) img) of
          None \<Rightarrow> None
        | Some (a, b, c) \<Rightarrow>
            (case (atoi a, atoi b, atoi c) of
               (Some x, Some y, Some z) \<Rightarrow> Some (x, y, z)
             | _ \<Rightarrow> None))"

definition version_at_least :: "int \<times> int \<times> int \<Rightarrow> int \<times> int \<times> int \<Rightarrow> bool" where
  "version_at_least v m =
     (case (v, m) of ((a, b, c), (x, y, z)) \<Rightarrow> a > x \<or> a = x \<and> (b > y \<or> b = y \<and> c \<ge> z))"

definition backupUnsupported :: "KahunaCluster \<Rightarrow> string" where
  "backupUnsupported cluster =
     (case sp_Replication (kc_Spec cluster) of
        None \<Rightarrow> []
      | Some r \<Rightarrow>
          let most = (case kc_Autoscaling cluster of None \<Rightarrow> specReplicas cluster | Some a \<Rightarrow> aus_MaxReplicas a) in
          if rep_Factor r \<ge> most then []
          else
            (case imageVersion (sp_Image (kc_Spec cluster)) of
               None \<Rightarrow> []
             | Some v \<Rightarrow>
                 if version_at_least v composedBackupVersion then []
                 else
                   let minimum = (case composedBackupVersion of (a, b, c) \<Rightarrow> itoa a @ ''.'' @ itoa b @ ''.'' @ itoa c) in
                   ''image '' @ sp_Image (kc_Spec cluster) @ '' is older than Kahuna '' @ minimum @
                   '', and the cluster can have '' @ itoa most @ '' nodes with replication.factor '' @ itoa (rep_Factor r) @
                   '': a backup from that server holds only the partitions that the node taking it hosts, '' @
                   ''and restore and seeding refuse such a backup. Use Kahuna '' @ minimum @ '' or later''))"

definition podImage :: "Pod \<Rightarrow> string" where
  "podImage pod = (case find (\<lambda>c. fst c = containerName) (pod_Containers pod) of Some c \<Rightarrow> snd c | None \<Rightarrow> [])"

definition pod_blocks :: "KahunaCluster \<Rightarrow> string \<Rightarrow> Pod \<Rightarrow> string" where
  "pod_blocks cluster hash pod =
     (if pod_DeletionTimestamp pod \<noteq> None \<or> \<not> podIsReady pod then pod_Name pod @ '' is not ready''
      else if (case pod_Annotations pod configHashAnnotation of None \<Rightarrow> [] | Some h \<Rightarrow> h) \<noteq> hash
        then pod_Name pod @ '' does not run the current configuration yet''
      else if podImage pod \<noteq> sp_Image (kc_Spec cluster)
        then pod_Name pod @ '' does not run image '' @ sp_Image (kc_Spec cluster) @ '' yet''
      else [])"

fun blocked_scan :: "KahunaCluster \<Rightarrow> string \<Rightarrow> int32 \<Rightarrow> Pod list \<Rightarrow> int32 \<Rightarrow> string" where
  "blocked_scan cluster hash desired [] seen =
     (if seen < desired then itoa seen @ '' of '' @ itoa desired @ '' pods exist'' else [])"
| "blocked_scan cluster hash desired (pod # pods) seen =
     (let o' = ordinalOf (pod_Name pod) in
      if o' < 0 \<or> o' \<ge> desired then blocked_scan cluster hash desired pods seen
      else if pod_blocks cluster hash pod \<noteq> [] then pod_blocks cluster hash pod
      else blocked_scan cluster hash desired pods (wrap32 (seen + 1)))"

definition backupBlocked :: "f64_impl \<Rightarrow> (quantity \<Rightarrow> int64) \<Rightarrow> KahunaCluster \<Rightarrow> Membership option \<Rightarrow> Pod list \<Rightarrow> string" where
  "backupBlocked impl qv cluster membership pods =
     (if \<not> st_Bootstrapped (kc_Status cluster) then ''the cluster has not finished bootstrap''
      else
        let desired = desiredReplicas cluster in
        if \<not> rosterMatches cluster membership desired then ''the roster has not converged on the desired nodes''
        else blocked_scan cluster (configHash (entrypointScript impl qv cluster)) desired pods 0)"


section \<open>The pass\<close>

text \<open>What a pass hands to the runner to execute in the background.\<close>

record backupLaunch =
  bl_address :: nat
  bl_kind :: backupKind
  bl_parent :: string
  bl_targets :: "backupTarget list"
  bl_timeout :: duration

definition backup_targets :: "KahunaCluster \<Rightarrow> Pod list \<Rightarrow> backupTarget list" where
  "backup_targets cluster pods =
     map (\<lambda>p. \<lparr>bt_pod = pod_Name p, bt_url = podBaseURL cluster p\<rparr>)
       (filter (\<lambda>p. let o' = ordinalOf (pod_Name p) in o' \<ge> 0 \<and> o' < desiredReplicas cluster \<and> pod_PodIP p \<noteq> []) pods)"

definition backup_timeout :: "BackupSpec \<Rightarrow> duration" where
  "backup_timeout spec = (case bks_Timeout spec of Some d \<Rightarrow> if d > 0 then d else defaultBackupTimeout | None \<Rightarrow> defaultBackupTimeout)"

definition failure_text :: "BackupStatus \<Rightarrow> string" where
  "failure_text st =
     (if bst_ConsecutiveFailures st > 0
      then itoa (bst_ConsecutiveFailures st) @ '' consecutive failures, latest: '' @ bst_LastFailureMessage st @ ''. ''
      else [])"

definition failedOr :: "BackupStatus \<Rightarrow> string \<Rightarrow> string" where
  "failedOr st reason = (if bst_ConsecutiveFailures st > 0 then ''BackupFailed'' else reason)"

definition running_text :: "BackupStatus \<Rightarrow> backupKind \<Rightarrow> gotime \<Rightarrow> string" where
  "running_text st kind scheduled =
     failure_text st @ kind_text kind @ '' backup scheduled for '' @ fmt_RFC3339 scheduled @ '' is running''"

text \<open>The part of the pass after the result of a finished job was recorded: the decision, and the start
  of the backup it asks for.\<close>

definition schedule_backup :: "f64_impl \<Rightarrow> (quantity \<Rightarrow> int64) \<Rightarrow> apimeta \<Rightarrow> KahunaCluster \<Rightarrow> BackupSpec \<Rightarrow> Membership option \<Rightarrow> Pod list \<Rightarrow> backupVolume \<Rightarrow> backupInput \<Rightarrow> KahunaClusterStatus \<Rightarrow> cluster_key backupRunner \<Rightarrow> KahunaClusterStatus \<times> cluster_key backupRunner \<times> duration \<times> backupLaunch option" where
  "schedule_backup impl qv am cluster spec membership pods volume inp status runner =
     (let st = bin_status inp; now = bin_now inp; failing = bst_ConsecutiveFailures st > 0; d = decideBackup inp in
      if bd_kind d = backupNone \<and> \<not> IsZero (bd_retryAt d) \<and> \<not> failing \<and> bst_UnclaimedSince st \<noteq> None then
        (setBackupCondition am status False ''BackupWaiting''
           (''a backup is due, but no node has taken it since '' @ fmt_RFC3339 (the (bst_UnclaimedSince st)) @
            '': every node refused it with an outcome that clears on retry, such as a meta partition with no settled leader yet. Retrying at '' @
            fmt_RFC3339 (bd_retryAt d)), runner, untilDue (bd_next d) now, None)
      else if bd_kind d = backupNone then
        (setBackupCondition am status failing (failedOr st ''BackupScheduled'')
           (failure_text st @
            (if \<not> IsZero (bd_retryAt d) then ''retrying at '' @ fmt_RFC3339 (bd_retryAt d)
             else if \<not> IsZero (bd_next d) then ''next backup at '' @ fmt_RFC3339 (bd_next d)
             else ''no backup is scheduled'')), runner, untilDue (bd_next d) now, None)
      else if bks_Suspend spec = Some True then
        (setBackupCondition am status failing (failedOr st ''BackupSuspended'')
           (failure_text st @ ''backups are suspended''), runner, 0, None)
      else
        let reason = (if \<not> bv_bound volume then bv_message volume else backupBlocked impl qv cluster membership pods) in
        if reason \<noteq> [] then
          (setBackupCondition am status failing (failedOr st ''BackupWaiting'')
             (failure_text st @ kind_text (bd_kind d) @ '' backup is due, waiting because '' @ reason), runner, 0, None)
        else
          let job = new_job (bd_kind d) (bd_scheduled d) (bst_LastBackupID st) in
          (setBackupCondition am status failing (failedOr st ''BackupRunning'')
             (running_text st (bd_kind d) (bd_scheduled d)),
           runner_start (cluster_key cluster) job runner, backupPollInterval,
           Some \<lparr>bl_address = br_next runner, bl_kind = bd_kind d, bl_parent = bst_LastBackupID st,
             bl_targets = backup_targets cluster pods, bl_timeout = backup_timeout spec\<rparr>))"

definition with_backup :: "BackupStatus \<Rightarrow> KahunaClusterStatus \<Rightarrow> KahunaClusterStatus" where
  "with_backup st status = status\<lparr>st_Backup := Some st\<rparr>"

definition reconcileBackup :: "f64_impl \<Rightarrow> (quantity \<Rightarrow> int64) \<Rightarrow> apimeta \<Rightarrow> (string \<Rightarrow> goerr + schedule) \<Rightarrow> 'w kube \<Rightarrow> KahunaCluster \<Rightarrow> Membership option \<Rightarrow> Pod list \<Rightarrow> cluster_key backupRunner \<Rightarrow> 'w \<Rightarrow> 'w \<times> (panic + (KahunaClusterStatus \<times> cluster_key backupRunner \<times> duration \<times> backupLaunch option))" where
  "reconcileBackup impl qv am parseSchedule kb cluster membership pods runner w =
     (let key = cluster_key cluster; status = kc_Status cluster in
      case sp_Backup (kc_Spec cluster) of
        None \<Rightarrow>
          (w, Inr (status\<lparr>st_Backup := None, st_Conditions :=
              am_Remove am (am_Remove am (st_Conditions status) ConditionBackupFailing) ConditionBackupVolumeReady\<rparr>,
            runner_forget key runner, 0, None))
      | Some spec \<Rightarrow>
          let now = kb_Now kb w; (w, volume) = readBackupVolume kb cluster spec w;
              status = setBackupVolumeCondition am status volume;
              st = (case st_Backup status of Some st \<Rightarrow> st | None \<Rightarrow> BackupStatus_zero);
              (runner, polled) = runner_poll key runner;
              applied = (case polled of
                  Some job \<Rightarrow> if bj_done job then applyBackupResult st job now else Inr st
                | None \<Rightarrow> Inr st);
              running = (case polled of Some job \<Rightarrow> if bj_done job then None else Some job | None \<Rightarrow> None)
          in case applied of
              Inl p \<Rightarrow> (w, Inl p)
            | Inr st \<Rightarrow>
                let invalid = (\<lambda>field text err. (w, Inr (with_backup st (setBackupCondition am status True ''InvalidSchedule''
                      (field @ '' '' @ fmt_q text @ '': '' @ err_text err)), runner, 0, None))) in
                (case parseSchedule (bks_Schedule spec) of
                   Inl err \<Rightarrow> invalid ''backup.schedule'' (bks_Schedule spec) err
                 | Inr full \<Rightarrow>
                     (case (if bks_IncrementalSchedule spec \<noteq> [] then map_sum id Some (parseSchedule (bks_IncrementalSchedule spec))
                            else Inr None) of
                        Inl err \<Rightarrow> invalid ''backup.incrementalSchedule'' (bks_IncrementalSchedule spec) err
                      | Inr incremental \<Rightarrow>
                          if backupUnsupported cluster \<noteq> [] then
                            (w, Inr (with_backup st (setBackupCondition am status True ''UnsupportedImage'' (backupUnsupported cluster)),
                               runner, 0, None))
                          else
                            (case running of
                               Some job \<Rightarrow>
                                 (w, Inr (with_backup st (setBackupCondition am status (bst_ConsecutiveFailures st > 0)
                                     (failedOr st ''BackupRunning'') (running_text st (bj_kind job) (bj_scheduled job))),
                                   runner, backupPollInterval, None))
                             | None \<Rightarrow>
                                 let (status, runner, wake, launch) =
                                   schedule_backup impl qv am cluster spec membership pods volume
                                     \<lparr>bin_full = full, bin_incremental = incremental, bin_status = st, bin_now = now\<rparr>
                                     status runner
                                 in (w, Inr (with_backup st status, runner, wake, launch))))))"


section \<open>A backup starts only on a settled cluster\<close>

text \<open>A pod in the state a backup needs: staying, ready, on the current configuration and image.\<close>

definition pod_current :: "KahunaCluster \<Rightarrow> string \<Rightarrow> Pod \<Rightarrow> bool" where
  "pod_current c hash p \<longleftrightarrow>
     pod_DeletionTimestamp p = None \<and> podIsReady p \<and>
     (case pod_Annotations p configHashAnnotation of None \<Rightarrow> [] | Some h \<Rightarrow> h) = hash \<and> podImage p = sp_Image (kc_Spec c)"

lemma pod_blocks_Nil: "pod_blocks c hash p = [] \<longleftrightarrow> pod_current c hash p"
  by (simp add: pod_blocks_def pod_current_def)

lemma blocked_scan_Nil:
  assumes "0 \<le> seen" "seen + int (length pods) < 2 ^ 31"
  shows "blocked_scan c hash d pods seen = [] \<longleftrightarrow>
    list_all (pod_current c hash) (sized_members d pods) \<and> d \<le> seen + int (length (sized_members d pods))"
  using assms
proof (induction pods arbitrary: seen)
  case (Cons p pods)
  have "wrap32 (seen + 1) = seen + 1" using Cons.prems by (simp add: in32_def)
  thus ?case using Cons.IH [of "seen + 1"] Cons.IH [of seen] Cons.prems
    by (auto simp: Let_def sized_members_def pod_blocks_Nil)
qed (simp add: sized_members_def)

text \<open>A backup is let through exactly when every node runs it the same way: the cluster is bootstrapped, the
  roster is exactly the desired nodes, and a pod exists for each of them, none of which is leaving,
  unready, on an older configuration or on another image.\<close>

lemma backupBlocked_iff:
  assumes "int (length pods) < 2 ^ 31"
  shows "backupBlocked impl qv c m pods = [] \<longleftrightarrow>
    st_Bootstrapped (kc_Status c) \<and> rosterMatches c m (desiredReplicas c) \<and>
    list_all (pod_current c (configHash (entrypointScript impl qv c))) (sized_members (desiredReplicas c) pods) \<and>
    desiredReplicas c \<le> int (length (sized_members (desiredReplicas c) pods))"
  using blocked_scan_Nil [of 0 pods] assms by (simp add: backupBlocked_def Let_def)

definition example_settled :: KahunaCluster where
  "example_settled = example_cluster\<lparr>kc_Status := KahunaClusterStatus_zero\<lparr>st_Bootstrapped := True\<rparr>\<rparr>"

definition settled_pods :: "f64_impl \<Rightarrow> (quantity \<Rightarrow> int64) \<Rightarrow> KahunaCluster \<Rightarrow> int32 list \<Rightarrow> Pod list" where
  "settled_pods impl qv c is = map (\<lambda>i. (example_pod (podName c i) ''10.0.0.1'')\<lparr>pod_Annotations :=
     [configHashAnnotation \<mapsto> configHash (entrypointScript impl qv c)]\<rparr>) is"

lemma example_settled_fields [simp]:
  "kc_Spec example_settled = example_spec" "st_Bootstrapped (kc_Status example_settled)"
  "desiredReplicas example_settled = 3"
  by (simp_all add: example_settled_def example_cluster_def desiredReplicas_def specReplicas_def)

lemma settled_pods_current:
  "sp_Image (kc_Spec c) = ''kahuna:1.12.5'' \<Longrightarrow>
   list_all (pod_current c (configHash (entrypointScript impl qv c))) (settled_pods impl qv c is)"
  by (auto simp: list_all_iff settled_pods_def pod_current_def example_pod_def podIsReady_def podImage_def containerName_def)

lemma length_settled_pods [simp]: "length (settled_pods impl qv c is) = length is"
  by (simp add: settled_pods_def)

lemma settled_pods_members: "sized_members 3 (settled_pods impl qv c [0, 1, 2]) = settled_pods impl qv c [0, 1, 2]"
  by (simp add: sized_members_def settled_pods_def example_pod_def ordinalOf_podName)

lemma backupBlocked_iff_witness:
  "backupBlocked example_impl (\<lambda>_. 0) example_settled (Some (example_roster example_settled (range_int 3)))
     (settled_pods example_impl (\<lambda>_. 0) example_settled [0, 1, 2]) = []"
proof -
  let ?pods = "settled_pods example_impl (\<lambda>_. 0) example_settled [0, 1, 2]"
  have "int (length ?pods) < 2 ^ 31" "length ?pods = 3" by simp_all
  thus ?thesis
    using backupBlocked_iff [of ?pods example_impl "\<lambda>_. 0" example_settled "Some (example_roster example_settled (range_int 3))"]
      settled_pods_current [of example_settled] settled_pods_members example_roster_matches [of 3 example_settled] by simp
qed


section \<open>Image versions\<close>

lemma takeWhile_digits:
  assumes "list_all is_digit d" "r = [] \<or> \<not> is_digit (hd r)"
  shows "takeWhile is_digit (d @ r) = d" "dropWhile is_digit (d @ r) = r"
  using assms by (induction d) (auto simp: takeWhile_eq_Nil_iff dropWhile_eq_self_iff)

lemma list_all_digits_utoa: "list_all is_digit (utoa n)"
  using set_utoa by (auto simp: list_all_iff)

lemma digits_dot_utoa: "digits_dot (utoa n @ ''.'' @ r) = Some (utoa n, r)"
  using takeWhile_digits [OF list_all_digits_utoa, of "''.'' @ r" n] by (simp add: digits_dot_def)

lemma atoi_utoa: "int n < 2 ^ 63 \<Longrightarrow> atoi (utoa n) = Some (int n)"
  using atoi_itoa [of "int n"] by (simp add: itoa_def in64_def)

lemma imageVersionPattern_utoa:
  assumes "r = [] \<or> hd r \<in> {CHR ''-'', CHR ''+''} \<and> CHR 0x0A \<notin> set r" "v = [] \<or> v = ''v''"
  shows "imageVersionPattern (v @ utoa a @ ''.'' @ utoa b @ ''.'' @ utoa c @ r) = Some (utoa a, utoa b, utoa c)"
proof -
  have "\<not> is_digit (CHR ''v'')" by (simp add: is_digit_def)
  hence "hd (utoa a @ x) \<noteq> CHR ''v''" for x using hd_utoa [of a] by (cases "utoa a") auto
  hence strip: "(let s = v @ utoa a @ x in if s \<noteq> [] \<and> hd s = CHR ''v'' then tl s else s) = utoa a @ x" for x
    using assms(2) by (auto simp: Let_def)
  have "r = [] \<or> \<not> is_digit (hd r)" using assms(1) by (auto simp: is_digit_def)
  note last = takeWhile_digits [OF list_all_digits_utoa this, of c]
  show ?thesis unfolding imageVersionPattern_def strip [unfolded Let_def] Let_def
    using assms(1) last digits_dot_utoa [of a] digits_dot_utoa [of b] by (simp del: dropWhile_eq_Nil_conv)
qed

text \<open>The version is read back from every image reference with a release tag: any repository, with or
  without a registry port, an optional leading \<open>v\<close>, an optional pre-release or build suffix and an
  optional digest.\<close>

lemma imageVersion_roundtrip:
  assumes "int a < 2 ^ 63" "int b < 2 ^ 63" "int c < 2 ^ 63" "CHR ''@'' \<notin> set repo" "v = [] \<or> v = ''v''"
    "r = [] \<or> hd r \<in> {CHR ''-'', CHR ''+''}" "set r \<inter> {CHR 0x0A, CHR ''@'', CHR '':'', CHR ''/''} = {}"
    "digest = [] \<or> hd digest = CHR ''@''"
  shows "imageVersion (repo @ '':'' @ v @ utoa a @ ''.'' @ utoa b @ ''.'' @ utoa c @ r @ digest) = Some (int a, int b, int c)"
proof -
  let ?tag = "v @ utoa a @ ''.'' @ utoa b @ ''.'' @ utoa c @ r"
  let ?img = "repo @ '':'' @ ?tag"
  have dig: "ch \<in> set (utoa n) \<Longrightarrow> ch \<notin> {CHR ''@'', CHR '':'', CHR ''/''}" for ch n
    using set_utoa [of ch n] by (auto simp: is_digit_def)
  have tag: "set ?tag \<inter> {CHR ''@'', CHR '':'', CHR ''/''} = {}"
    using assms(5,7) dig by auto
  have "CHR ''@'' \<notin> set ?img" using tag assms(4) by auto
  hence cut: "takeWhile (\<lambda>ch. ch \<noteq> CHR ''@'') (?img @ digest) = ?img"
    using assms(8) by (subst takeWhile_append2) (auto simp: takeWhile_eq_Nil_iff)
  have idx: "LastIndex ?img CHR '':'' = int (length repo)"
    using LastIndex_append [of "CHR '':''" ?tag repo] tag by auto
  have pat: "imageVersionPattern ?tag = Some (utoa a, utoa b, utoa c)"
    using assms(5-7) by (intro imageVersionPattern_utoa) auto
  have "imageVersion (?img @ digest) = Some (int a, int b, int c)"
    unfolding imageVersion_def cut Let_def idx using pat tag atoi_utoa assms(1-3) by simp
  thus ?thesis by simp
qed

lemma imageVersion_roundtrip_witness:
  "imageVersion (''localhost:5000/kahuna'' @ '':'' @ ''v'' @ utoa 1 @ ''.'' @ utoa 12 @ ''.'' @ utoa 6 @ ''-rc.1'' @ ''@sha256:abc'') = Some (1, 12, 6)"
  using imageVersion_roundtrip [of 1 12 6 "''localhost:5000/kahuna''" "''v''" "''-rc.1''" "''@sha256:abc''"] by simp



section \<open>The claim and the key are never lost\<close>

lemma kube_pvc_laws: "kube_laws V kb \<Longrightarrow> resource_laws (vw_PVC V) pvc_Meta (\<lambda>_. ()) (kb_PVC kb)"
  by (simp add: kube_laws_def)

text \<open>A claim that has a volume, or ever had one, or is already being deleted.\<close>

definition claim_protected :: "PersistentVolumeClaim \<Rightarrow> bool" where
  "claim_protected p \<longleftrightarrow> pvc_VolumeName p \<noteq> [] \<or> pvc_Phase p \<notin> {[], ''Pending''} \<or>
     om_DeletionTimestamp (pvc_Meta p) \<noteq> None"

lemma claimNeedsReplacing_unprotected: "claimNeedsReplacing existing desired \<Longrightarrow> \<not> claim_protected existing"
  by (auto simp: claimNeedsReplacing_def claim_protected_def split: if_splits)

lemma sameAccessModes_iff: "sameAccessModes a b \<longleftrightarrow> set a = set b"
  by (auto simp: sameAccessModes_def list_all_iff)

lemma reconcileBackupClaim_keeps:
  assumes laws: "kube_laws V kb" and run: "reconcileBackupClaim kb c b claim w = (w', r)"
    and old: "vw_PVC V w k = Some p" "claim_protected p"
  shows "vw_PVC V w' k = Some p"
proof -
  note L = kube_pvc_laws [OF laws]
  let ?d = "desiredBackupClaim c b claim"
  let ?key = "meta_key (pvc_Meta ?d)"
  obtain w1 r1 where g: "ka_Get (kb_PVC kb) ?key w = (w1, r1)" by fastforce
  note G = resource_get [OF L g]
  have v: "vw_PVC V w1 k = Some p" using old G(1) by simp
  have create: "vw_PVC V w2 k = Some p" if "ka_Create (kb_PVC kb) ?d w1 = (w2, r2)" for w2 r2
    by (rule resource_create_keeps [OF L that v])
  have delete: "vw_PVC V w2 k = Some p"
    if "r1 = Inr x" "claimNeedsReplacing x ?d" "ka_Delete (kb_PVC kb) ?key pre w1 = (w2, r2)" for x pre w2 r2
  proof -
    have "vw_PVC V w ?key = Some x" using G(2) that(1) by blast
    hence "k \<noteq> ?key" using old claimNeedsReplacing_unprotected [OF that(2)] by auto
    thus ?thesis using resource_delete(2) [OF L that(3)] v by simp
  qed
  show ?thesis
    using run v by (auto simp: reconcileBackupClaim_def Let_def g split: sum.splits prod.splits if_splits option.splits
        dest: create delete)
qed

lemma reconcileBackupKey_keeps:
  assumes laws: "kube_laws V kb" and run: "reconcileBackupKey kb c w = (w', r)"
    and old: "vw_Secret V w k = Some s"
  shows "vw_Secret V w' k = Some s"
proof -
  note L = kube_secret_laws [OF laws]
  have calls: "reads_keep (vw_Secret V) kb" using laws by (simp add: kube_laws_def calls_keep_def)
  obtain w1 r1 where g: "ka_Get (kb_Secret kb) (kc_Namespace c, backupMACSecretName c) w = (w1, r1)" by fastforce
  obtain w2 r2 where rnd: "kb_Rand kb backupMACKeyBytes w1 = (w2, r2)" by fastforce
  have v: "vw_Secret V w1 k = Some s" "vw_Secret V w2 k = Some s"
    using old resource_get(1) [OF L g] reads_keepD(4) [OF calls rnd] by simp_all
  have create: "vw_Secret V w3 k = Some s" if "ka_Create (kb_Secret kb) x w2 = (w3, r3)" for x w3 r3
    using resource_create_keeps [OF L that] v(2) by simp
  from run v old show ?thesis
    by (auto simp: reconcileBackupKey_def g rnd Let_def split: if_splits sum.splits prod.splits dest: create)
qed

text \<open>Neither touches anything else.\<close>

lemma reconcileBackupClaim_frame:
  assumes "resource_keeps v (kb_PVC kb)" "reconcileBackupClaim kb c b cl w = (w', r)"
  shows "v w' = v w"
  using assms(2) by (auto simp: reconcileBackupClaim_def Let_def split: sum.splits prod.splits if_splits option.splits
      dest!: resource_keepsD [OF assms(1)])

lemma reconcileBackupKey_frame:
  assumes "resource_keeps v (kb_Secret kb)" "reads_keep v kb" "reconcileBackupKey kb c w = (w', r)"
  shows "v w' = v w"
  using assms(3) by (auto simp: reconcileBackupKey_def Let_def split: sum.splits prod.splits if_splits option.splits
      dest!: resource_keepsD [OF assms(1)] reads_keepD(4) [OF assms(2)])

text \<open>Both together: claims that can hold data and Secrets survive; StatefulSets are not touched.\<close>

lemma reconcileBackupResources_keeps:
  assumes laws: "kube_laws V kb" and run: "reconcileBackupResources kb c w = (w', r)"
  shows "vw_PVC V w k = Some p \<Longrightarrow> claim_protected p \<Longrightarrow> vw_PVC V w' k = Some p"
    "vw_Secret V w k = Some s \<Longrightarrow> vw_Secret V w' k = Some s"
    "vw_StatefulSet V w' = vw_StatefulSet V w"
proof -
  have pk: "resource_keeps (vw_PVC V) (kb_Secret kb)" "reads_keep (vw_PVC V) kb" and
    sk: "resource_keeps (vw_Secret V) (kb_PVC kb)" and
    tk: "resource_keeps (vw_StatefulSet V) (kb_PVC kb)" "resource_keeps (vw_StatefulSet V) (kb_Secret kb)" "reads_keep (vw_StatefulSet V) kb"
    using laws by (simp_all add: kube_laws_def calls_keep_def)
  note frames = reconcileBackupClaim_frame [OF sk] reconcileBackupClaim_frame [OF tk(1)]
    reconcileBackupKey_frame [OF pk] reconcileBackupKey_frame [OF tk(2,3)]
  show "vw_PVC V w k = Some p \<Longrightarrow> claim_protected p \<Longrightarrow> vw_PVC V w' k = Some p"
    using run by (auto simp: reconcileBackupResources_def split: option.splits prod.splits if_splits
        dest!: frames(3) dest: reconcileBackupClaim_keeps [OF laws])
  show "vw_Secret V w k = Some s \<Longrightarrow> vw_Secret V w' k = Some s"
    using run by (auto simp: reconcileBackupResources_def split: option.splits prod.splits if_splits
        dest!: frames(1) dest: reconcileBackupKey_keeps [OF laws])
  show "vw_StatefulSet V w' = vw_StatefulSet V w"
    using run by (auto simp: reconcileBackupResources_def split: option.splits prod.splits if_splits dest!: frames(2,4))
qed


section \<open>Starting a backup\<close>

lemma readBackupVolume_sound:
  assumes laws: "kube_laws V kb" and run: "readBackupVolume kb c b w = (w', v)"
  shows "bv_message v \<noteq> []"
    "bv_bound v \<Longrightarrow> \<exists>p. vw_PVC V w (kc_Namespace c, backupClaimName c b) = Some p \<and> pvc_Phase p = ''Bound''"
    "bv_ready v \<Longrightarrow> bv_bound v"
proof -
  obtain w1 r1 where g: "ka_Get (kb_PVC kb) (kc_Namespace c, backupClaimName c b) w = (w1, r1)" by fastforce
  have "bv_message v \<noteq> [] \<and> (bv_ready v \<longrightarrow> bv_bound v) \<and> (bv_bound v \<longrightarrow> (\<exists>p. r1 = Inr p \<and> pvc_Phase p = ''Bound''))"
    using run unfolding readBackupVolume_def Let_def g
    by (auto split: sum.splits if_splits prod.splits option.splits)
  thus "bv_message v \<noteq> []" "bv_ready v \<Longrightarrow> bv_bound v"
    "bv_bound v \<Longrightarrow> \<exists>p. vw_PVC V w (kc_Namespace c, backupClaimName c b) = Some p \<and> pvc_Phase p = ''Bound''"
    using resource_get(2) [OF kube_pvc_laws [OF laws] g] by blast+
qed

lemma readBackupVolume_frame:
  assumes "resource_keeps v (kb_PVC kb) \<or> (\<forall>k. keeps v (ka_Get (kb_PVC kb) k))" "reads_keep v kb" "readBackupVolume kb c b w = (w', x)"
  shows "v w' = v w"
proof -
  have get: "ka_Get (kb_PVC kb) k w1 = (w2, r) \<Longrightarrow> v w2 = v w1" for k w1 w2 r
    using assms(1) resource_keepsD(1) keepsD by metis
  show ?thesis
    using assms(3) unfolding readBackupVolume_def latestClaimWarning_def Let_def
    by (auto split: sum.splits if_splits prod.splits option.splits dest!: get reads_keepD(3) [OF assms(2)])
qed

lemma schedule_backup_fields:
  assumes "schedule_backup impl qv am c spec m pods volume inp status runner = (status', runner', wake, launch)"
  shows "\<exists>cs. status' = status\<lparr>st_Conditions := cs\<rparr>"
  using assms unfolding schedule_backup_def setBackupCondition_def setCondition_def Let_def
  by (auto split: if_splits)

text \<open>What has to hold for the decision to become a running backup.\<close>

definition may_start :: "f64_impl \<Rightarrow> (quantity \<Rightarrow> int64) \<Rightarrow> KahunaCluster \<Rightarrow> BackupSpec \<Rightarrow> Membership option \<Rightarrow> Pod list \<Rightarrow> backupVolume \<Rightarrow> backupInput \<Rightarrow> bool" where
  "may_start impl qv c spec m pods volume inp \<longleftrightarrow>
     bd_kind (decideBackup inp) \<noteq> backupNone \<and> bks_Suspend spec \<noteq> Some True \<and> bv_bound volume \<and>
     backupBlocked impl qv c m pods = []"

lemma schedule_backup_launch:
  assumes "bv_message volume \<noteq> []"
    "schedule_backup impl qv am c spec m pods volume inp status runner = (status', runner', wake, launch)"
  shows "launch = (if may_start impl qv c spec m pods volume inp then Some \<lparr>bl_address = br_next runner,
        bl_kind = bd_kind (decideBackup inp), bl_parent = bst_LastBackupID (bin_status inp),
        bl_targets = backup_targets c pods, bl_timeout = backup_timeout spec\<rparr> else None)"
    "runner' = (if may_start impl qv c spec m pods volume inp then runner_start (cluster_key c)
        (new_job (bd_kind (decideBackup inp)) (bd_scheduled (decideBackup inp)) (bst_LastBackupID (bin_status inp))) runner
      else runner)"
  using assms unfolding schedule_backup_def may_start_def Let_def by (auto split: if_splits)

lemma incremental_has_parent:
  assumes "bd_kind (decideBackup inp) = backupIncremental"
  shows "bst_LastBackupID (bin_status inp) \<noteq> []"
proof -
  have "bd_kind (backup_due inp) = backupIncremental"
    using assms by (auto simp: decideBackup_def Let_def split: if_splits)
  thus ?thesis by (auto simp: backup_due_def Let_def case_prod_beta split: option.splits if_splits)
qed

definition prior_backup :: "KahunaCluster \<Rightarrow> BackupStatus" where
  "prior_backup c = (case st_Backup (kc_Status c) of Some st \<Rightarrow> st | None \<Rightarrow> BackupStatus_zero)"

lemma prior_backup_volume [simp]:
  "(case st_Backup (setBackupVolumeCondition am (kc_Status c) v) of Some st \<Rightarrow> st | None \<Rightarrow> BackupStatus_zero) = prior_backup c"
  by (simp add: setBackupVolumeCondition_def prior_backup_def)

text \<open>The status a pass decides from: the stored one, with the result of a job that has finished.\<close>

definition collected :: "KahunaCluster \<Rightarrow> cluster_key backupRunner \<Rightarrow> gotime \<Rightarrow> panic + BackupStatus" where
  "collected c runner now =
     (case runner_jobs runner (cluster_key c) of
        Some job \<Rightarrow> if bj_done job then applyBackupResult (prior_backup c) job now else Inr (prior_backup c)
      | None \<Rightarrow> Inr (prior_backup c))"

definition still_running :: "KahunaCluster \<Rightarrow> cluster_key backupRunner \<Rightarrow> backupJob option" where
  "still_running c runner =
     (case runner_jobs runner (cluster_key c) of Some job \<Rightarrow> if bj_done job then None else Some job | None \<Rightarrow> None)"

lemma runner_poll_snd [simp]: "snd (runner_poll k r) = runner_jobs r k"
  by (simp add: runner_poll_cases split: option.split)

definition parse_incremental :: "(string \<Rightarrow> goerr + schedule) \<Rightarrow> BackupSpec \<Rightarrow> goerr + schedule option" where
  "parse_incremental parse spec =
     (if bks_IncrementalSchedule spec \<noteq> [] then map_sum id Some (parse (bks_IncrementalSchedule spec)) else Inr None)"

text \<open>The pass, with its inputs named.\<close>

lemma reconcileBackup_eq:
  assumes "sp_Backup (kc_Spec c) = Some spec" "readBackupVolume kb c spec w = (w1, volume)"
  shows "reconcileBackup impl qv am parse kb c m pods runner w =
    (case collected c runner (kb_Now kb w) of
       Inl p \<Rightarrow> (w1, Inl p)
     | Inr st \<Rightarrow>
         let status = setBackupVolumeCondition am (kc_Status c) volume; runner' = fst (runner_poll (cluster_key c) runner);
             invalid = (\<lambda>field text err. (w1, Inr (with_backup st (setBackupCondition am status True ''InvalidSchedule''
               (field @ '' '' @ fmt_q text @ '': '' @ err_text err)), runner', 0, None))) in
         (case parse (bks_Schedule spec) of
            Inl err \<Rightarrow> invalid ''backup.schedule'' (bks_Schedule spec) err
          | Inr full \<Rightarrow>
              (case parse_incremental parse spec of
                 Inl err \<Rightarrow> invalid ''backup.incrementalSchedule'' (bks_IncrementalSchedule spec) err
               | Inr incremental \<Rightarrow>
                   if backupUnsupported c \<noteq> [] then
                     (w1, Inr (with_backup st (setBackupCondition am status True ''UnsupportedImage'' (backupUnsupported c)), runner', 0, None))
                   else
                     (case still_running c runner of
                        Some job \<Rightarrow>
                          (w1, Inr (with_backup st (setBackupCondition am status (bst_ConsecutiveFailures st > 0)
                             (failedOr st ''BackupRunning'') (running_text st (bj_kind job) (bj_scheduled job))),
                           runner', backupPollInterval, None))
                      | None \<Rightarrow>
                          let (status, runner', wake, launch) =
                            schedule_backup impl qv am c spec m pods volume
                              \<lparr>bin_full = full, bin_incremental = incremental, bin_status = st, bin_now = kb_Now kb w\<rparr>
                              status runner'
                          in (w1, Inr (with_backup st status, runner', wake, launch))))))"
proof -
  obtain r' p where rp: "runner_poll (cluster_key c) runner = (r', p)" by fastforce
  have p: "p = runner_jobs runner (cluster_key c)" using runner_poll_snd [of "cluster_key c" runner] rp by simp
  show ?thesis
    unfolding reconcileBackup_def Let_def assms option.case prod.case rp fst_conv prior_backup_volume collected_def
      still_running_def p parse_incremental_def
    by (rule refl)
qed

text \<open>C6: A pass starts a backup only when it is safe to and only one at a time: the claim is bound, the schedules
  parse, backups are not suspended, the image supports them, nothing blocks them, no earlier job of
  the cluster is still running, and the schedule says one is due. The job started is the one decided
  on, it is the cluster's job from then on, and an incremental one has a parent.\<close>

theorem reconcileBackup_starts_safely:
  assumes laws: "kube_laws V kb" and wf: "runner_wf runner"
    and run: "reconcileBackup impl qv am parse kb c m pods runner w = (w', Inr (status, runner', wake, Some l))"
  shows "\<exists>spec full inc pvc st d.
    sp_Backup (kc_Spec c) = Some spec \<and> parse (bks_Schedule spec) = Inr full \<and> parse_incremental parse spec = Inr inc \<and>
    vw_PVC V w (kc_Namespace c, backupClaimName c spec) = Some pvc \<and> pvc_Phase pvc = ''Bound'' \<and>
    bks_Suspend spec \<noteq> Some True \<and> backupUnsupported c = [] \<and> backupBlocked impl qv c m pods = [] \<and>
    still_running c runner = None \<and> collected c runner (kb_Now kb w) = Inr st \<and>
    d = decideBackup \<lparr>bin_full = full, bin_incremental = inc, bin_status = st, bin_now = kb_Now kb w\<rparr> \<and>
    bd_kind d \<noteq> backupNone \<and> bl_kind l = bd_kind d \<and> bl_parent l = bst_LastBackupID st \<and>
    (bl_kind l = backupIncremental \<longrightarrow> bl_parent l \<noteq> []) \<and>
    runner_jobs runner' (cluster_key c) = Some (new_job (bd_kind d) (bd_scheduled d) (bst_LastBackupID st)) \<and>
    st_Backup status = Some st"
proof -
  obtain spec where sp: "sp_Backup (kc_Spec c) = Some spec"
    using run by (cases "sp_Backup (kc_Spec c)") (auto simp: reconcileBackup_def Let_def)
  obtain w1 volume where vol: "readBackupVolume kb c spec w = (w1, volume)" by fastforce
  note R = run [unfolded reconcileBackup_eq [OF sp vol] Let_def]
  obtain st where st: "collected c runner (kb_Now kb w) = Inr st" using R by (auto split: sum.splits)
  obtain full where full: "parse (bks_Schedule spec) = Inr full" using R st by (auto split: sum.splits)
  obtain inc where inc: "parse_incremental parse spec = Inr inc" using R st full by (auto split: sum.splits)
  have us: "backupUnsupported c = []" using R st full inc by (auto split: if_splits)
  have idle: "still_running c runner = None" using R st full inc us by (auto split: option.splits)
  let ?inp = "\<lparr>bin_full = full, bin_incremental = inc, bin_status = st, bin_now = kb_Now kb w\<rparr>"
  let ?r = "fst (runner_poll (cluster_key c) runner)"
  obtain s' where sb: "schedule_backup impl qv am c spec m pods volume ?inp (setBackupVolumeCondition am (kc_Status c) volume) ?r =
      (s', runner', wake, Some l)" and s': "status = with_backup st s'"
    using R st full inc us idle by (auto split: prod.splits)
  note S = schedule_backup_launch [OF readBackupVolume_sound(1) [OF laws vol] sb]
  have ms: "may_start impl qv c spec m pods volume ?inp" using S(1) by (auto split: if_splits)
  have "runner_wf ?r" using wf by (simp add: runner_poll_cases runner_forget_refines split: option.split)
  from runner_start_refines(2) [OF this] have "runner_jobs runner' (cluster_key c) =
      Some (new_job (bd_kind (decideBackup ?inp)) (bd_scheduled (decideBackup ?inp)) (bst_LastBackupID st))"
    using S(2) ms by simp
  moreover obtain pvc where "vw_PVC V w (kc_Namespace c, backupClaimName c spec) = Some pvc" "pvc_Phase pvc = ''Bound''"
    using readBackupVolume_sound(2) [OF laws vol] ms by (auto simp: may_start_def)
  ultimately show ?thesis
    using sp full inc us idle st ms S(1) s' incremental_has_parent [of ?inp]
    by (intro exI [of _ spec] exI [of _ full] exI [of _ inc] exI [of _ pvc] exI [of _ st] exI [of _ "decideBackup ?inp"])
      (auto simp: may_start_def with_backup_def split: if_splits)
qed

text \<open>A runner whose finished jobs all have a result, as every job ends with one.\<close>

definition runner_sane :: "'k backupRunner \<Rightarrow> bool" where
  "runner_sane r \<longleftrightarrow> runner_wf r \<and>
     (\<forall>k j. runner_jobs r k = Some j \<and> bj_done j \<longrightarrow> bj_err j \<noteq> None \<or> bj_info j \<noteq> None)"

lemma runner_sane_step:
  assumes "runner_sane r" "case e of Start k j \<Rightarrow> \<not> bj_done j | _ \<Rightarrow> True"
  shows "runner_sane (fst (runner_step r e))"
proof -
  have wf: "runner_wf r" using assms(1) by (simp add: runner_sane_def)
  have fin: "bj_err (finished x j) \<noteq> None \<or> bj_info (finished x j) \<noteq> None" for x j by (cases x) auto
  show ?thesis
    unfolding runner_sane_def
  proof (intro conjI allI impI)
    show "runner_wf (fst (runner_step r e))" by (rule jr.inv_step [OF wf])
  next
    fix k j assume j: "runner_jobs (fst (runner_step r e)) k = Some j \<and> bj_done j"
    show "bj_err j \<noteq> None \<or> bj_info j \<noteq> None"
    proof (cases e)
      case (Start k' j')
      with j assms show ?thesis by (auto simp: runner_start_refines [OF wf] runner_sane_def split: if_splits)
    next
      case (Finish a x)
      with j assms(1) fin show ?thesis by (auto simp: runner_finish_refines [OF wf] runner_sane_def split: if_splits)
    next
      case (Poll k')
      with j assms(1) show ?thesis
        by (auto simp: runner_poll_cases runner_forget_refines [OF wf] runner_sane_def split: option.splits if_splits)
    next
      case (Forget k')
      with j assms(1) show ?thesis by (auto simp: runner_forget_refines [OF wf] runner_sane_def split: if_splits)
    qed
  qed
qed

lemma runner_sane_ops:
  assumes "runner_sane r"
  shows "runner_sane (fst (runner_poll k r))" "runner_sane (runner_forget k r)"
    "runner_sane (runner_start k (new_job kind t p) r)"
proof -
  show "runner_sane (fst (runner_poll k r))"
    using runner_sane_step [OF assms, of "Poll k"] by (simp add: case_prod_beta split: option.splits)
  show "runner_sane (runner_forget k r)" using runner_sane_step [OF assms, of "Forget k"] by simp
  show "runner_sane (runner_start k (new_job kind t p) r)"
    using runner_sane_step [OF assms, of "Start k (new_job kind t p)"] by (simp add: new_job_def)
qed

lemma collected_ok:
  assumes "runner_sane runner"
  shows "\<exists>st. collected c runner now = Inr st"
proof (cases "runner_jobs runner (cluster_key c)")
  case (Some j)
  hence "bj_done j \<longrightarrow> bj_err j \<noteq> None \<or> bj_info j \<noteq> None" using assms unfolding runner_sane_def by blast
  thus ?thesis using Some by (auto simp: collected_def applyBackupResult_def split: option.split)
qed (simp add: collected_def)

text \<open>The backup pass never panics and always leaves the runner in order: with the runner in the state that
  starts, polls, deletions and ends of jobs produce, every pass returns normally, to a runner in such
  a state, and changes nothing of the status but its backup part and its conditions.\<close>

lemma reconcileBackup_total:
  assumes laws: "kube_laws V kb" and sane: "runner_sane runner"
  shows "\<exists>w' status runner' wake launch.
    reconcileBackup impl qv am parse kb c m pods runner w = (w', Inr (status, runner', wake, launch)) \<and>
    runner_sane runner' \<and> (\<exists>b cs. status = (kc_Status c)\<lparr>st_Backup := b, st_Conditions := cs\<rparr>) \<and>
    (sp_Backup (kc_Spec c) = None \<longrightarrow> st_Backup status = None \<and> runner_jobs runner' (cluster_key c) = None)"
proof (cases "sp_Backup (kc_Spec c)")
  case None
  have "runner_wf runner" using sane by (simp add: runner_sane_def)
  thus ?thesis using None runner_sane_ops(2) [OF sane]
    by (auto simp: reconcileBackup_def Let_def runner_forget_refines)
next
  case (Some spec)
  obtain w1 volume where vol: "readBackupVolume kb c spec w = (w1, volume)" by fastforce
  obtain st where st: "collected c runner (kb_Now kb w) = Inr st" using collected_ok [OF sane] by blast
  note E = reconcileBackup_eq [OF Some vol, of impl qv am parse m pods runner, unfolded st Let_def]
  let ?r = "fst (runner_poll (cluster_key c) runner)"
  have shape: "\<exists>b cs. with_backup st (s\<lparr>st_Conditions := cs'\<rparr>) = (kc_Status c)\<lparr>st_Backup := b, st_Conditions := cs\<rparr>"
    if "\<exists>cs. s = (kc_Status c)\<lparr>st_Conditions := cs\<rparr>" for s cs'
    using that by (intro exI [of _ "Some st"] exI [of _ cs'], cases "kc_Status c") (auto simp: with_backup_def)
  have vs: "\<exists>cs. setBackupVolumeCondition am (kc_Status c) volume = (kc_Status c)\<lparr>st_Conditions := cs\<rparr>"
    by (auto simp: setBackupVolumeCondition_def setCondition_def)
  have bs: "\<exists>b cs. with_backup st (setBackupCondition am (setBackupVolumeCondition am (kc_Status c) volume) f r msg) =
      (kc_Status c)\<lparr>st_Backup := b, st_Conditions := cs\<rparr>" for f r msg
    unfolding setBackupCondition_def setCondition_def by (rule shape [OF vs])
  have sb: "(\<exists>b cs. with_backup st s = (kc_Status c)\<lparr>st_Backup := b, st_Conditions := cs\<rparr>) \<and> runner_sane r'"
    if "schedule_backup impl qv am c spec m pods volume inp (setBackupVolumeCondition am (kc_Status c) volume) ?r = (s, r', wk, l)" for inp s r' wk l
    using schedule_backup_fields [OF that] shape [OF vs] schedule_backup_launch(2) [OF readBackupVolume_sound(1) [OF laws vol] that]
      runner_sane_ops(1,3) [OF runner_sane_ops(1) [OF sane]] runner_sane_ops(1) [OF sane] by auto
  show ?thesis unfolding E using Some bs sb runner_sane_ops(1) [OF sane]
    by (auto split: sum.split option.split prod.split)
qed

lemma reconcileBackup_starts:
  assumes laws: "kube_laws V kb" and sp: "sp_Backup (kc_Spec c) = Some spec"
    and vol: "readBackupVolume kb c spec w = (w1, volume)" "bv_bound volume"
    and parse: "parse (bks_Schedule spec) = Inr full" "parse_incremental parse spec = Inr inc"
    and idle: "still_running c runner = None" "collected c runner (kb_Now kb w) = Inr st"
    and ok: "backupUnsupported c = []" "bks_Suspend spec \<noteq> Some True" "backupBlocked impl qv c m pods = []"
    and due: "bd_kind (decideBackup \<lparr>bin_full = full, bin_incremental = inc, bin_status = st, bin_now = kb_Now kb w\<rparr>) = kind" "kind \<noteq> backupNone"
  shows "\<exists>status runner' l.
    reconcileBackup impl qv am parse kb c m pods runner w = (w1, Inr (status, runner', backupPollInterval, Some l)) \<and>
    bl_kind l = kind \<and> bl_targets l = backup_targets c pods \<and> bl_timeout l = backup_timeout spec"
proof -
  let ?inp = "\<lparr>bin_full = full, bin_incremental = inc, bin_status = st, bin_now = kb_Now kb w\<rparr>"
  let ?r = "fst (runner_poll (cluster_key c) runner)"
  obtain s' r' wake l where sb: "schedule_backup impl qv am c spec m pods volume ?inp
      (setBackupVolumeCondition am (kc_Status c) volume) ?r = (s', r', wake, l)"
    by (metis prod_cases4)
  have ms: "may_start impl qv c spec m pods volume ?inp" using vol ok due by (simp add: may_start_def)
  have "wake = backupPollInterval" using sb ms unfolding schedule_backup_def may_start_def Let_def by (auto split: if_splits)
  moreover note schedule_backup_launch(1) [OF readBackupVolume_sound(1) [OF laws vol(1)] sb]
  moreover have "reconcileBackup impl qv am parse kb c m pods runner w = (w1, Inr (with_backup st s', r', wake, l))"
    unfolding reconcileBackup_eq [OF sp vol(1)] Let_def idle parse using ok sb by simp
  ultimately show ?thesis using ms due by auto
qed

text \<open>C20: A due backup does start: with the claim bound, valid schedules, a supported image, no job of the
  cluster running and nothing blocking, the pass starts the backup the schedule asks for, sends it to
  every addressed pod of a desired node in turn, and comes back to look at it.\<close>

theorem reconcileBackup_starts_due:
  assumes laws: "kube_laws V kb" and sp: "sp_Backup (kc_Spec c) = Some spec"
    and vol: "readBackupVolume kb c spec w = (w1, volume)" "bv_bound volume"
    and parse: "parse (bks_Schedule spec) = Inr full" "parse_incremental parse spec = Inr inc"
    and idle: "still_running c runner = None" "collected c runner (kb_Now kb w) = Inr st"
    and ok: "backupUnsupported c = []" "bks_Suspend spec \<noteq> Some True" "backupBlocked impl qv c m pods = []"
    and due: "bd_kind (decideBackup \<lparr>bin_full = full, bin_incremental = inc, bin_status = st, bin_now = kb_Now kb w\<rparr>) = kind" "kind \<noteq> backupNone"
  shows "\<exists>status runner' l.
    reconcileBackup impl qv am parse kb c m pods runner w = (w1, Inr (status, runner', backupPollInterval, Some l)) \<and>
    bl_kind l = kind \<and> bl_targets l = backup_targets c pods \<and> bl_timeout l = backup_timeout spec"
  using assms by (rule reconcileBackup_starts)

definition example_backup_spec :: BackupSpec where
  "example_backup_spec = \<lparr>bks_Schedule = ''@hourly'', bks_IncrementalSchedule = [], bks_Suspend = None, bks_Timeout = None,
     bks_Volume = \<lparr>bvs_ClaimName = Some ''archive'', bvs_Claim = None\<rparr>, bks_ClusterID = [], bks_MACKeySecretRef = None,
     bks_Retention = None\<rparr>"

definition example_backed :: KahunaCluster where
  "example_backed = example_settled\<lparr>kc_Spec := example_spec\<lparr>sp_Backup := Some example_backup_spec\<rparr>\<rparr>"

definition example_claim :: PersistentVolumeClaim where
  "example_claim = (volumeClaim ''archive'' \<lparr>vs_Size = 1, vs_StorageClassName = None, vs_AccessModes = []\<rparr>)\<lparr>pvc_Phase := ''Bound''\<rparr>"

definition backed_world :: mem_world where
  "backed_world = example_world\<lparr>mw_PVC := [(''prod'', ''archive'') \<mapsto> example_claim], mw_Now := 12 * hour\<rparr>"

lemma example_backed_fields [simp]:
  "sp_Backup (kc_Spec example_backed) = Some example_backup_spec" "sp_Image (kc_Spec example_backed) = ''kahuna:1.12.5''"
  "sp_Replication (kc_Spec example_backed) = None" "desiredReplicas example_backed = 3"
  "st_Bootstrapped (kc_Status example_backed)" "st_Backup (kc_Status example_backed) = None"
  "kc_Namespace example_backed = ''prod''" "backupClaimName example_backed example_backup_spec = ''archive''"
  by (simp_all add: example_backed_def example_settled_def example_cluster_def desiredReplicas_def specReplicas_def
      KahunaClusterStatus_zero_def backupClaimName_def example_backup_spec_def)

lemma example_backed_volume:
  "\<exists>volume. readBackupVolume mem_kube example_backed example_backup_spec backed_world = (backed_world, volume) \<and> bv_bound volume"
proof -
  have g: "ka_Get (kb_PVC mem_kube) (''prod'', ''archive'') backed_world = (backed_world, Inr example_claim)"
    by (simp add: mem_resource_def backed_world_def)
  have b: "pvc_Phase example_claim = ''Bound''" by (simp add: example_claim_def)
  show ?thesis unfolding readBackupVolume_def Let_def example_backed_fields g by (simp add: b)
qed

lemma example_backed_unblocked:
  "backupBlocked example_impl (\<lambda>_. 0) example_backed (Some (example_roster example_backed (range_int 3)))
     (settled_pods example_impl (\<lambda>_. 0) example_backed [0, 1, 2]) = []"
  using blocked_scan_Nil [of 0 "settled_pods example_impl (\<lambda>_. 0) example_backed [0, 1, 2]" example_backed
      "configHash (entrypointScript example_impl (\<lambda>_. 0) example_backed)" 3]
    settled_pods_current [of example_backed] settled_pods_members example_roster_matches [of 3 example_backed]
  by (simp add: backupBlocked_def Let_def)

lemma example_backed_first:
  "bd_kind (decideBackup \<lparr>bin_full = hourly, bin_incremental = None, bin_status = BackupStatus_zero, bin_now = mw_Now backed_world\<rparr>) = backupFull"
  by (simp add: decideBackup_def backup_due_def backup_retry_at_def BackupStatus_zero_def backed_world_def Let_def)

lemma example_backed_idle:
  "still_running example_backed runner_empty = None" "collected example_backed runner_empty t = Inr BackupStatus_zero"
  by (simp_all add: still_running_def collected_def runner_jobs_def runner_empty_def prior_backup_def)

lemma example_backed_spec:
  "parse_incremental (\<lambda>_. Inr hourly) example_backup_spec = Inr None" "backupUnsupported example_backed = []"
  "bks_Suspend example_backup_spec \<noteq> Some True"
  by (simp_all add: parse_incremental_def example_backup_spec_def backupUnsupported_def)

lemma example_backed_run:
  "\<exists>status runner' l. reconcileBackup example_impl (\<lambda>_. 0) apimeta_simple (\<lambda>_. Inr hourly) mem_kube example_backed
      (Some (example_roster example_backed (range_int 3))) (settled_pods example_impl (\<lambda>_. 0) example_backed [0, 1, 2])
      runner_empty backed_world = (backed_world, Inr (status, runner', backupPollInterval, Some l)) \<and> bl_kind l = backupFull"
proof -
  obtain volume where v: "readBackupVolume mem_kube example_backed example_backup_spec backed_world = (backed_world, volume)"
      "bv_bound volume" using example_backed_volume by blast
  from reconcileBackup_starts [where parse = "\<lambda>_. Inr hourly", OF mem_kube_laws example_backed_fields(1) v refl
      example_backed_spec(1) example_backed_idle example_backed_spec(2,3) example_backed_unblocked, of backupFull]
  show ?thesis using example_backed_first by simp blast
qed

theorem reconcileBackup_starts_due_witness:
  "\<exists>volume status runner' l. readBackupVolume mem_kube example_backed example_backup_spec backed_world = (backed_world, volume) \<and>
    reconcileBackup example_impl (\<lambda>_. 0) apimeta_simple (\<lambda>_. Inr hourly) mem_kube example_backed
      (Some (example_roster example_backed (range_int 3))) (settled_pods example_impl (\<lambda>_. 0) example_backed [0, 1, 2])
      runner_empty backed_world = (backed_world, Inr (status, runner', backupPollInterval, Some l)) \<and>
    bl_targets l = backup_targets example_backed (settled_pods example_impl (\<lambda>_. 0) example_backed [0, 1, 2])"
proof -
  obtain volume where v: "readBackupVolume mem_kube example_backed example_backup_spec backed_world = (backed_world, volume)"
      "bv_bound volume" using example_backed_volume by blast
  from reconcileBackup_starts_due [where parse = "\<lambda>_. Inr hourly", OF mem_kube_laws example_backed_fields(1) v refl
      example_backed_spec(1) example_backed_idle example_backed_spec(2,3) example_backed_unblocked, of backupFull]
  show ?thesis using example_backed_first v by simp blast
qed

theorem reconcileBackup_starts_safely_witness:
  "\<exists>status runner' l. reconcileBackup example_impl (\<lambda>_. 0) apimeta_simple (\<lambda>_. Inr hourly) mem_kube example_backed
      (Some (example_roster example_backed (range_int 3))) (settled_pods example_impl (\<lambda>_. 0) example_backed [0, 1, 2])
      runner_empty backed_world = (backed_world, Inr (status, runner', backupPollInterval, Some l)) \<and>
    runner_jobs runner' (cluster_key example_backed) \<noteq> None"
proof -
  obtain status runner' l where run: "reconcileBackup example_impl (\<lambda>_. 0) apimeta_simple (\<lambda>_. Inr hourly) mem_kube example_backed
      (Some (example_roster example_backed (range_int 3))) (settled_pods example_impl (\<lambda>_. 0) example_backed [0, 1, 2])
      runner_empty backed_world = (backed_world, Inr (status, runner', backupPollInterval, Some l))"
    using example_backed_run by blast
  have "runner_jobs runner' (cluster_key example_backed) \<noteq> None"
    using reconcileBackup_starts_safely [OF mem_kube_laws runner_wf_empty run] by (elim exE conjE) simp
  with run show ?thesis by blast
qed

lemma runner_sane_empty [simp]: "runner_sane runner_empty"
  by (simp add: runner_sane_def) (simp add: runner_jobs_def runner_empty_def)

end
