(* ===== verification/Controller.thy ===== *)
theory Controller
  imports Backups
begin

text \<open>
  One pass over a cluster, from \<open>src/internal/controller/kahunacluster_controller.go\<close>: the managed
  objects, the sizing of the StatefulSet, the status and \<open>Reconcile\<close> itself, which runs them in the
  source's order and stops at the first error.

  The API server and the Kahuna servers are the parameter \<open>kb\<close>; \<open>am\<close> is apimachinery's
  condition handling, \<open>sel\<close> is \<open>LabelSelectorAsSelector\<close> with \<open>String\<close>, and \<open>parse\<close> the cron parser.
  A pass that panics has a world but no other result. Logging is left out.
\<close>


section \<open>Small helpers\<close>

definition requeueProgressing :: duration where "requeueProgressing = 10 * second"
definition requeueSteady :: duration where "requeueSteady = 60 * second"

definition keystoreOrDefault :: "string \<Rightarrow> string" where
  "keystoreOrDefault msg = (if msg = [] then ''PKCS#12 keystore is present'' else msg)"

definition rosterMessage :: "bool \<Rightarrow> int32 \<Rightarrow> int32 \<Rightarrow> int32 \<Rightarrow> string" where
  "rosterMessage known voters learners desired =
     (if \<not> known then ''cluster membership could not be read from any node''
      else if learners > 0 then
        itoa voters @ '' voters, '' @ itoa learners @ '' learners still catching up (want '' @ itoa desired @ '' voters)''
      else itoa voters @ '' voters (want '' @ itoa desired @ '')'')"

definition hasQuorum :: "int32 \<Rightarrow> int32 \<Rightarrow> bool" where
  "hasQuorum ready desired = (if desired \<le> 0 then False else ready \<ge> wrap32 (tdiv desired 2 + 1))"

fun readPlacement_loop :: "(string \<Rightarrow> goerr + Placement) \<Rightarrow> KahunaCluster \<Rightarrow> Pod list \<Rightarrow> goerr option \<Rightarrow> goerr + Placement" where
  "readPlacement_loop query cluster [] lastErr =
     Inl (case lastErr of None \<Rightarrow> Errorf ''no ready pod to read placement from'' | Some e \<Rightarrow> e)"
| "readPlacement_loop query cluster (pod # pods) lastErr =
     (if pod_PodIP pod = [] \<or> pod_DeletionTimestamp pod \<noteq> None \<or> \<not> podIsReady pod then
        readPlacement_loop query cluster pods lastErr
      else
        case query (podBaseURL cluster pod) of
          Inl err \<Rightarrow> if is_placement_unsupported err then Inl err else readPlacement_loop query cluster pods (Some err)
        | Inr p \<Rightarrow> Inr p)"

definition readPlacement :: "(string \<Rightarrow> goerr + Placement) \<Rightarrow> KahunaCluster \<Rightarrow> Pod list \<Rightarrow> goerr + Placement" where
  "readPlacement query cluster pods = readPlacement_loop query cluster pods None"

definition listPods :: "'w kube \<Rightarrow> KahunaCluster \<Rightarrow> 'w \<Rightarrow> 'w \<times> (goerr + Pod list)" where
  "listPods kb cluster w = kb_ListPods kb (kc_Namespace cluster) (selectorLabels cluster) w"

fun rolled_out_scan :: "KahunaCluster \<Rightarrow> int32 \<Rightarrow> Pod list \<Rightarrow> int32 \<Rightarrow> bool" where
  "rolled_out_scan cluster replicas [] seen \<longleftrightarrow> replicas > 0 \<and> seen = replicas"
| "rolled_out_scan cluster replicas (pod # pods) seen \<longleftrightarrow>
     (let o' = ordinalOf (pod_Name pod) in
      if o' < 0 \<or> o' \<ge> replicas then rolled_out_scan cluster replicas pods seen
      else if pod_DeletionTimestamp pod \<noteq> None \<or> \<not> podIsReady pod \<or> podImage pod \<noteq> sp_Image (kc_Spec cluster) then False
      else rolled_out_scan cluster replicas pods (wrap32 (seen + 1)))"

definition spec_size :: "StatefulSet \<Rightarrow> int32" where
  "spec_size sts = (case ss_Replicas (sts_Spec sts) of None \<Rightarrow> 0 | Some n \<Rightarrow> n)"

definition imageRolledOut :: "KahunaCluster \<Rightarrow> StatefulSet \<Rightarrow> Pod list \<Rightarrow> bool" where
  "imageRolledOut cluster sts pods = rolled_out_scan cluster (spec_size sts) pods 0"


section \<open>The managed objects\<close>

text \<open>The object a \<open>CreateOrUpdate\<close> starts from carries its name and namespace only.\<close>

definition name_only :: "ObjectMeta \<Rightarrow> ObjectMeta" where
  "name_only m = \<lparr>om_Name = om_Name m, om_Namespace = om_Namespace m, om_Labels = Map.empty, om_Annotations = Map.empty,
     om_UID = [], om_ResourceVersion = [], om_DeletionTimestamp = None, om_Controller = None\<rparr>"

text \<open>What every mutation does to the metadata: the labels of the desired object, and the owner.\<close>

definition own_meta :: "'w kube \<Rightarrow> KahunaCluster \<Rightarrow> ObjectMeta \<Rightarrow> ObjectMeta \<Rightarrow> goerr + ObjectMeta" where
  "own_meta kb cluster desired m = kb_SetController kb cluster (m\<lparr>om_Labels := om_Labels desired\<rparr>)"

definition failed :: "'w \<times> (goerr + 'a) \<Rightarrow> 'w \<times> goerr option" where
  "failed r = (case r of (w, Inl err) \<Rightarrow> (w, Some err) | (w, Inr _) \<Rightarrow> (w, None))"

definition and_then :: "'w \<times> goerr option \<Rightarrow> ('w \<Rightarrow> 'w \<times> goerr option) \<Rightarrow> 'w \<times> goerr option" where
  "and_then r f = (case r of (w, Some err) \<Rightarrow> (w, Some err) | (w, None) \<Rightarrow> f w)"

definition wrapped :: "string \<Rightarrow> 'w \<times> goerr option \<Rightarrow> 'w \<times> goerr option" where
  "wrapped doing r = (case r of (w, e) \<Rightarrow> (w, map_option (WrapErr doing) e))"

definition applyService :: "'w kube \<Rightarrow> KahunaCluster \<Rightarrow> Service \<Rightarrow> 'w \<Rightarrow> 'w \<times> goerr option" where
  "applyService kb cluster desired w =
     failed (ka_CreateOrUpdate (kb_Service kb)
       \<lparr>svc_Meta = name_only (svc_Meta desired), svc_Type = [], svc_ClusterIP = [], svc_PublishNotReadyAddresses = False,
        svc_Selector = Map.empty, svc_Ports = []\<rparr>
       (\<lambda>svc. map_sum id (\<lambda>m. desired\<lparr>svc_Meta := m,
           svc_ClusterIP := (if svc_ClusterIP svc \<noteq> [] then svc_ClusterIP svc else svc_ClusterIP desired)\<rparr>)
         (own_meta kb cluster (svc_Meta desired) (svc_Meta svc))) w)"

definition reconcileServices :: "'w kube \<Rightarrow> KahunaCluster \<Rightarrow> 'w \<Rightarrow> 'w \<times> goerr option" where
  "reconcileServices kb cluster w =
     and_then (applyService kb cluster (desiredPeerService cluster) w)
       (applyService kb cluster (desiredClientService cluster))"

definition reconcileConfigMap :: "f64_impl \<Rightarrow> (quantity \<Rightarrow> int64) \<Rightarrow> 'w kube \<Rightarrow> KahunaCluster \<Rightarrow> int32 \<Rightarrow> 'w \<Rightarrow> 'w \<times> goerr option" where
  "reconcileConfigMap impl qv kb cluster bootstrapSize w =
     (let desired = desiredConfigMap impl qv cluster bootstrapSize in
      failed (ka_CreateOrUpdate (kb_ConfigMap kb) \<lparr>cm_Meta = name_only (cm_Meta desired), cm_Data = Map.empty\<rparr>
        (\<lambda>cm. map_sum id (\<lambda>m. \<lparr>cm_Meta = m, cm_Data = cm_Data desired\<rparr>) (own_meta kb cluster (cm_Meta desired) (cm_Meta cm))) w))"

definition reconcilePDB :: "'w kube \<Rightarrow> KahunaCluster \<Rightarrow> 'w \<Rightarrow> 'w \<times> goerr option" where
  "reconcilePDB kb cluster w =
     (let desired = desiredPDB cluster in
      if \<not> wantsPDB cluster then
        (case ka_Delete (kb_PDB kb) (meta_key (pdb_Meta desired)) None w of
           (w, None) \<Rightarrow> (w, None)
         | (w, Some err) \<Rightarrow> (w, IgnoreNotFound err))
      else
        failed (ka_CreateOrUpdate (kb_PDB kb)
          \<lparr>pdb_Meta = name_only (pdb_Meta desired), pdb_Selector = Map.empty, pdb_MaxUnavailable = None\<rparr>
          (\<lambda>pdb. map_sum id (\<lambda>m. desired\<lparr>pdb_Meta := m\<rparr>) (own_meta kb cluster (pdb_Meta desired) (pdb_Meta pdb))) w))"


section \<open>The StatefulSet\<close>

definition stsKey :: "KahunaCluster \<Rightarrow> object_key" where
  "stsKey cluster = (kc_Namespace cluster, stsName cluster)"

text \<open>A leave request changes the world, so the step carries the world past the request it made.\<close>

definition decommission_step :: "'w kube \<Rightarrow> KahunaCluster \<Rightarrow> Pod list \<Rightarrow> int32 \<Rightarrow> 'w \<Rightarrow> 'w \<times> decommissioned" where
  "decommission_step kb cluster pods ordinal w =
     (let d = decommission (\<lambda>url. snd (kb_Leave kb url w)) cluster pods ordinal in
      (case dec_asked d of None \<Rightarrow> w | Some url \<Rightarrow> fst (kb_Leave kb url w), d))"

text \<open>The plan, held at the current size when the node to remove has not left.\<close>

definition held_plan :: "'w kube \<Rightarrow> KahunaCluster \<Rightarrow> Pod list \<Rightarrow> int32 \<Rightarrow> plan \<Rightarrow> 'w \<Rightarrow> 'w \<times> plan" where
  "held_plan kb cluster pods currentReplicas p w =
     (if pl_Replicas p < currentReplicas then
        let (w, d) = decommission_step kb cluster pods (wrap32 (currentReplicas - 1)) w in
        (w, if \<not> dec_ok d then \<lparr>pl_Replicas = currentReplicas, pl_Partition = currentReplicas, pl_Reason = dec_reason d\<rparr> else p)
      else (w, p))"

text \<open>The mutation leaves the immutable parts of the specification as they are.\<close>

definition update_sts :: "'w kube \<Rightarrow> KahunaCluster \<Rightarrow> StatefulSet \<Rightarrow> StatefulSet \<Rightarrow> goerr + StatefulSet" where
  "update_sts kb cluster desired sts =
     map_sum id (\<lambda>m. sts\<lparr>sts_Meta := m, sts_Spec := (sts_Spec sts)\<lparr>
         ss_Replicas := ss_Replicas (sts_Spec desired),
         ss_Template := ss_Template (sts_Spec desired),
         ss_UpdateStrategy := ss_UpdateStrategy (sts_Spec desired),
         ss_RollingUpdate := ss_RollingUpdate (sts_Spec desired),
         ss_WhenScaled := ss_WhenScaled (sts_Spec desired),
         ss_WhenDeleted := ss_WhenDeleted (sts_Spec desired)\<rparr>\<rparr>)
       (own_meta kb cluster (sts_Meta desired) (sts_Meta sts))"

text \<open>The StatefulSet with a name and nothing else; the fields that every mutation overwrites are the desired ones.\<close>

definition named_sts :: "StatefulSet \<Rightarrow> StatefulSet" where
  "named_sts desired = \<lparr>sts_Meta = name_only (sts_Meta desired),
     sts_Spec = (sts_Spec desired)\<lparr>ss_ServiceName := [], ss_Selector := Map.empty, ss_PodManagementPolicy := [],
       ss_VolumeClaimTemplates := []\<rparr>,
     sts_StatusReplicas = 0, sts_StatusReadyReplicas = 0\<rparr>"

definition reconcileStatefulSet :: "f64_impl \<Rightarrow> (quantity \<Rightarrow> int64) \<Rightarrow> 'w kube \<Rightarrow> KahunaCluster \<Rightarrow> bool \<Rightarrow> Membership option \<Rightarrow> Placement option \<Rightarrow> goerr option \<Rightarrow> Pod list \<Rightarrow> 'w \<Rightarrow> 'w \<times> (goerr + StatefulSet)" where
  "reconcileStatefulSet impl qv kb cluster bootstrapped membership placement placementErr pods w =
     (case ka_Get (kb_StatefulSet kb) (stsKey cluster) w of
        (w, Inl err) \<Rightarrow>
          if IsNotFound err then
            let desired = desiredStatefulSet impl qv cluster 0 in
            (case kb_SetController kb cluster (sts_Meta desired) of
               Inl err \<Rightarrow> (w, Inl err)
             | Inr m \<Rightarrow> ka_Create (kb_StatefulSet kb) (desired\<lparr>sts_Meta := m\<rparr>) w)
          else (w, Inl err)
      | (w, Inr existing) \<Rightarrow>
          let currentReplicas = spec_size existing;
              (w, p) = held_plan kb cluster pods currentReplicas
                (buildPlan cluster currentReplicas bootstrapped membership placement placementErr) w;
              desired = desiredStatefulSet impl qv cluster (pl_Partition p);
              desired = desired\<lparr>sts_Spec := (sts_Spec desired)\<lparr>ss_Replicas := Some (pl_Replicas p)\<rparr>\<rparr>
          in ka_CreateOrUpdate (kb_StatefulSet kb) (named_sts desired) (update_sts kb cluster desired) w)"


section \<open>The status\<close>

definition observed_status :: "(labels \<Rightarrow> goerr + string) \<Rightarrow> KahunaCluster \<Rightarrow> StatefulSet \<Rightarrow> Pod list \<Rightarrow> Membership option \<Rightarrow> goerr + KahunaClusterStatus" where
  "observed_status sel cluster sts pods membership =
     (let desired = desiredReplicas cluster;
          status = (kc_Status cluster)\<lparr>st_ObservedGeneration := kc_Generation cluster,
            st_Replicas := sts_StatusReplicas sts, st_ReadyReplicas := sts_StatusReadyReplicas sts\<rparr>;
          status = (if imageRolledOut cluster sts pods then status\<lparr>st_CurrentImage := sp_Image (kc_Spec cluster)\<rparr> else status)
      in case sel (selectorLabels cluster) of
           Inl err \<Rightarrow> Inl err
         | Inr text \<Rightarrow>
             let status = status\<lparr>st_LabelSelector := text\<rparr>;
                 status = (case ss_RollingUpdate (sts_Spec sts) of
                     None \<Rightarrow> status
                   | Some part \<Rightarrow> status\<lparr>st_UpdatePartition := part\<rparr>)
             in Inr (case membership of
                  None \<Rightarrow> status
                | Some m \<Rightarrow>
                    let members = buildMemberStatus cluster m pods; (voters, learners) = countRoles members;
                        status = status\<lparr>st_MembershipVersion := mbr_MembershipVersion m, st_Members := members,
                          st_Voters := voters, st_Learners := learners\<rparr>
                    in if \<not> st_Bootstrapped status \<and> mbr_MembershipVersion m > 0 \<and> st_Voters status \<ge> desired
                       then status\<lparr>st_Bootstrapped := True\<rparr> else status))"

definition roster_converged :: "KahunaClusterStatus \<Rightarrow> int32 \<Rightarrow> bool \<Rightarrow> bool" where
  "roster_converged status desired rosterKnown \<longleftrightarrow>
     rosterKnown \<and> st_Voters status = desired \<and> st_Learners status = 0"

definition is_progressing :: "KahunaCluster \<Rightarrow> KahunaClusterStatus \<Rightarrow> int32 \<Rightarrow> bool \<Rightarrow> bool" where
  "is_progressing cluster status desired rosterKnown \<longleftrightarrow>
     st_ReadyReplicas status < desired \<or> \<not> roster_converged status desired rosterKnown \<or>
     st_CurrentImage status \<noteq> sp_Image (kc_Spec cluster)"

definition phase_of :: "KahunaClusterStatus \<Rightarrow> int32 \<Rightarrow> bool \<Rightarrow> bool \<Rightarrow> ClusterPhase" where
  "phase_of status desired rosterKnown progressing =
     (if \<not> st_Bootstrapped status then PhaseBootstrapping
      else if \<not> hasQuorum (st_ReadyReplicas status) desired \<or> \<not> rosterKnown then PhaseDegraded
      else if st_Replicas status < desired \<or> st_Voters status < desired then PhaseScalingUp
      else if st_Replicas status > desired \<or> st_Voters status > desired then PhaseScalingDown
      else if progressing then PhaseUpgrading
      else PhaseRunning)"

definition status_conditions :: "apimeta \<Rightarrow> KahunaCluster \<Rightarrow> bool \<Rightarrow> bool \<Rightarrow> string \<Rightarrow> KahunaClusterStatus \<Rightarrow> KahunaClusterStatus" where
  "status_conditions am cluster rosterKnown keystoreReady keystoreMsg status =
     (let desired = desiredReplicas cluster; progressing = is_progressing cluster status desired rosterKnown;
          status = setCondition am status conditionKeystoreReady keystoreReady
            ''KeystoreAvailable'' ''KeystorePending'' (keystoreOrDefault keystoreMsg);
          progressMsg = itoa (st_ReadyReplicas status) @ ''/'' @ itoa desired @ '' nodes ready, '' @ itoa (st_Voters status) @ '' voters'';
          progressMsg = (if st_CurrentImage status \<noteq> sp_Image (kc_Spec cluster)
            then progressMsg @ '', rolling out image '' @ sp_Image (kc_Spec cluster) else progressMsg);
          status = setCondition am status ConditionProgressing progressing ''Converging'' ''Converged'' progressMsg;
          status = setCondition am status ConditionRosterConverged (roster_converged status desired rosterKnown)
            ''RosterMatchesSpec'' ''RosterDiffers''
            (rosterMessage rosterKnown (st_Voters status) (st_Learners status) desired)
      in setCondition am status ConditionAvailable (hasQuorum (st_ReadyReplicas status) desired)
           ''QuorumReady'' ''QuorumLost''
           (itoa (st_ReadyReplicas status) @ '' of '' @ itoa desired @ '' nodes ready''))"

definition requeue_after :: "KahunaCluster \<Rightarrow> KahunaClusterStatus \<Rightarrow> bool \<Rightarrow> duration" where
  "requeue_after cluster status progressing =
     (if progressing \<or> st_Replicas status \<noteq> desiredReplicas cluster then requeueProgressing
      else if kc_Autoscaling cluster \<noteq> None then requeueAutoscaling
      else requeueSteady)"

definition reconcileStatus :: "apimeta \<Rightarrow> (labels \<Rightarrow> goerr + string) \<Rightarrow> 'w kube \<Rightarrow> KahunaCluster \<Rightarrow> KahunaClusterStatus \<Rightarrow> StatefulSet \<Rightarrow> Pod list \<Rightarrow> Membership option \<Rightarrow> 'w \<Rightarrow> 'w \<times> (goerr + duration)" where
  "reconcileStatus am sel kb cluster persisted sts pods membership w =
     (let desired = desiredReplicas cluster; rosterKnown = membership \<noteq> None;
          (w, current) = ka_Get (kb_StatefulSet kb) (stsKey cluster) w;
          sts = (case current of Inr current \<Rightarrow> current | Inl _ \<Rightarrow> sts)
      in case observed_status sel cluster sts pods membership of
           Inl err \<Rightarrow> (w, Inl err)
         | Inr status \<Rightarrow>
             let progressing = is_progressing cluster status desired rosterKnown;
                 status = status\<lparr>st_Phase := Some (phase_of status desired rosterKnown progressing)\<rparr>;
                 (w, keystoreReady, keystoreMsg) = certificateReady kb cluster w;
                 status = status_conditions am cluster rosterKnown keystoreReady keystoreMsg status;
                 after = requeue_after cluster status progressing
             in if equalStatus persisted status then (w, Inr after)
                else
                  (case kb_UpdateStatus kb (cluster\<lparr>kc_Status := status\<rparr>) w of
                     (w, Inl err) \<Rightarrow> (w, Inl err)
                   | (w, Inr _) \<Rightarrow> (w, Inr after)))"


section \<open>The pass\<close>

definition pin_bootstrap_size :: "'w kube \<Rightarrow> KahunaCluster \<Rightarrow> 'w \<Rightarrow> 'w \<times> (goerr + KahunaCluster)" where
  "pin_bootstrap_size kb cluster w =
     (if st_BootstrapSize (kc_Status cluster) = 0 then
        (case kb_UpdateStatus kb
            (cluster\<lparr>kc_Status := (kc_Status cluster)\<lparr>st_BootstrapSize := desiredReplicas cluster\<rparr>\<rparr>) w of
           (w, Inl err) \<Rightarrow> (w, Inl (WrapErr ''pinning bootstrap size'' err))
         | (w, Inr cluster) \<Rightarrow> (w, Inr cluster))
      else (w, Inr cluster))"

definition reconcile_objects :: "f64_impl \<Rightarrow> (quantity \<Rightarrow> int64) \<Rightarrow> 'w kube \<Rightarrow> KahunaCluster \<Rightarrow> 'w \<Rightarrow> 'w \<times> goerr option" where
  "reconcile_objects impl qv kb cluster w =
     and_then (and_then (and_then (and_then (and_then
       (wrapped ''reconciling keystore password'' (reconcileKeystorePassword kb cluster w))
       (\<lambda>w. wrapped ''reconciling certificate'' (reconcileCertificate kb cluster w)))
       (\<lambda>w. wrapped ''reconciling services'' (reconcileServices kb cluster w)))
       (\<lambda>w. wrapped ''reconciling config map'' (reconcileConfigMap impl qv kb cluster (st_BootstrapSize (kc_Status cluster)) w)))
       (\<lambda>w. wrapped ''reconciling pod disruption budget'' (reconcilePDB kb cluster w)))
       (\<lambda>w. wrapped ''reconciling backup resources'' (reconcileBackupResources kb cluster w))"

text \<open>What a pass knows of the Kahuna servers: the roster, if it could be read, and the placement.\<close>

definition known_membership :: "'w kube \<Rightarrow> KahunaCluster \<Rightarrow> Pod list \<Rightarrow> 'w \<Rightarrow> Membership option" where
  "known_membership kb cluster pods w =
     (case readMembership (kb_Membership kb w) cluster pods of Inl _ \<Rightarrow> None | Inr m \<Rightarrow> Some m)"

definition known_placement :: "'w kube \<Rightarrow> KahunaCluster \<Rightarrow> Pod list \<Rightarrow> 'w \<Rightarrow> Placement option \<times> goerr option" where
  "known_placement kb cluster pods w =
     (case readPlacement (kb_Placement kb w) cluster pods of
        Inl err \<Rightarrow> if is_placement_unsupported err then (None, None) else (None, Some err)
      | Inr p \<Rightarrow> (Some p, None))"

definition sooner :: "duration \<Rightarrow> duration \<Rightarrow> duration" where
  "sooner after backupWake = (if backupWake > 0 \<and> (after = 0 \<or> backupWake < after) then backupWake else after)"

record pass_result =
  pr_traffic :: trafficSampler
  pr_backups :: "cluster_key backupRunner"
  pr_launch :: "backupLaunch option"
  pr_result :: "goerr + duration"

text \<open>The part of the pass after the objects are in place: the size, the backups and the status.\<close>

definition reconcile_cluster :: "f64_impl \<Rightarrow> (quantity \<Rightarrow> int64) \<Rightarrow> apimeta \<Rightarrow> (labels \<Rightarrow> goerr + string) \<Rightarrow> (string \<Rightarrow> goerr + schedule) \<Rightarrow> 'w kube \<Rightarrow> KahunaCluster \<Rightarrow> bool \<Rightarrow> Pod list \<Rightarrow> trafficSampler \<Rightarrow> cluster_key backupRunner \<Rightarrow> 'w \<Rightarrow> 'w \<times> (panic + pass_result)" where
  "reconcile_cluster impl qv am sel parse kb cluster bootstrapped pods traffic backups w =
     (let membership = known_membership kb cluster pods w;
          (placement, placementErr) = known_placement kb cluster pods w;
          persisted = kc_Status cluster
      in case reconcileAutoscaling impl am (kb_Metrics kb w) (kb_Now kb w) cluster bootstrapped membership placement placementErr pods traffic of
           Inl p \<Rightarrow> (w, Inl p)
         | Inr (status, traffic) \<Rightarrow>
             let cluster = cluster\<lparr>kc_Status := status\<rparr> in
             (case reconcileStatefulSet impl qv kb cluster bootstrapped membership placement placementErr pods w of
                (w, Inl err) \<Rightarrow>
                  (w, Inr \<lparr>pr_traffic = traffic, pr_backups = backups, pr_launch = None,
                    pr_result = Inl (WrapErr ''reconciling stateful set'' err)\<rparr>)
              | (w, Inr sts) \<Rightarrow>
                  (case reconcileBackup impl qv am parse kb cluster membership pods backups w of
                     (w, Inl p) \<Rightarrow> (w, Inl p)
                   | (w, Inr (status, backups, backupWake, launch)) \<Rightarrow>
                       let (w, result) = reconcileStatus am sel kb (cluster\<lparr>kc_Status := status\<rparr>) persisted sts pods membership w in
                       (w, Inr \<lparr>pr_traffic = traffic, pr_backups = backups, pr_launch = launch,
                          pr_result = (case result of
                              Inl err \<Rightarrow> Inl (WrapErr ''updating status'' err)
                            | Inr after \<Rightarrow> Inr (sooner after backupWake))\<rparr>))))"

definition Reconcile :: "f64_impl \<Rightarrow> (quantity \<Rightarrow> int64) \<Rightarrow> apimeta \<Rightarrow> (labels \<Rightarrow> goerr + string) \<Rightarrow> (string \<Rightarrow> goerr + schedule) \<Rightarrow> 'w kube \<Rightarrow> cluster_key \<Rightarrow> trafficSampler \<Rightarrow> cluster_key backupRunner \<Rightarrow> 'w \<Rightarrow> 'w \<times> (panic + pass_result)" where
  "Reconcile impl qv am sel parse kb req traffic backups w =
     (let stop = (\<lambda>w err. (w, Inr \<lparr>pr_traffic = traffic, pr_backups = backups, pr_launch = None, pr_result = Inl err\<rparr>)) in
      case kb_GetCluster kb req w of
        (w, Inl err) \<Rightarrow>
          if IsNotFound err
          then (w, Inr \<lparr>pr_traffic = traffic_forget traffic req, pr_backups = runner_forget req backups,
                  pr_launch = None, pr_result = Inr 0\<rparr>)
          else stop w err
      | (w, Inr cluster) \<Rightarrow>
          let bootstrapped = st_Bootstrapped (kc_Status cluster) in
          (case pin_bootstrap_size kb cluster w of
             (w, Inl err) \<Rightarrow> stop w err
           | (w, Inr cluster) \<Rightarrow>
               (case reconcile_objects impl qv kb cluster w of
                  (w, Some err) \<Rightarrow> stop w err
                | (w, None) \<Rightarrow>
                    (case listPods kb cluster w of
                       (w, Inl err) \<Rightarrow> stop w (WrapErr ''listing pods'' err)
                     | (w, Inr pods) \<Rightarrow>
                         reconcile_cluster impl qv am sel parse kb cluster bootstrapped pods traffic backups w))))"


section \<open>Frames: what each step leaves alone\<close>

lemma failed_run: "failed r = (w', e) \<Longrightarrow> \<exists>res. r = (w', res)"
  by (cases r) (auto simp: failed_def split: sum.splits)

lemma and_then_keeps:
  assumes "and_then r f = (w', e)" "\<And>w1 e1. r = (w1, e1) \<Longrightarrow> v w1 = x" "\<And>w1 w2 e2. f w1 = (w2, e2) \<Longrightarrow> v w2 = v w1"
  shows "v w' = x"
  using assms by (cases r) (auto simp: and_then_def split: option.splits)

lemma and_then_rel:
  assumes "and_then r f = (w', e)" "\<And>w1 e1. r = (w1, e1) \<Longrightarrow> rel w w1" "\<And>w1 w2 e2. f w1 = (w2, e2) \<Longrightarrow> rel w1 w2"
    "\<And>a b c. rel a b \<Longrightarrow> rel b c \<Longrightarrow> rel a c"
  shows "rel w w'"
  using assms by (cases r) (auto simp: and_then_def split: option.splits)

lemma wrapped_run: "wrapped doing r = (w', e) \<Longrightarrow> \<exists>e'. r = (w', e')"
  by (cases r) (auto simp: wrapped_def)

lemma resource_gets:
  "resource_keeps v R \<Longrightarrow> \<forall>k. keeps v (ka_Get R k)" "resource_laws view meta core R \<Longrightarrow> \<forall>k. keeps view (ka_Get R k)"
  by (simp_all add: resource_keeps_def resource_laws_def keeps_def)

lemma readKeystore_frame:
  assumes "\<forall>k. keeps v (ka_Get (kb_Secret kb) k)" "readKeystore kb c w = (w', r)"
  shows "v w' = v w"
  using assms(2) keepsD [OF spec [OF assms(1)]]
  by (auto simp: readKeystore_def Let_def split: sum.splits prod.splits if_splits option.splits)

lemma reconcileKeystorePassword_frame:
  assumes "resource_keeps v (kb_Secret kb)" "reads_keep v kb" "reconcileKeystorePassword kb c w = (w', r)"
  shows "v w' = v w"
  using assms(3)
  by (auto simp: reconcileKeystorePassword_def Let_def split: sum.splits prod.splits if_splits option.splits
      dest!: resource_keepsD [OF assms(1)] reads_keepD(4) [OF assms(2)])

lemma replaceStaleKeystore_frame:
  assumes "resource_keeps v (kb_Secret kb)" "replaceStaleKeystore kb c w = (w', r)"
  shows "v w' = v w"
  using assms(2)
  by (auto simp: replaceStaleKeystore_def Let_def split: sum.splits prod.splits if_splits option.splits
      dest!: readKeystore_frame [OF resource_gets(1) [OF assms(1)]] resource_keepsD(3) [OF assms(1)])

lemma reconcileCertificate_frame:
  assumes "resource_keeps v (kb_Secret kb)" "resource_keeps v (kb_Certificate kb)" "reconcileCertificate kb c w = (w', r)"
  shows "v w' = v w"
  using assms(3)
  by (auto simp: reconcileCertificate_def Let_def split: sum.splits prod.splits option.splits
      dest!: replaceStaleKeystore_frame [OF assms(1)] resource_keepsD(4) [OF assms(2)])

lemma certificateReady_frame:
  assumes "\<forall>k. keeps v (ka_Get (kb_Secret kb) k)" "certificateReady kb c w = (w', r)"
  shows "v w' = v w"
  using assms(2)
  by (auto simp: certificateReady_def Let_def split: sum.splits prod.splits if_splits option.splits
      dest!: readKeystore_frame [OF assms(1)] keepsD [OF spec [OF assms(1)]])

lemma reconcileServices_frame:
  assumes "resource_keeps v (kb_Service kb)" "reconcileServices kb c w = (w', r)"
  shows "v w' = v w"
proof -
  have one: "applyService kb c d w1 = (w2, e) \<Longrightarrow> v w2 = v w1" for d w1 w2 e
    unfolding applyService_def using resource_keepsD(4) [OF assms(1)] by (blast dest: failed_run)
  show ?thesis using assms(2) unfolding reconcileServices_def
    by (rule and_then_keeps) (auto dest: one)
qed

lemma reconcileConfigMap_frame:
  assumes "resource_keeps v (kb_ConfigMap kb)" "reconcileConfigMap impl qv kb c b w = (w', r)"
  shows "v w' = v w"
  using assms(2) resource_keepsD(4) [OF assms(1)] unfolding reconcileConfigMap_def Let_def by (blast dest: failed_run)

lemma reconcilePDB_frame:
  assumes "resource_keeps v (kb_PDB kb)" "reconcilePDB kb c w = (w', r)"
  shows "v w' = v w"
  using assms(2) unfolding reconcilePDB_def Let_def
  by (auto split: if_splits prod.splits option.splits dest!: failed_run resource_keepsD [OF assms(1)])

lemma reconcileBackupResources_frame:
  assumes "objects_keep v kb" "reconcileBackupResources kb c w = (w', r)"
  shows "v w' = v w"
proof -
  have p: "resource_keeps v (kb_PVC kb)" and s: "resource_keeps v (kb_Secret kb)" and k: "reads_keep v kb"
    using assms(1) by (simp_all add: objects_keep_def)
  show ?thesis using assms(2)
    by (auto simp: reconcileBackupResources_def split: prod.splits option.splits if_splits
        dest!: reconcileBackupClaim_frame [OF p] reconcileBackupKey_frame [OF s k])
qed

lemma reconcile_objects_frame:
  assumes "objects_keep v kb" "reconcile_objects impl qv kb c w = (w', r)"
  shows "v w' = v w"
proof -
  have o: "resource_keeps v (kb_Service kb)" "resource_keeps v (kb_ConfigMap kb)" "resource_keeps v (kb_PDB kb)"
    "resource_keeps v (kb_Secret kb)" "resource_keeps v (kb_Certificate kb)" "reads_keep v kb"
    using assms(1) by (simp_all add: objects_keep_def)
  note frames = reconcileKeystorePassword_frame [OF o(4,6)] reconcileCertificate_frame [OF o(4,5)]
    reconcileServices_frame [OF o(1)] reconcileConfigMap_frame [OF o(2)] reconcilePDB_frame [OF o(3)]
    reconcileBackupResources_frame [OF assms(1)]
  show ?thesis using assms(2) unfolding reconcile_objects_def
    by (elim and_then_keeps [where v = v]) (blast dest: wrapped_run frames)+
qed

lemma reconcileBackup_frame:
  assumes "\<forall>k. keeps v (ka_Get (kb_PVC kb) k)" "reads_keep v kb" "reconcileBackup impl qv am parse kb c m pods b w = (w', r)"
  shows "v w' = v w"
proof (cases "sp_Backup (kc_Spec c)")
  case None
  thus ?thesis using assms(3) by (simp add: reconcileBackup_def Let_def)
next
  case (Some spec)
  obtain w1 vol where r: "readBackupVolume kb c spec w = (w1, vol)" by fastforce
  have "v w1 = v w" by (rule readBackupVolume_frame [OF _ assms(2) r]) (use assms(1) in blast)
  moreover have "w' = w1"
    using assms(3) Some r by (auto simp: reconcileBackup_def Let_def split: sum.splits prod.splits if_splits option.splits)
  ultimately show ?thesis by simp
qed

lemma decommission_step_frame:
  assumes "reads_keep v kb" "decommission_step kb c pods i w = (w', d)"
  shows "v w' = v w"
proof -
  have "v (fst (kb_Leave kb u w)) = v w" for u by (rule reads_keepD(5) [OF assms(1)]) (rule prod.collapse [symmetric])
  thus ?thesis using assms(2) by (auto simp: decommission_step_def Let_def split: option.splits)
qed

lemma held_plan_frame:
  assumes "reads_keep v kb" "held_plan kb c pods n p w = (w', q)"
  shows "v w' = v w"
  using assms(2) decommission_step_frame [OF assms(1)]
  by (auto simp: held_plan_def Let_def split: if_splits prod.splits)

lemma reconcileStatefulSet_frame:
  assumes "reads_keep v kb" "resource_keeps v (kb_StatefulSet kb)"
    "reconcileStatefulSet impl qv kb c b m pl perr pods w = (w', r)"
  shows "v w' = v w"
  using assms(3)
  by (auto simp: reconcileStatefulSet_def Let_def split: sum.splits prod.splits if_splits
      dest!: resource_keepsD [OF assms(2)] held_plan_frame [OF assms(1)])

lemma pin_bootstrap_size_frame:
  assumes "calls_keep v kb" "pin_bootstrap_size kb c w = (w', r)"
  shows "v w' = v w"
proof -
  have "v (fst (kb_UpdateStatus kb c' w)) = v w" for c' using assms(1) by (simp add: calls_keep_def keeps_def)
  thus ?thesis using assms(2) by (auto simp: pin_bootstrap_size_def split: if_splits prod.splits sum.splits) (metis fst_conv)+
qed

lemma listPods_frame: "reads_keep v kb \<Longrightarrow> listPods kb c w = (w', r) \<Longrightarrow> v w' = v w"
  using reads_keepD(2) by (simp add: listPods_def)

text \<open>Of the stored state, the status step changes the status only, and by one write at most.\<close>

lemma reconcileStatus_write:
  assumes "\<forall>k. keeps v (ka_Get (kb_StatefulSet kb) k)" "\<forall>k. keeps v (ka_Get (kb_Secret kb) k)"
    and run: "reconcileStatus am sel kb c persisted sts pods m w = (w', r)"
  shows "v w' = v w \<or> (\<exists>s0 s1 w1 u. observed_status sel c s0 pods m = Inr s1 \<and> founding u = founding s1 \<and>
    v w1 = v w \<and> fst (kb_UpdateStatus kb (c\<lparr>kc_Status := u\<rparr>) w1) = w')"
proof -
  obtain w1 r1 where g: "ka_Get (kb_StatefulSet kb) (stsKey c) w = (w1, r1)" by fastforce
  define s0 where "s0 = (case r1 of Inr x \<Rightarrow> x | Inl _ \<Rightarrow> sts)"
  have v1: "v w1 = v w" using assms(1) g keepsD by metis
  show ?thesis
  proof (cases "observed_status sel c s0 pods m")
    case (Inl e)
    thus ?thesis using run g v1 by (simp add: reconcileStatus_def s0_def)
  next
    case (Inr s1)
    obtain w2 ok msg where cr: "certificateReady kb c w1 = (w2, ok, msg)" by (metis prod_cases3)
    have v2: "v w2 = v w" using certificateReady_frame [OF assms(2) cr] v1 by simp
    let ?p = "is_progressing c s1 (desiredReplicas c) (m \<noteq> None)"
    let ?u = "status_conditions am c (m \<noteq> None) ok msg
      (s1\<lparr>st_Phase := Some (phase_of s1 (desiredReplicas c) (m \<noteq> None) ?p)\<rparr>)"
    have "founding ?u = founding s1" by (simp add: status_conditions_def founding_def Let_def)
    moreover have "w' = w2 \<or> fst (kb_UpdateStatus kb (c\<lparr>kc_Status := ?u\<rparr>) w2) = w'"
      using run g cr Inr by (auto simp: reconcileStatus_def s0_def [symmetric] Let_def split: if_splits prod.splits sum.splits)
    ultimately show ?thesis using v2 Inr by blast
  qed
qed


section \<open>What a pass does to the StatefulSet\<close>

lemma kube_sts_laws: "kube_laws V kb \<Longrightarrow> resource_laws (vw_StatefulSet V) sts_Meta sts_Spec (kb_StatefulSet kb)"
  by (simp add: kube_laws_def)

definition spec_of_plan :: "f64_impl \<Rightarrow> (quantity \<Rightarrow> int64) \<Rightarrow> KahunaCluster \<Rightarrow> plan \<Rightarrow> StatefulSetSpec \<Rightarrow> StatefulSetSpec" where
  "spec_of_plan impl qv c p spec =
     (let d = sts_Spec (desiredStatefulSet impl qv c (pl_Partition p)) in
      spec\<lparr>ss_Replicas := Some (pl_Replicas p), ss_Template := ss_Template d, ss_UpdateStrategy := ss_UpdateStrategy d,
        ss_RollingUpdate := ss_RollingUpdate d, ss_WhenScaled := ss_WhenScaled d, ss_WhenDeleted := ss_WhenDeleted d\<rparr>)"

lemma desired_key: "meta_key (sts_Meta (desiredStatefulSet impl qv c i)) = stsKey c"
  by (simp add: desiredStatefulSet_def objectMeta_def meta_key_def stsKey_def Let_def)

lemma update_sts_Inr:
  assumes "update_sts kb c (desiredStatefulSet impl qv c (pl_Partition p)
      \<lparr>sts_Spec := (sts_Spec (desiredStatefulSet impl qv c (pl_Partition p)))\<lparr>ss_Replicas := Some (pl_Replicas p)\<rparr>\<rparr>) s0 = Inr z"
  shows "sts_Spec z = spec_of_plan impl qv c p (sts_Spec s0)"
  using assms by (cases "own_meta kb c (sts_Meta (desiredStatefulSet impl qv c (pl_Partition p))) (sts_Meta s0)") (auto simp: update_sts_def spec_of_plan_def Let_def split: sum.splits)

text \<open>
  The three outcomes: nothing stored, the first StatefulSet, or the stored one with the plan applied. The
  plan is held in the world \<open>wl\<close>, the one after the stored StatefulSet was read.
\<close>

definition sts_read :: "'w kube \<Rightarrow> KahunaCluster \<Rightarrow> 'w \<Rightarrow> 'w" where
  "sts_read kb c w = fst (ka_Get (kb_StatefulSet kb) (stsKey c) w)"

definition sts_created :: "f64_impl \<Rightarrow> (quantity \<Rightarrow> int64) \<Rightarrow> 'w kube_view \<Rightarrow> KahunaCluster \<Rightarrow> StatefulSet \<Rightarrow> 'w \<Rightarrow> 'w \<Rightarrow> bool" where
  "sts_created impl qv V c y w w' \<longleftrightarrow>
     vw_StatefulSet V w (stsKey c) = None \<and> sts_Spec y = sts_Spec (desiredStatefulSet impl qv c 0) \<and>
     vw_StatefulSet V w' = (vw_StatefulSet V w)(stsKey c \<mapsto> y)"

definition sts_planned :: "f64_impl \<Rightarrow> (quantity \<Rightarrow> int64) \<Rightarrow> 'w kube_view \<Rightarrow> 'w kube \<Rightarrow> KahunaCluster \<Rightarrow> bool \<Rightarrow> Membership option \<Rightarrow> Placement option \<Rightarrow> goerr option \<Rightarrow> Pod list \<Rightarrow> 'w \<Rightarrow> StatefulSet \<Rightarrow> 'w \<Rightarrow> 'w \<Rightarrow> bool" where
  "sts_planned impl qv V kb c b m pl perr pods wl y w w' \<longleftrightarrow>
     (\<exists>s0 w2 p. vw_StatefulSet V w (stsKey c) = Some s0 \<and>
        held_plan kb c pods (spec_size s0) (buildPlan c (spec_size s0) b m pl perr) wl = (w2, p) \<and>
        sts_Spec y = spec_of_plan impl qv c p (sts_Spec s0) \<and>
        vw_StatefulSet V w' = (vw_StatefulSet V w)(stsKey c \<mapsto> y))"

lemma sts_effect_cong:
  assumes "vw_StatefulSet V w' = vw_StatefulSet V w1"
  shows "sts_created impl qv V c y w w' = sts_created impl qv V c y w w1"
    "sts_planned impl qv V kb c b m pl perr pods wl y w w' = sts_planned impl qv V kb c b m pl perr pods wl y w w1"
  by (simp_all add: sts_created_def sts_planned_def assms)

lemma reconcileStatefulSet_effect:
  assumes laws: "kube_laws V kb" and run: "reconcileStatefulSet impl qv kb c b m pl perr pods w = (w', r)"
  shows "(case r of
       Inr y \<Rightarrow> sts_created impl qv V c y w w' \<or> sts_planned impl qv V kb c b m pl perr pods (sts_read kb c w) y w w'
     | Inl _ \<Rightarrow> vw_StatefulSet V w' = vw_StatefulSet V w \<or>
         (\<exists>y. sts_created impl qv V c y w w' \<or> sts_planned impl qv V kb c b m pl perr pods (sts_read kb c w) y w w'))"
proof -
  note L = kube_sts_laws [OF laws]
  let ?view = "vw_StatefulSet V"
  obtain w1 r1 where g: "ka_Get (kb_StatefulSet kb) (stsKey c) w = (w1, r1)" by fastforce
  have v1: "?view w1 = ?view w" using resource_get(1) [OF L g] .
  show ?thesis
  proof (cases r1)
    case (Inl err)
    show ?thesis
    proof (cases "IsNotFound err")
      case True
      hence none: "?view w (stsKey c) = None" using resource_get(3) [OF L g Inl] by simp
      let ?d = "desiredStatefulSet impl qv c 0"
      show ?thesis
      proof (cases "kb_SetController kb c (sts_Meta ?d)")
        case (Inl e)
        thus ?thesis using run g \<open>r1 = Inl err\<close> True v1 by (auto simp: reconcileStatefulSet_def Let_def)
      next
        case (Inr mt)
        have cr: "ka_Create (kb_StatefulSet kb) (?d\<lparr>sts_Meta := mt\<rparr>) w1 = (w', r)"
          using run g \<open>r1 = Inl err\<close> True Inr by (simp add: reconcileStatefulSet_def Let_def)
        have key: "meta_key (sts_Meta (?d\<lparr>sts_Meta := mt\<rparr>)) = stsKey c"
          using Inr laws desired_key [of impl qv c 0] by (simp add: kube_laws_def)
        have created: "sts_created impl qv V c y w w'"
          if "sts_Spec y = sts_Spec (?d\<lparr>sts_Meta := mt\<rparr>)" "?view w' = (?view w)(stsKey c \<mapsto> y)" for y
          using none that by (simp add: sts_created_def)
        note C = resource_create [OF L cr, unfolded key v1]
        show ?thesis using C created by (cases r) fastforce+
      qed
    next
      case False
      thus ?thesis using run g Inl v1 by (auto simp: reconcileStatefulSet_def)
    qed
  next
    case (Inr s0)
    have s0: "?view w (stsKey c) = Some s0" using resource_get(2) [OF L g Inr] .
    obtain w2 p where h: "held_plan kb c pods (spec_size s0) (buildPlan c (spec_size s0) b m pl perr) w1 = (w2, p)" by fastforce
    have v2: "?view w2 = ?view w"
      using held_plan_frame [OF _ h, of ?view] v1 kube_objects_keep [OF laws] by (simp add: objects_keep_def)
    let ?d = "desiredStatefulSet impl qv c (pl_Partition p)
      \<lparr>sts_Spec := (sts_Spec (desiredStatefulSet impl qv c (pl_Partition p)))\<lparr>ss_Replicas := Some (pl_Replicas p)\<rparr>\<rparr>"
    have cou: "ka_CreateOrUpdate (kb_StatefulSet kb) (named_sts ?d) (update_sts kb c ?d) w2 = (w', r)"
      using run g Inr h by (simp add: reconcileStatefulSet_def Let_def)
    have key: "meta_key (sts_Meta (named_sts ?d)) = stsKey c"
      using desired_key [of impl qv c "pl_Partition p"] by (simp add: named_sts_def name_only_def meta_key_def)
    have planned: "sts_planned impl qv V kb c b m pl perr pods (sts_read kb c w) y w w'"
      if "update_sts kb c ?d s0 = Inr z" "sts_Spec y = sts_Spec z" "?view w' = (?view w)(stsKey c \<mapsto> y)" for y z
      using s0 g h update_sts_Inr [OF that(1)] that(2,3) unfolding sts_planned_def sts_read_def by auto
    note C = resource_cou [OF L cou, unfolded key v2 s0 option.case]
    show ?thesis using C planned by (cases r) fastforce+
  qed
qed


section \<open>The ways a pass can go\<close>

lemma reconcile_cluster_cases:
  assumes "reconcile_cluster impl qv am sel parse kb c b pods traffic backups w = (w', r)"
  defines "m \<equiv> known_membership kb c pods w"
    and "pl \<equiv> fst (known_placement kb c pods w)" and "perr \<equiv> snd (known_placement kb c pods w)"
  obtains (panicked) p where "reconcileAutoscaling impl am (kb_Metrics kb w) (kb_Now kb w) c b m pl perr pods traffic = Inl p"
      "w' = w" "r = Inl p"
  | (sts_failed) st t err where "reconcileAutoscaling impl am (kb_Metrics kb w) (kb_Now kb w) c b m pl perr pods traffic = Inr (st, t)"
      "reconcileStatefulSet impl qv kb (c\<lparr>kc_Status := st\<rparr>) b m pl perr pods w = (w', Inl err)"
      "r = Inr \<lparr>pr_traffic = t, pr_backups = backups, pr_launch = None, pr_result = Inl (WrapErr ''reconciling stateful set'' err)\<rparr>"
  | (backup_panicked) st t w1 sts p where "reconcileAutoscaling impl am (kb_Metrics kb w) (kb_Now kb w) c b m pl perr pods traffic = Inr (st, t)"
      "reconcileStatefulSet impl qv kb (c\<lparr>kc_Status := st\<rparr>) b m pl perr pods w = (w1, Inr sts)"
      "reconcileBackup impl qv am parse kb (c\<lparr>kc_Status := st\<rparr>) m pods backups w1 = (w', Inl p)" "r = Inl p"
  | (finished) st t w1 sts w2 st2 b2 wake launch res where
      "reconcileAutoscaling impl am (kb_Metrics kb w) (kb_Now kb w) c b m pl perr pods traffic = Inr (st, t)"
      "reconcileStatefulSet impl qv kb (c\<lparr>kc_Status := st\<rparr>) b m pl perr pods w = (w1, Inr sts)"
      "reconcileBackup impl qv am parse kb (c\<lparr>kc_Status := st\<rparr>) m pods backups w1 = (w2, Inr (st2, b2, wake, launch))"
      "reconcileStatus am sel kb (c\<lparr>kc_Status := st2\<rparr>) (kc_Status c) sts pods m w2 = (w', res)"
      "r = Inr \<lparr>pr_traffic = t, pr_backups = b2, pr_launch = launch, pr_result = (case res of
          Inl err \<Rightarrow> Inl (WrapErr ''updating status'' err) | Inr after \<Rightarrow> Inr (sooner after wake))\<rparr>"
proof -
  obtain pl' perr' where kp: "known_placement kb c pods w = (pl', perr')" by fastforce
  have pp: "pl = pl'" "perr = perr'" unfolding pl_def perr_def kp by (rule fst_conv, rule snd_conv)
  note R = assms(1) [unfolded reconcile_cluster_def Let_def kp prod.case, folded m_def, folded pp]
  show ?thesis
  proof (cases "reconcileAutoscaling impl am (kb_Metrics kb w) (kb_Now kb w) c b m pl perr pods traffic")
    case (Inl p)
    show ?thesis by (rule panicked [OF Inl]) (use R Inl in simp_all)
  next
    case (Inr x)
    then obtain st t where a: "reconcileAutoscaling impl am (kb_Metrics kb w) (kb_Now kb w) c b m pl perr pods traffic = Inr (st, t)"
      by (cases x) simp
    obtain w1 r1 where s: "reconcileStatefulSet impl qv kb (c\<lparr>kc_Status := st\<rparr>) b m pl perr pods w = (w1, r1)" by fastforce
    show ?thesis
    proof (cases r1)
      case (Inl err)
      show ?thesis by (rule sts_failed [OF a, of err]) (use R a s Inl in auto)
    next
      case (Inr sts)
      obtain w2 r2 where bk: "reconcileBackup impl qv am parse kb (c\<lparr>kc_Status := st\<rparr>) m pods backups w1 = (w2, r2)" by fastforce
      show ?thesis
      proof (cases r2)
        case (Inl p)
        show ?thesis by (rule backup_panicked [OF a, of w1 sts p]) (use R a s bk \<open>r1 = Inr sts\<close> Inl in auto)
      next
        case (Inr y)
        obtain st2 b2 wake launch where y: "y = (st2, b2, wake, launch)" by (metis prod_cases4)
        obtain w3 res where rs: "reconcileStatus am sel kb (c\<lparr>kc_Status := st2\<rparr>) (kc_Status c) sts pods m w2 = (w3, res)" by fastforce
        show ?thesis
          by (rule finished [OF a, of w1 sts w2 st2 b2 wake launch res])
            (use R a s bk \<open>r1 = Inr sts\<close> Inr y rs in auto)
      qed
    qed
  qed
qed

lemma Reconcile_cases:
  assumes "Reconcile impl qv am sel parse kb req traffic backups w = (w', r)"
  obtains (unread) err where "kb_GetCluster kb req w = (w', Inl err)" "\<exists>x. r = Inr x"
  | (unpinned) c w0 err where "kb_GetCluster kb req w = (w0, Inr c)" "pin_bootstrap_size kb c w0 = (w', Inl err)"
      "\<exists>x e. r = Inr x \<and> pr_result x = Inl e"
  | (objects_failed) c w0 c1 w1 err where "kb_GetCluster kb req w = (w0, Inr c)" "pin_bootstrap_size kb c w0 = (w1, Inr c1)"
      "reconcile_objects impl qv kb c1 w1 = (w', Some err)" "\<exists>x e. r = Inr x \<and> pr_result x = Inl e"
  | (unlisted) c w0 c1 w1 w2 err where "kb_GetCluster kb req w = (w0, Inr c)" "pin_bootstrap_size kb c w0 = (w1, Inr c1)"
      "reconcile_objects impl qv kb c1 w1 = (w2, None)" "listPods kb c1 w2 = (w', Inl err)"
      "\<exists>x e. r = Inr x \<and> pr_result x = Inl e"
  | (listed) c w0 c1 w1 w2 w3 pods where "kb_GetCluster kb req w = (w0, Inr c)" "pin_bootstrap_size kb c w0 = (w1, Inr c1)"
      "reconcile_objects impl qv kb c1 w1 = (w2, None)" "listPods kb c1 w2 = (w3, Inr pods)"
      "reconcile_cluster impl qv am sel parse kb c1 (st_Bootstrapped (kc_Status c)) pods traffic backups w3 = (w', r)"
proof -
  note R = assms [unfolded Reconcile_def Let_def]
  obtain w0 r0 where g: "kb_GetCluster kb req w = (w0, r0)" by fastforce
  show ?thesis
  proof (cases r0)
    case (Inl err)
    thus ?thesis using R g by (intro unread [of err]) (auto split: if_splits)
  next
    case (Inr c)
    obtain w1 r1 where p: "pin_bootstrap_size kb c w0 = (w1, r1)" by fastforce
    show ?thesis
    proof (cases r1)
      case (Inl err)
      thus ?thesis using R g Inr p by (intro unpinned [of w0 c err]) auto
    next
      case (Inr c1)
      obtain w2 r2 where ob: "reconcile_objects impl qv kb c1 w1 = (w2, r2)" by fastforce
      show ?thesis
      proof (cases r2)
        case (Some err)
        thus ?thesis using R g \<open>r0 = Inr c\<close> p Inr ob by (intro objects_failed [of w0 c w1 c1 err]) auto
      next
        case None
        obtain w3 r3 where l: "listPods kb c1 w2 = (w3, r3)" by fastforce
        note got = g [unfolded \<open>r0 = Inr c\<close>] p [unfolded Inr] ob [unfolded None]
        show ?thesis
        proof (cases r3)
          case (Inl err)
          thus ?thesis using R got l by (intro unlisted [OF got, of err]) auto
        next
          case (Inr pods)
          thus ?thesis using R got l by (intro listed [OF got, of w3 pods]) auto
        qed
      qed
    qed
  qed
qed


section \<open>The founding fields of the status\<close>

text \<open>A later status keeps the founding size once it is pinned, and the bootstrap flag once it is set.\<close>

definition founding_kept :: "KahunaClusterStatus \<Rightarrow> KahunaClusterStatus \<Rightarrow> bool" where
  "founding_kept st st' \<longleftrightarrow>
     (st_BootstrapSize st \<noteq> 0 \<longrightarrow> st_BootstrapSize st' = st_BootstrapSize st) \<and>
     (st_Bootstrapped st \<longrightarrow> st_Bootstrapped st')"

definition stored_kept :: "('w \<Rightarrow> object_key \<rightharpoonup> KahunaClusterStatus) \<Rightarrow> 'w \<Rightarrow> 'w \<Rightarrow> bool" where
  "stored_kept vs w w' \<longleftrightarrow> (\<forall>k st. vs w k = Some st \<longrightarrow> (\<exists>st'. vs w' k = Some st' \<and> founding_kept st st'))"

lemma founding_kept_refl [simp]: "founding_kept st st"
  by (simp add: founding_kept_def)

lemma founding_kept_trans: "founding_kept a b \<Longrightarrow> founding_kept b c \<Longrightarrow> founding_kept a c"
  by (auto simp: founding_kept_def)

lemma founding_kept_cong: "founding a = founding a' \<Longrightarrow> founding b = founding b' \<Longrightarrow> founding_kept a b = founding_kept a' b'"
  by (simp add: founding_kept_def founding_def)

lemma stored_kept_eq: "vs w' = vs w \<Longrightarrow> stored_kept vs w w'"
  by (simp add: stored_kept_def)

lemma stored_kept_trans: "stored_kept vs w w1 \<Longrightarrow> stored_kept vs w1 w2 \<Longrightarrow> stored_kept vs w w2"
  unfolding stored_kept_def using founding_kept_trans by blast

lemma update_stored_kept:
  assumes "status_laws vs kb" "kb_UpdateStatus kb c w = (w', res)"
    and "\<And>st. vs w (kc_Namespace c, kc_Name c) = Some st \<Longrightarrow> founding_kept st (kc_Status c)"
  shows "stored_kept vs w w'"
proof -
  have "founding_kept st0 st" if "founding st = founding (kc_Status c)" "vs w (kc_Namespace c, kc_Name c) = Some st0" for st st0
    using assms(3) [OF that(2)] founding_kept_cong [OF refl that(1), of st0] by simp
  thus ?thesis using status_update(1) [OF assms(1,2)] unfolding stored_kept_def by auto
qed

lemma reconcileAutoscaling_founding:
  assumes "reconcileAutoscaling impl am query now c b m pl perr pods traffic = Inr (st, t)"
  shows "founding st = founding (kc_Status c)"
  using assms unfolding reconcileAutoscaling_def
  by (auto simp: founding_def Let_def split: option.splits sum.splits prod.splits)

lemma reconcileBackup_founding:
  assumes "reconcileBackup impl qv am parse kb c m pods runner w = (w', Inr (st, b, wake, launch))"
  shows "founding st = founding (kc_Status c)"
proof (cases "sp_Backup (kc_Spec c)")
  case None
  thus ?thesis using assms by (auto simp: reconcileBackup_def founding_def Let_def)
next
  case (Some spec)
  obtain w1 vol where r: "readBackupVolume kb c spec w = (w1, vol)" by fastforce
  have cond: "founding (setBackupCondition am s f x y) = founding s" "founding (setBackupVolumeCondition am s vol) = founding s"
    "founding (with_backup bs s) = founding s" "founding (s\<lparr>st_Conditions := cs\<rparr>) = founding s" for s f x y bs cs
    by (simp_all add: founding_def setBackupCondition_def setBackupVolumeCondition_def with_backup_def)
  show ?thesis using assms unfolding reconcileBackup_eq [OF Some r] Let_def
    by (auto simp: cond split: sum.splits option.splits if_splits prod.splits dest!: schedule_backup_fields)
qed

lemma observed_status_founding:
  assumes "observed_status sel c s pods m = Inr st"
  shows "st_BootstrapSize st = st_BootstrapSize (kc_Status c)" "founding_kept (kc_Status c) st"
proof -
  show "st_BootstrapSize st = st_BootstrapSize (kc_Status c)"
    using assms by (auto simp: observed_status_def Let_def split: sum.splits option.splits prod.splits if_splits)
  moreover have "st_Bootstrapped (kc_Status c) \<longrightarrow> st_Bootstrapped st"
    using assms by (auto simp: observed_status_def Let_def split: sum.splits option.splits prod.splits if_splits)
  ultimately show "founding_kept (kc_Status c) st" by (simp add: founding_kept_def)
qed

lemma pin_bootstrap_size_stored:
  assumes laws: "status_laws vs kb" and pin: "pin_bootstrap_size kb c w = (w', r)"
    and stored: "vs w (kc_Namespace c, kc_Name c) = Some (kc_Status c)"
  shows "stored_kept vs w w'"
    "r = Inr c1 \<Longrightarrow> kc_Namespace c1 = kc_Namespace c \<and> kc_Name c1 = kc_Name c \<and> kc_Spec c1 = kc_Spec c \<and>
       vs w' (kc_Namespace c, kc_Name c) = Some (kc_Status c1) \<and> st_Bootstrapped (kc_Status c1) = st_Bootstrapped (kc_Status c)"
proof -
  let ?c = "c\<lparr>kc_Status := (kc_Status c)\<lparr>st_BootstrapSize := desiredReplicas c\<rparr>\<rparr>"
  obtain w1 r1 where u: "kb_UpdateStatus kb ?c w = (w1, r1)" by fastforce
  have "stored_kept vs w w'" if "st_BootstrapSize (kc_Status c) = 0"
  proof -
    have "stored_kept vs w w1"
      by (rule update_stored_kept [OF laws u]) (use that stored in \<open>simp add: founding_kept_def\<close>)
    moreover have "w' = w1" using pin u that by (auto simp: pin_bootstrap_size_def split: sum.splits)
    ultimately show ?thesis by simp
  qed
  thus "stored_kept vs w w'" using pin stored_kept_eq [of vs w w] by (cases "st_BootstrapSize (kc_Status c) = 0") (auto simp: pin_bootstrap_size_def)
  show "r = Inr c1 \<Longrightarrow> kc_Namespace c1 = kc_Namespace c \<and> kc_Name c1 = kc_Name c \<and> kc_Spec c1 = kc_Spec c \<and>
       vs w' (kc_Namespace c, kc_Name c) = Some (kc_Status c1) \<and> st_Bootstrapped (kc_Status c1) = st_Bootstrapped (kc_Status c)"
    using pin u stored status_update(2) [OF laws u, of c1]
    by (cases "st_BootstrapSize (kc_Status c) = 0") (auto simp: pin_bootstrap_size_def founding_def split: sum.splits)
qed


section \<open>A whole pass and the stored state\<close>

lemma status_objects_keep:
  assumes "status_laws vs kb"
  shows "objects_keep vs kb" "resource_keeps vs (kb_StatefulSet kb)" "reads_keep vs kb" "\<forall>k. keeps vs (ka_Get (kb_Secret kb) k)"
    "\<forall>k. keeps vs (ka_Get (kb_PVC kb) k)" "\<forall>k. keeps vs (ka_Get (kb_StatefulSet kb) k)"
  using assms by (simp_all add: status_laws_def objects_keep_def resource_keeps_def)

lemma reconcile_cluster_stored_kept:
  assumes laws: "status_laws vs kb" and run: "reconcile_cluster impl qv am sel parse kb c b pods traffic backups w = (w', r)"
    and stored: "vs w (kc_Namespace c, kc_Name c) = Some (kc_Status c)"
  shows "stored_kept vs w w'"
proof -
  note K = status_objects_keep [OF laws]
  note frames = reconcileStatefulSet_frame [OF K(3,2)] reconcileBackup_frame [OF K(5,3)]
  from run show ?thesis
  proof (cases rule: reconcile_cluster_cases)
    case (finished st t w1 sts w2 st2 b2 wake launch res)
    let ?c = "c\<lparr>kc_Status := st2\<rparr>"
    have v2: "vs w2 = vs w" using frames(1) [OF finished(2)] frames(2) [OF finished(3)] by simp
    have f2: "founding st2 = founding (kc_Status c)"
      using reconcileBackup_founding [OF finished(3)] reconcileAutoscaling_founding [OF finished(1)] by simp
    show ?thesis
    proof (cases "vs w' = vs w2")
      case True
      thus ?thesis using v2 by (simp add: stored_kept_eq)
    next
      case False
      then obtain s0 s1 w3 u where o: "observed_status sel ?c s0 pods (known_membership kb c pods w) = Inr s1" "founding u = founding s1"
        "vs w3 = vs w2" "fst (kb_UpdateStatus kb (?c\<lparr>kc_Status := u\<rparr>) w3) = w'"
        using reconcileStatus_write [OF K(6,4) finished(4)] by blast
      have kept: "founding_kept (kc_Status c) u"
        using observed_status_founding(2) [OF o(1)] founding_kept_cong [OF f2 [symmetric] o(2)] by simp
      obtain r4 where u: "kb_UpdateStatus kb (?c\<lparr>kc_Status := u\<rparr>) w3 = (w', r4)" using o(4) by (metis prod.collapse)
      have "stored_kept vs w3 w'"
        by (rule update_stored_kept [OF laws u]) (use kept stored v2 o(3) in simp)
      thus ?thesis using o(3) v2 by (simp add: stored_kept_def)
    qed
  qed (use frames in \<open>simp_all add: stored_kept_eq\<close>)
qed

lemma Reconcile_stored_kept:
  assumes laws: "status_laws vs kb" and run: "Reconcile impl qv am sel parse kb req traffic backups w = (w', r)"
  shows "stored_kept vs w w'"
proof -
  note K = status_objects_keep [OF laws]
  have got: "vs w0 = vs w" "(kc_Namespace c, kc_Name c) = req" "vs w0 (kc_Namespace c, kc_Name c) = Some (kc_Status c)"
    if "kb_GetCluster kb req w = (w0, Inr c)" for w0 c
    using status_get(1) [OF laws that] status_get(2,3) [OF laws that refl] by simp_all
  have pinned: "stored_kept vs w w1" "r1 = Inr c1 \<Longrightarrow> vs w1 (kc_Namespace c1, kc_Name c1) = Some (kc_Status c1)"
    if "kb_GetCluster kb req w = (w0, Inr c)" "pin_bootstrap_size kb c w0 = (w1, r1)" for w0 c w1 r1 c1
    using pin_bootstrap_size_stored [OF laws that(2) got(3) [OF that(1)]] got(1) [OF that(1)]
    by (auto simp: stored_kept_def)
  have listed: "vs w2 = vs w1" if "listPods kb c w1 = (w2, x)" for c w1 w2 x
    using that reads_keepD(2) [OF K(3)] by (simp add: listPods_def)
  note objects = reconcile_objects_frame [OF K(1)]
  from run show ?thesis
  proof (cases rule: Reconcile_cases)
    case (unread err)
    thus ?thesis using status_get(1) [OF laws] by (simp add: stored_kept_eq)
  next
    case (unpinned c w0 err)
    thus ?thesis using pinned by blast
  next
    case (objects_failed c w0 c1 w1 err)
    thus ?thesis using pinned(1) objects stored_kept_eq stored_kept_trans by metis
  next
    case (unlisted c w0 c1 w1 w2 err)
    thus ?thesis using pinned(1) objects listed stored_kept_eq stored_kept_trans by metis
  next
    case (listed c w0 c1 w1 w2 w3 pods)
    have same: "vs w3 = vs w1" using objects [OF listed(3)] \<open>\<And>c w1 w2 x. listPods kb c w1 = (w2, x) \<Longrightarrow> vs w2 = vs w1\<close> [OF listed(4)] by simp
    have "stored_kept vs w3 w'"
      by (rule reconcile_cluster_stored_kept [OF laws listed(5)]) (use same pinned(2) [OF listed(1,2) refl] in simp)
    thus ?thesis using pinned(1) [OF listed(1,2)] same stored_kept_eq [of vs w3 w1] stored_kept_trans by metis
  qed
qed


section \<open>Removing a node\<close>

text \<open>The node can go: none of its pods has an address to ask, or its first such pod confirmed that it left.\<close>

definition removal_confirmed :: "'w kube \<Rightarrow> KahunaCluster \<Rightarrow> Pod list \<Rightarrow> int32 \<Rightarrow> 'w \<Rightarrow> bool" where
  "removal_confirmed kb c pods i w \<longleftrightarrow>
     (case find (\<lambda>p. pod_Name p = podName c i \<and> pod_PodIP p \<noteq> []) pods of
        None \<Rightarrow> True
      | Some p \<Rightarrow> \<exists>x. snd (kb_Leave kb (podBaseURL c p) w) = Inr x \<and> lr_Outcome x \<in> {OutcomeCommitted, OutcomeNotAMember})"

lemma decommission_step_ok:
  assumes "decommission_step kb c pods i w = (w', d)"
  shows "dec_ok d \<longleftrightarrow> removal_confirmed kb c pods i w"
  using assms by (auto simp: decommission_step_def decommission_def removal_confirmed_def Let_def Removed_def
      split: option.splits sum.splits if_splits)

lemma held_plan_confirmed:
  assumes "held_plan kb c pods n p w = (w', q)" "pl_Replicas p < n"
  shows "if removal_confirmed kb c pods (wrap32 (n - 1)) w then q = p else pl_Replicas q = n"
proof -
  obtain w1 d where d: "decommission_step kb c pods (wrap32 (n - 1)) w = (w1, d)" by fastforce
  show ?thesis using assms d decommission_step_ok [OF d] by (auto simp: held_plan_def split: if_splits)
qed

lemma held_plan_shrinks:
  assumes "held_plan kb c pods n p w = (w', q)" "pl_Replicas q < n"
  shows "q = p" "removal_confirmed kb c pods (wrap32 (n - 1)) w"
proof -
  have "pl_Replicas p < n" using assms by (auto simp: held_plan_def Let_def split: if_splits prod.splits)
  from held_plan_confirmed [OF assms(1) this] assms(2)
  show "q = p" "removal_confirmed kb c pods (wrap32 (n - 1)) w" by (auto split: if_splits)
qed

lemma buildPlan_shrinks:
  assumes "pl_Replicas (buildPlan c n True m p perr) < n" "0 \<le> n" "n < 2 ^ 31 - 1"
  shows "pl_Replicas (buildPlan c n True m p perr) = n - 1 \<and> 1 < n \<and> desiredReplicas c < n \<and>
    rosterMatches c m n \<and> perr = None \<and> snd (snd (placementSettled c p n)) = []"
proof -
  have w: "wrap32 (n + 1) = n + 1" "wrap32 (n - 1) = n - 1" using assms(2,3) by (simp_all add: in32_def)
  show ?thesis using assms(1) by (auto simp: buildPlan_def Let_def w split: if_splits option.splits)
qed

lemma status_irrelevant [simp]:
  "podBaseURL (c\<lparr>kc_Status := st\<rparr>) = podBaseURL c" "stsKey (c\<lparr>kc_Status := st\<rparr>) = stsKey c"
  "sts_read kb (c\<lparr>kc_Status := st\<rparr>) = sts_read kb c"
  "selectorLabels (c\<lparr>kc_Status := st\<rparr>) = selectorLabels c"
  by (simp_all add: podBaseURL_def ports_def sts_read_def stsKey_def stsName_def selectorLabels_def fun_eq_iff)

lemma reads_status_irrelevant [simp]:
  "known_membership kb (c\<lparr>kc_Status := st\<rparr>) pods w = known_membership kb c pods w"
  "known_placement kb (c\<lparr>kc_Status := st\<rparr>) pods w = known_placement kb c pods w"
proof -
  have "readMembership_loop q (c\<lparr>kc_Status := st\<rparr>) ps e = readMembership_loop q c ps e" for q ps e
    by (induction ps arbitrary: e) (auto split: sum.split)
  thus "known_membership kb (c\<lparr>kc_Status := st\<rparr>) pods w = known_membership kb c pods w"
    by (simp add: known_membership_def readMembership_def)
  have "readPlacement_loop q (c\<lparr>kc_Status := st\<rparr>) ps e = readPlacement_loop q c ps e" for q ps e
    by (induction ps arbitrary: e) (auto split: sum.split)
  thus "known_placement kb (c\<lparr>kc_Status := st\<rparr>) pods w = known_placement kb c pods w"
    by (simp add: known_placement_def readPlacement_def)
qed

lemma stsKey_cluster_key: "stsKey c = (kc_Namespace c, kc_Name c)"
  by (simp add: stsKey_def stsName_def)

lemma spec_size_planned:
  assumes "sts_Spec y = spec_of_plan impl qv c p spec"
  shows "spec_size y = pl_Replicas p" "ss_Template (sts_Spec y) = podTemplate impl qv c"
  using assms by (simp_all add: spec_size_def spec_of_plan_def desiredStatefulSet_def Let_def)

text \<open>A stored StatefulSet that a pass made smaller was planned, and its node has gone.\<close>

lemma sts_planned_shrinks:
  assumes "sts_planned impl qv V kb c True m pl perr pods wl y w w'" "vw_StatefulSet V w (stsKey c) = Some s0"
    "spec_size y < spec_size s0" "0 \<le> spec_size s0" "spec_size s0 < 2 ^ 31 - 1"
  shows "spec_size y = spec_size s0 - 1 \<and> 1 \<le> spec_size y \<and> desiredReplicas c < spec_size s0 \<and>
    rosterMatches c m (spec_size s0) \<and> perr = None \<and> snd (snd (placementSettled c pl (spec_size s0))) = [] \<and>
    removal_confirmed kb c pods (spec_size y) wl"
proof -
  let ?n = "spec_size s0"
  from assms(1,2) obtain w2 p where h: "held_plan kb c pods ?n (buildPlan c ?n True m pl perr) wl = (w2, p)"
    and y: "sts_Spec y = spec_of_plan impl qv c p (sts_Spec s0)"
    unfolding sts_planned_def by auto
  have less: "pl_Replicas p < ?n" using assms(3) spec_size_planned(1) [OF y] by simp
  note H = held_plan_shrinks [OF h less]
  note B = buildPlan_shrinks [OF less [unfolded H(1)] assms(4,5)]
  have "wrap32 (?n - 1) = ?n - 1" using assms(4,5) by (simp add: in32_def)
  thus ?thesis using H B spec_size_planned(1) [OF y] by auto
qed


section \<open>What a pass reports\<close>

lemma hasQuorum_iff:
  assumes "in32 desired"
  shows "hasQuorum ready desired \<longleftrightarrow> 0 < desired \<and> desired < 2 * ready"
proof (cases "0 < desired")
  case True
  have "wrap32 (desired div 2 + 1) = desired div 2 + 1" using True assms by (simp add: in32_def)
  thus ?thesis using True by (auto simp: hasQuorum_def tdiv_nonneg)
qed (simp add: hasQuorum_def)

definition with_role :: "string \<Rightarrow> Membership \<Rightarrow> int" where
  "with_role role m = int (length (filter (\<lambda>x. mem_Role x = role) (mbr_Members m)))"

lemma countRoles_roster:
  assumes "int (length (mbr_Members m)) < 2 ^ 31"
  shows "countRoles (buildMemberStatus c m pods) = (with_role RoleVoter m, with_role RoleLearner m)"
proof -
  let ?ms = "buildMemberStatus c m pods"
  let ?f = "member_status (pods_by_name pods) (endpoint_to_pod c (length pods))"
  have len: "length ?ms = length (mbr_Members m)" by (simp add: buildMemberStatus_def)
  have role: "length (filter (\<lambda>x. ms_Role x = role) ?ms) = length (filter (\<lambda>x. mem_Role x = role) (mbr_Members m))" for role
  proof -
    have "mset (filter (\<lambda>x. ms_Role x = role) ?ms) = mset (filter (\<lambda>x. ms_Role x = role) (map ?f (mbr_Members m)))"
      using mset_buildMemberStatus [of c m pods] by (metis mset_filter)
    hence "length (filter (\<lambda>x. ms_Role x = role) ?ms) = length (filter (\<lambda>x. ms_Role x = role) (map ?f (mbr_Members m)))"
      by (metis size_mset)
    thus ?thesis by (simp add: filter_map o_def)
  qed
  have "in32 (0 + int (length ?ms))" using assms by (simp add: len in32_def)
  from countRoles_loop_eq [OF order_refl order_refl this this] show ?thesis
    by (simp add: countRoles_def with_role_def role)
qed

lemma rolled_out_scan_iff:
  assumes "0 \<le> seen" "seen + int (length pods) < 2 ^ 31"
  shows "rolled_out_scan c n pods seen \<longleftrightarrow> 0 < n \<and> seen + int (length (sized_members n pods)) = n \<and>
    (\<forall>p \<in> set (sized_members n pods). pod_DeletionTimestamp p = None \<and> podIsReady p \<and> podImage p = sp_Image (kc_Spec c))"
  using assms
proof (induction pods arbitrary: seen)
  case (Cons p pods)
  have "wrap32 (seen + 1) = seen + 1" using Cons.prems by (simp add: in32_def)
  thus ?case using Cons.IH [of "seen + 1"] Cons.IH [of seen] Cons.prems
    by (auto simp: Let_def sized_members_def)
qed (auto simp: sized_members_def)

text \<open>The current image moves exactly when the whole StatefulSet runs it: there are as many pods with an
  ordinal below the size as the size says, more than none, and each stays, is ready and runs the
  image of the specification.\<close>

lemma imageRolledOut_iff:
  assumes "int (length pods) < 2 ^ 31"
  shows "imageRolledOut c sts pods \<longleftrightarrow> 0 < spec_size sts \<and> int (length (sized_members (spec_size sts) pods)) = spec_size sts \<and>
    (\<forall>p \<in> set (sized_members (spec_size sts) pods).
       pod_DeletionTimestamp p = None \<and> podIsReady p \<and> podImage p = sp_Image (kc_Spec c))"
  using rolled_out_scan_iff [of 0 pods c "spec_size sts"] assms by (simp add: imageRolledOut_def)

definition example_sts :: StatefulSet where
  "example_sts = (desiredStatefulSet example_impl (\<lambda>_. 0) example_settled 0)
     \<lparr>sts_StatusReplicas := 3, sts_StatusReadyReplicas := 3\<rparr>"

abbreviation example_pods :: "Pod list" where
  "example_pods \<equiv> settled_pods example_impl (\<lambda>_. 0) example_settled [0, 1, 2]"

lemma example_sts_fields [simp]:
  "spec_size example_sts = 3" "sts_StatusReplicas example_sts = 3" "sts_StatusReadyReplicas example_sts = 3"
  by (simp_all add: example_sts_def spec_size_def desiredStatefulSet_def Let_def)

lemma example_pods_run_image:
  "\<forall>p \<in> set (sized_members 3 example_pods). pod_DeletionTimestamp p = None \<and> podIsReady p \<and> podImage p = sp_Image (kc_Spec example_settled)"
  using settled_pods_current [of example_settled example_impl "\<lambda>_. 0" "[0, 1, 2]"]
  by (simp add: settled_pods_members list_all_iff pod_current_def)

lemma imageRolledOut_iff_witness: "imageRolledOut example_settled example_sts example_pods"
  using imageRolledOut_iff [of example_pods example_settled example_sts] example_pods_run_image
  by (simp add: settled_pods_members)

text \<open>The status fields that a pass reports, in terms of what it read.\<close>

lemma observed_status_reads:
  assumes "observed_status sel c sts pods (Some m) = Inr st" "int (length (mbr_Members m)) < 2 ^ 31"
  shows "st_Replicas st = sts_StatusReplicas sts" "st_ReadyReplicas st = sts_StatusReadyReplicas sts"
    "st_Voters st = with_role RoleVoter m" "st_Learners st = with_role RoleLearner m"
    "st_CurrentImage st = (if imageRolledOut c sts pods then sp_Image (kc_Spec c) else st_CurrentImage (kc_Status c))"
    "st_Bootstrapped st \<longleftrightarrow> st_Bootstrapped (kc_Status c) \<or>
       0 < mbr_MembershipVersion m \<and> desiredReplicas c \<le> with_role RoleVoter m"
  using assms(1) countRoles_roster [OF assms(2), of c pods]
  by (auto simp: observed_status_def Let_def split: sum.splits option.splits if_splits)

text \<open>C27: The phase means what it says. With a readable roster, a bootstrapped cluster is reported Degraded
  exactly when a majority of the desired nodes is not ready, and a cluster is reported Running exactly
  when it is bootstrapped, the StatefulSet has the desired number of pods and at least as many are
  ready, the committed roster holds exactly that many Voters and no Learner, and the image of the
  specification is rolled out now or was before.\<close>

theorem reported_phase:
  assumes "observed_status sel c sts pods (Some m) = Inr st" "int (length (mbr_Members m)) < 2 ^ 31"
    and "0 < desiredReplicas c" "in32 (desiredReplicas c)"
  shows "let d = desiredReplicas c; phase = phase_of st d True (is_progressing c st d True) in
    (phase = PhaseRunning \<longleftrightarrow>
       st_Bootstrapped st \<and> sts_StatusReplicas sts = d \<and> d \<le> sts_StatusReadyReplicas sts \<and>
       with_role RoleVoter m = d \<and> with_role RoleLearner m = 0 \<and>
       (imageRolledOut c sts pods \<or> st_CurrentImage (kc_Status c) = sp_Image (kc_Spec c))) \<and>
    (phase = PhaseDegraded \<longleftrightarrow> st_Bootstrapped st \<and> 2 * sts_StatusReadyReplicas sts \<le> d)"
  using observed_status_reads [OF assms(1,2)] hasQuorum_iff [OF assms(4)] assms(3)
  by (auto simp: Let_def phase_of_def is_progressing_def roster_converged_def)

theorem reported_phase_witness:
  "\<exists>st. observed_status (\<lambda>_. Inr ''app=kahuna'') example_settled example_sts [] (Some (example_roster example_settled (range_int 3))) = Inr st \<and>
     phase_of st 3 True (is_progressing example_settled st 3 True) \<noteq> PhaseDegraded"
proof -
  let ?m = "example_roster example_settled (range_int 3)"
  obtain st where st: "observed_status (\<lambda>_. Inr ''app=kahuna'') example_settled example_sts [] (Some ?m) = Inr st"
    by (auto simp: observed_status_def Let_def split: prod.split)
  have len: "int (length (mbr_Members ?m)) < 2 ^ 31" by (simp add: example_roster_def)
  show ?thesis using st reported_phase [OF st len] by (simp add: Let_def in32_def)
qed

text \<open>The placement read asks the ready pods in turn. Its result is that of the first pod that answers or
  says that its server has no placement; if every pod fails otherwise it is the last error, and if
  there is no ready pod to ask it is an error saying so.\<close>

lemma readPlacement_first_decisive:
  "readPlacement query c pods =
     (let answers = map (\<lambda>p. query (podBaseURL c p))
            (filter (\<lambda>p. pod_PodIP p \<noteq> [] \<and> pod_DeletionTimestamp p = None \<and> podIsReady p) pods)
      in case find (\<lambda>x. case x of Inr _ \<Rightarrow> True | Inl e \<Rightarrow> is_placement_unsupported e) answers of
           Some x \<Rightarrow> x
         | None \<Rightarrow> last (Inl (Errorf ''no ready pod to read placement from'') # answers))"
proof -
  have "readPlacement_loop query c pods e =
     (let answers = map (\<lambda>p. query (podBaseURL c p))
            (filter (\<lambda>p. pod_PodIP p \<noteq> [] \<and> pod_DeletionTimestamp p = None \<and> podIsReady p) pods)
      in case find (\<lambda>x. case x of Inr _ \<Rightarrow> True | Inl e \<Rightarrow> is_placement_unsupported e) answers of
           Some x \<Rightarrow> x
         | None \<Rightarrow> last (Inl (case e of None \<Rightarrow> Errorf ''no ready pod to read placement from'' | Some e \<Rightarrow> e) # answers))" for e
    by (induction pods arbitrary: e) (auto simp: Let_def split: sum.split option.split)
  from this [of None] show ?thesis unfolding readPlacement_def by (simp only: option.case)
qed

end
