(* ===== verification/Operator.thy ===== *)
theory Operator
  imports Controller
begin

text \<open>
  The running operator: the passes, the backups that \<open>backupRunner.start\<close> of
  \<open>src/internal/controller/backup.go\<close> runs in goroutines beside them, and restarts.

  The state has the API server and everything else outside, the two fields of
  \<open>KahunaClusterReconciler\<close> that survive a pass (the traffic sampler and the runner), and the
  goroutines that are alive, by the address of the job they write their result to. A step is a whole
  pass, the end of one goroutine, a restart or a change outside. The ends of goroutines commute with
  everything a pass does but its one look at the runner, which takes the runner's lock, so a goroutine
  that ends during a pass ends before or after that pass.
\<close>


section \<open>State and steps\<close>

record 'w operator_state =
  op_world :: 'w
  op_traffic :: trafficSampler
  op_backups :: "cluster_key backupRunner"
  op_jobs :: "nat \<rightharpoonup> cluster_key \<times> backupLaunch"

definition operator_boot :: "'w \<Rightarrow> 'w operator_state" where
  "operator_boot w = \<lparr>op_world = w, op_traffic = Map.empty, op_backups = runner_empty, op_jobs = Map.empty\<rparr>"

text \<open>The goroutine that a launch starts, and the result it ends with.\<close>

definition launched :: "cluster_key \<Rightarrow> backupLaunch option \<Rightarrow> (nat \<rightharpoonup> cluster_key \<times> backupLaunch) \<Rightarrow> nat \<rightharpoonup> cluster_key \<times> backupLaunch" where
  "launched key launch jobs = (case launch of None \<Rightarrow> jobs | Some l \<Rightarrow> jobs(bl_address l \<mapsto> (key, l)))"

definition job_result :: "backupCalls \<Rightarrow> backupLaunch \<Rightarrow> goerr + BackupInfo" where
  "job_result calls l = snd (runBackup calls (bl_kind l) (bl_parent l) (bl_targets l))"

definition after_pass :: "cluster_key \<Rightarrow> 'w \<Rightarrow> pass_result \<Rightarrow> 'w operator_state \<Rightarrow> 'w operator_state" where
  "after_pass req w x s = \<lparr>op_world = w, op_traffic = pr_traffic x, op_backups = pr_backups x,
     op_jobs = launched req (pr_launch x) (op_jobs s)\<rparr>"

definition job_ended :: "nat \<Rightarrow> goerr + BackupInfo \<Rightarrow> 'w operator_state \<Rightarrow> 'w operator_state" where
  "job_ended a result s = s\<lparr>op_backups := runner_finish a result (op_backups s), op_jobs := (op_jobs s)(a := None)\<rparr>"

text \<open>A pass that finds no cluster, or one without backups, makes the runner forget the cluster's job.\<close>

definition forgets :: "'w kube \<Rightarrow> cluster_key \<Rightarrow> 'w \<Rightarrow> bool" where
  "forgets kb req w \<longleftrightarrow>
     (case snd (kb_GetCluster kb req w) of Inl err \<Rightarrow> IsNotFound err | Inr c \<Rightarrow> sp_Backup (kc_Spec c) = None)"

text \<open>
  The runs of the operator. \<open>keep\<close> is a set of clusters that exist with backups enabled whenever a
  pass looks; with \<open>keep = {}\<close> the runs are all runs. A panic of a pass is recovered by the controller
  library and leaves the sampler as far as it got.
\<close>

inductive operator_reach :: "f64_impl \<Rightarrow> (quantity \<Rightarrow> int64) \<Rightarrow> apimeta \<Rightarrow> (labels \<Rightarrow> goerr + string) \<Rightarrow> (string \<Rightarrow> goerr + schedule) \<Rightarrow> 'w kube \<Rightarrow> cluster_key set \<Rightarrow> 'w operator_state \<Rightarrow> bool"
  for impl qv am sel parse kb keep where
  boot: "operator_reach impl qv am sel parse kb keep (operator_boot w)"
| pass: "operator_reach impl qv am sel parse kb keep s \<Longrightarrow>
    Reconcile impl qv am sel parse kb req (op_traffic s) (op_backups s) (op_world s) = (w, Inr x) \<Longrightarrow>
    req \<in> keep \<longrightarrow> \<not> forgets kb req (op_world s) \<Longrightarrow>
    operator_reach impl qv am sel parse kb keep (after_pass req w x s)"
| panicked: "operator_reach impl qv am sel parse kb keep s \<Longrightarrow>
    Reconcile impl qv am sel parse kb req (op_traffic s) (op_backups s) (op_world s) = (w, Inl p) \<Longrightarrow>
    operator_reach impl qv am sel parse kb keep (s\<lparr>op_world := w, op_traffic := traffic\<rparr>)"
| job_ends: "operator_reach impl qv am sel parse kb keep s \<Longrightarrow> op_jobs s a = Some (k, l) \<Longrightarrow>
    operator_reach impl qv am sel parse kb keep (job_ended a (job_result calls l) s)"
| restarted: "operator_reach impl qv am sel parse kb keep s \<Longrightarrow>
    operator_reach impl qv am sel parse kb keep (operator_boot (op_world s))"
| outside: "operator_reach impl qv am sel parse kb keep s \<Longrightarrow> operator_reach impl qv am sel parse kb keep (s\<lparr>op_world := w\<rparr>)"

lemma operator_state_fields [simp]:
  "op_world (operator_boot w) = w" "op_backups (operator_boot w) = runner_empty" "op_jobs (operator_boot w) = Map.empty"
  "op_traffic (operator_boot w) = Map.empty"
  "op_world (after_pass req w x s) = w" "op_backups (after_pass req w x s) = pr_backups x"
  "op_jobs (after_pass req w x s) = launched req (pr_launch x) (op_jobs s)" "op_traffic (after_pass req w x s) = pr_traffic x"
  "op_world (job_ended a r s) = op_world s" "op_backups (job_ended a r s) = runner_finish a r (op_backups s)"
  "op_jobs (job_ended a r s) = (op_jobs s)(a := None)" "op_traffic (job_ended a r s) = op_traffic s"
  by (simp_all add: operator_boot_def after_pass_def job_ended_def)


section \<open>What a pass does to the runner\<close>

text \<open>The effect on the runner of a pass that looks at the cluster's job, with the launch it makes.\<close>

definition runner_looked :: "cluster_key \<Rightarrow> cluster_key backupRunner \<Rightarrow> cluster_key backupRunner \<Rightarrow> backupLaunch option \<Rightarrow> bool" where
  "runner_looked k r r' launch \<longleftrightarrow>
     (let r1 = fst (runner_poll k r) in
      case launch of
        None \<Rightarrow> r' = r1
      | Some l \<Rightarrow> (\<forall>j. runner_jobs r k = Some j \<longrightarrow> bj_done j) \<and> bl_address l = br_next r1 \<and>
          (\<exists>t. r' = runner_start k (new_job (bl_kind l) t (bl_parent l)) r1))"

lemma reconcileBackup_looks:
  assumes laws: "kube_laws V kb" and sp: "sp_Backup (kc_Spec c) = Some spec"
    and run: "reconcileBackup impl qv am parse kb c m pods r w = (w', Inr (status, r', wake, launch))"
  shows "runner_looked (cluster_key c) r r' launch"
    "\<exists>st. collected c r (kb_Now kb w) = Inr st \<and> st_Backup status = Some st"
proof -
  obtain w1 volume where vol: "readBackupVolume kb c spec w = (w1, volume)" by fastforce
  note R = run [unfolded reconcileBackup_eq [OF sp vol] Let_def]
  obtain st where st: "collected c r (kb_Now kb w) = Inr st" using R by (auto split: sum.splits)
  let ?r = "fst (runner_poll (cluster_key c) r)"
  have idle: "\<forall>j. runner_jobs r (cluster_key c) = Some j \<longrightarrow> bj_done j" if "still_running c r = None"
    using that by (auto simp: still_running_def split: if_splits)
  have sched: "runner_looked (cluster_key c) r r' launch"
    if "schedule_backup impl qv am c spec m pods volume inp s ?r = (s', r', wake, launch)" "still_running c r = None" for inp s s'
    using schedule_backup_launch [OF readBackupVolume_sound(1) [OF laws vol] that(1)] idle [OF that(2)]
    by (auto simp: runner_looked_def Let_def split: if_splits)
  have none: "runner_looked (cluster_key c) r ?r None" by (simp add: runner_looked_def)
  show "runner_looked (cluster_key c) r r' launch"
    using R st sched none by (auto split: sum.splits if_splits option.splits prod.splits)
  show "\<exists>st. collected c r (kb_Now kb w) = Inr st \<and> st_Backup status = Some st"
    using R st by (auto simp: with_backup_def split: sum.splits if_splits option.splits prod.splits)
qed

text \<open>The effect of a whole pass: none if it failed before it got there.\<close>

definition runner_passed :: "bool \<Rightarrow> bool \<Rightarrow> cluster_key \<Rightarrow> cluster_key backupRunner \<Rightarrow> cluster_key backupRunner \<Rightarrow> backupLaunch option \<Rightarrow> bool" where
  "runner_passed ok forgetting k r r' launch \<longleftrightarrow>
     \<not> ok \<and> r' = r \<and> launch = None \<or>
     (if forgetting then r' = runner_forget k r \<and> launch = None else runner_looked k r r' launch)"

lemma Reconcile_runner:
  assumes laws: "kube_laws V kb" "status_laws vs kb"
    and run: "Reconcile impl qv am sel parse kb req traffic backups w = (w', Inr x)"
  shows "runner_passed (\<not> isl (pr_result x)) (forgets kb req w) req backups (pr_backups x) (pr_launch x)"
  using run
proof (cases rule: Reconcile_cases)
  case (listed c w0 c1 w1 w2 w3 pods)
  have st: "vs w0 (kc_Namespace c, kc_Name c) = Some (kc_Status c)" "(kc_Namespace c, kc_Name c) = req"
    using status_get(1) [OF laws(2) listed(1)] status_get(2,3) [OF laws(2) listed(1) refl] by simp_all
  note pin = pin_bootstrap_size_stored(2) [OF laws(2) listed(2) st(1) refl]
  have c1: "cluster_key (c1\<lparr>kc_Status := s\<rparr>) = req" "kc_Spec (c1\<lparr>kc_Status := s\<rparr>) = kc_Spec c" for s
    using pin st(2) by (simp_all add: cluster_key_def)
  have f: "forgets kb req w \<longleftrightarrow> sp_Backup (kc_Spec c) = None" using listed(1) by (simp add: forgets_def)
  from listed(5) show ?thesis
  proof (cases rule: reconcile_cluster_cases)
    case (sts_failed st t err)
    thus ?thesis by (simp add: runner_passed_def)
  next
    case (finished st t w4 sts w5 st2 b2 wake launch res)
    show ?thesis
    proof (cases "sp_Backup (kc_Spec c)")
      case None
      hence "b2 = runner_forget req backups" "launch = None"
        using finished(3) by (auto simp: reconcileBackup_def c1 Let_def)
      thus ?thesis using finished(5) f None by (simp add: runner_passed_def)
    next
      case (Some spec)
      thus ?thesis using reconcileBackup_looks(1) [OF laws(1) _ finished(3)] finished(5) f
        by (simp add: runner_passed_def c1)
    qed
  qed simp_all
qed (use run in \<open>auto simp: runner_passed_def forgets_def Reconcile_def Let_def split: if_splits\<close>)


section \<open>The invariant\<close>

definition operator_ok :: "cluster_key set \<Rightarrow> 'w operator_state \<Rightarrow> bool" where
  "operator_ok keep s \<longleftrightarrow>
     runner_sane (op_backups s) \<and>
     (\<forall>a k l. op_jobs s a = Some (k, l) \<longrightarrow>
        (\<exists>j. br_heap (op_backups s) a = Some j \<and> \<not> bj_done j \<and> bj_kind j = bl_kind l \<and> bj_parent j = bl_parent l)) \<and>
     (\<forall>k a j. br_jobs (op_backups s) k = Some a \<longrightarrow> br_heap (op_backups s) a = Some j \<longrightarrow> \<not> bj_done j \<longrightarrow>
        (\<exists>l. op_jobs s a = Some (k, l))) \<and>
     (\<forall>a k l. op_jobs s a = Some (k, l) \<longrightarrow> k \<in> keep \<longrightarrow> br_jobs (op_backups s) k = Some a)"

lemma operator_okD:
  assumes "operator_ok keep s"
  shows "runner_sane (op_backups s)" "runner_wf (op_backups s)"
    "op_jobs s a = Some (k, l) \<Longrightarrow>
       \<exists>j. br_heap (op_backups s) a = Some j \<and> \<not> bj_done j \<and> bj_kind j = bl_kind l \<and> bj_parent j = bl_parent l"
    "br_jobs (op_backups s) k = Some a \<Longrightarrow> br_heap (op_backups s) a = Some j \<Longrightarrow> \<not> bj_done j \<Longrightarrow> \<exists>l. op_jobs s a = Some (k, l)"
    "op_jobs s a = Some (k, l) \<Longrightarrow> k \<in> keep \<Longrightarrow> br_jobs (op_backups s) k = Some a"
  using assms unfolding operator_ok_def runner_sane_def by blast+

lemma operator_ok_cong:
  assumes "op_backups s = op_backups s'" "op_jobs s = op_jobs s'"
  shows "operator_ok keep s = operator_ok keep s'"
  using assms by (simp add: operator_ok_def)

lemma operator_ok_boot [simp]: "operator_ok keep (operator_boot w)"
  by (simp add: operator_ok_def) (simp add: runner_empty_def)

text \<open>Each effect a pass can have on the runner keeps the invariant.\<close>

lemma ok_forget:
  assumes "operator_ok keep s" "k \<notin> keep"
  shows "operator_ok keep (s\<lparr>op_backups := runner_forget k (op_backups s)\<rparr>)"
  using assms(2) operator_okD [OF assms(1)] runner_sane_ops(2) [OF operator_okD(1) [OF assms(1)]]
  unfolding operator_ok_def by (auto simp: runner_forget_def split: if_splits)

lemma ok_poll:
  assumes ok: "operator_ok keep s"
  shows "operator_ok keep (s\<lparr>op_backups := fst (runner_poll k (op_backups s))\<rparr>)"
proof -
  let ?r = "fst (runner_poll k (op_backups s))"
  have heap: "br_heap ?r = br_heap (op_backups s)" by (simp add: runner_poll_def split: option.split)
  have jobs: "br_jobs ?r k' = Some a \<longleftrightarrow> br_jobs (op_backups s) k' = Some a"
    if "br_heap (op_backups s) a = Some j" "\<not> bj_done j" for k' a j
    using that by (auto simp: runner_poll_def split: option.splits)
  have less: "br_jobs ?r k' = Some a \<Longrightarrow> br_jobs (op_backups s) k' = Some a" for k' a
    by (auto simp: runner_poll_def split: option.splits if_splits)
  have sane: "runner_sane ?r" by (rule runner_sane_ops(1) [OF operator_okD(1) [OF ok]])
  have kept: "br_jobs ?r k' = Some a" if "op_jobs s a = Some (k', l)" "k' \<in> keep" for a k' l
    using operator_okD(3) [OF ok that(1)] operator_okD(5) [OF ok that] jobs by blast
  show ?thesis
    unfolding operator_ok_def using sane kept less heap operator_okD(3,4) [OF ok] by auto
qed

lemma ok_start:
  assumes ok: "operator_ok keep s" and free: "br_jobs (op_backups s) k = None" and a: "bl_address l = br_next (op_backups s)"
  shows "operator_ok keep (s\<lparr>op_backups := runner_start k (new_job (bl_kind l) t (bl_parent l)) (op_backups s),
    op_jobs := (op_jobs s)(bl_address l \<mapsto> (k, l))\<rparr>)"
proof -
  define n where "n = br_next (op_backups s)"
  define j0 where "j0 = new_job (bl_kind l) t (bl_parent l)"
  define r where "r = runner_start k j0 (op_backups s)"
  have j0: "\<not> bj_done j0" "bj_kind j0 = bl_kind l" "bj_parent j0 = bl_parent l" by (simp_all add: j0_def new_job_def)
  have r: "br_jobs r = (br_jobs (op_backups s))(k \<mapsto> n)" "br_heap r = (br_heap (op_backups s))(n \<mapsto> j0)"
    by (simp_all add: r_def n_def runner_start_def)
  have fresh: "br_heap (op_backups s) n = None"
    using runner_wfD(3) [OF operator_okD(2) [OF ok], of n] unfolding n_def by (metis less_irrefl)
  have unowned: "br_jobs (op_backups s) k' \<noteq> Some n" for k' unfolding n_def by (rule runner_wf_fresh [OF operator_okD(2) [OF ok]])
  have idle: "op_jobs s n = None" using operator_okD(3) [OF ok, of n] fresh by (cases "op_jobs s n") auto
  have kept: "k' \<noteq> k" if "op_jobs s a' = Some (k', l')" "k' \<in> keep" for a' k' l'
    using operator_okD(5) [OF ok that] free by auto
  let ?s = "s\<lparr>op_backups := r, op_jobs := (op_jobs s)(n \<mapsto> (k, l))\<rparr>"
  have sane: "runner_sane (op_backups ?s)" unfolding r_def j0_def using runner_sane_ops(3) [OF operator_okD(1) [OF ok]] by simp
  have jobs: "\<exists>j. br_heap r a' = Some j \<and> \<not> bj_done j \<and> bj_kind j = bl_kind l' \<and> bj_parent j = bl_parent l'"
    if "((op_jobs s)(n \<mapsto> (k, l))) a' = Some (k', l')" for a' k' l'
    using that j0 operator_okD(3) [OF ok, of a' k' l'] by (cases "a' = n") (simp_all add: r)
  have owned: "\<exists>l'. ((op_jobs s)(n \<mapsto> (k, l))) a' = Some (k', l')"
    if "br_jobs r k' = Some a'" "br_heap r a' = Some j" "\<not> bj_done j" for k' a' j
    using that unowned [of k'] operator_okD(4) [OF ok, of k' a' j] by (cases "k' = k"; cases "a' = n") (simp_all add: r)
  have keep: "br_jobs r k' = Some a'" if "((op_jobs s)(n \<mapsto> (k, l))) a' = Some (k', l')" "k' \<in> keep" for a' k' l'
    using that kept [of a' k' l'] operator_okD(5) [OF ok, of a' k' l'] by (cases "a' = n") (simp_all add: r)
  have "operator_ok keep ?s" using sane jobs owned keep by (simp add: operator_ok_def)
  thus ?thesis by (simp add: a r_def j0_def n_def)
qed

lemma ok_finish:
  assumes ok: "operator_ok keep s" and live: "op_jobs s a = Some (k, l)"
  shows "operator_ok keep (job_ended a result s)"
proof -
  have "runner_sane (runner_finish a result (op_backups s))"
    using runner_sane_step [OF operator_okD(1) [OF ok], of "Finish a result"] by simp
  thus ?thesis
    unfolding operator_ok_def using operator_okD(3,4,5) [OF ok]
    by (auto simp: runner_finish_def split: if_splits)
qed

lemma ok_pass:
  assumes ok: "operator_ok keep s" and kept: "req \<in> keep \<longrightarrow> \<not> f"
    and eff: "runner_passed succeeded f req (op_backups s) (pr_backups x) (pr_launch x)"
  shows "operator_ok keep (after_pass req w x s)"
proof -
  have polled: "br_jobs (fst (runner_poll req (op_backups s))) req = None"
    if "\<forall>j. runner_jobs (op_backups s) req = Some j \<longrightarrow> bj_done j"
    using that runner_wfD(1) [OF operator_okD(2) [OF ok]]
    by (fastforce simp: runner_poll_def runner_jobs_def split: option.splits)
  from eff consider "pr_backups x = op_backups s" "pr_launch x = None"
    | "f" "pr_backups x = runner_forget req (op_backups s)" "pr_launch x = None"
    | "runner_looked req (op_backups s) (pr_backups x) (pr_launch x)"
    unfolding runner_passed_def by (auto split: if_splits)
  thus ?thesis
  proof cases
    case 1
    thus ?thesis using ok operator_ok_cong [of s "after_pass req w x s"] by (simp add: launched_def)
  next
    case 2
    thus ?thesis using ok_forget [OF ok, of req] kept
        operator_ok_cong [of "s\<lparr>op_backups := runner_forget req (op_backups s)\<rparr>" "after_pass req w x s"]
      by (auto simp: launched_def)
  next
    case 3
    show ?thesis
    proof (cases "pr_launch x")
      case None
      thus ?thesis using 3 ok_poll [OF ok, of req]
          operator_ok_cong [of "s\<lparr>op_backups := fst (runner_poll req (op_backups s))\<rparr>" "after_pass req w x s"]
        by (simp add: launched_def runner_looked_def)
    next
      case (Some l)
      let ?s = "s\<lparr>op_backups := fst (runner_poll req (op_backups s))\<rparr>"
      obtain t where t: "\<forall>j. runner_jobs (op_backups s) req = Some j \<longrightarrow> bj_done j" "bl_address l = br_next (op_backups ?s)"
        "pr_backups x = runner_start req (new_job (bl_kind l) t (bl_parent l)) (op_backups ?s)"
        using 3 Some by (auto simp: runner_looked_def Let_def)
      have "operator_ok keep (?s\<lparr>op_backups := runner_start req (new_job (bl_kind l) t (bl_parent l)) (op_backups ?s),
          op_jobs := (op_jobs ?s)(bl_address l \<mapsto> (req, l))\<rparr>)"
        by (rule ok_start [OF ok_poll [OF ok] _ t(2)]) (use polled [OF t(1)] in simp)
      thus ?thesis by (rule operator_ok_cong [THEN iffD1, rotated 2]) (use t(3) Some in \<open>simp_all add: launched_def\<close>)
    qed
  qed
qed

lemma operator_reach_ok:
  assumes "kube_laws V kb" "status_laws vs kb" and "operator_reach impl qv am sel parse kb keep s"
  shows "operator_ok keep s"
  using assms(3)
proof (induction rule: operator_reach.induct)
  case (pass s req w x)
  show ?case by (rule ok_pass [OF pass.IH pass.hyps(3) Reconcile_runner [OF assms(1,2) pass.hyps(2)]])
next
  case (panicked s req w p traffic)
  show ?case using panicked.IH operator_ok_cong [of s "s\<lparr>op_world := w, op_traffic := traffic\<rparr>"] by simp
next
  case (job_ends s a k l calls)
  show ?case by (rule ok_finish [OF job_ends.IH job_ends.hyps(2)])
next
  case (outside s w)
  show ?case using outside.IH operator_ok_cong [of s "s\<lparr>op_world := w\<rparr>"] by simp
qed simp_all


section \<open>One backup of a cluster at a time\<close>

text \<open>C7: As long as a cluster keeps existing with backups enabled, its backups never overlap: in every state that
  passes, ends of jobs, restarts and outside changes lead to, at most one of its backups runs, and that
  one is the job which the runner holds for the cluster as unfinished, with its kind and parent, so no
  pass starts another.\<close>

theorem backups_never_overlap:
  assumes "kube_laws V kb" "status_laws vs kb" "operator_reach impl qv am sel parse kb keep s"
    and "k \<in> keep" "op_jobs s a = Some (k, l)"
  shows "(\<forall>a' l'. op_jobs s a' = Some (k, l') \<longrightarrow> a' = a \<and> l' = l) \<and>
    (\<exists>j. runner_jobs (op_backups s) k = Some j \<and> \<not> bj_done j \<and> bj_kind j = bl_kind l \<and> bj_parent j = bl_parent l)"
proof -
  note ok = operator_reach_ok [OF assms(1-3)]
  have at: "br_jobs (op_backups s) k = Some a" by (rule operator_okD(5) [OF ok assms(5,4)])
  have "a' = a \<and> l' = l" if "op_jobs s a' = Some (k, l')" for a' l'
    using operator_okD(5) [OF ok that assms(4)] at assms(5) that by auto
  moreover have "\<exists>j. runner_jobs (op_backups s) k = Some j \<and> \<not> bj_done j \<and> bj_kind j = bl_kind l \<and> bj_parent j = bl_parent l"
    using operator_okD(3) [OF ok assms(5)] at by (simp add: runner_jobs_def)
  ultimately show ?thesis by blast
qed


section \<open>Passes return\<close>

lemma Reconcile_returns:
  assumes laws: "kube_laws V kb" "status_laws vs kb" and sane: "runner_sane backups"
    and run: "Reconcile impl qv am sel parse kb req traffic backups w = (w', r)"
    and read: "kb_GetCluster kb req w = (w0, Inr c)" "kc_Autoscaling c = None"
  shows "\<exists>x. r = Inr x \<and> runner_sane (pr_backups x)"
proof -
  have st: "vs w0 (kc_Namespace c, kc_Name c) = Some (kc_Status c)"
    using status_get(1) [OF laws(2) read(1)] status_get(2,3) [OF laws(2) read(1) refl] by simp
  from run show ?thesis
  proof (cases rule: Reconcile_cases)
    case (listed c' w0' c1 w1 w2 w3 pods)
    have same: "c' = c" "w0' = w0" using listed(1) read(1) by simp_all
    have none: "kc_Autoscaling c1 = None"
      using pin_bootstrap_size_stored(2) [OF laws(2) listed(2) [unfolded same] st refl] read(2) by simp
    from listed(5) show ?thesis
    proof (cases rule: reconcile_cluster_cases)
      case (backup_panicked st t w4 sts p)
      thus ?thesis using reconcileBackup_total [OF laws(1) sane] by (metis Inl_Inr_False Pair_inject)
    next
      case (finished st t w4 sts w5 st2 b2 wake launch res)
      have "runner_sane b2" using reconcileBackup_total [OF laws(1) sane] finished(3) by (metis Pair_inject sum.inject(2))
      thus ?thesis using finished(5) by simp
    qed (use none sane in \<open>auto simp: reconcileAutoscaling_def\<close>)
  qed (use sane read(1) run in \<open>auto simp: Reconcile_def Let_def\<close>)
qed

text \<open>A pass that panics did so in the autoscaler, before it touched the runner.\<close>

lemma panics_in_autoscaler:
  assumes laws: "kube_laws V kb" and sane: "runner_sane backups"
    and run: "Reconcile impl qv am sel parse kb req traffic backups w = (w', Inl p)"
  shows "\<exists>c b m pl perr pods. reconcileAutoscaling impl am (kb_Metrics kb w') (kb_Now kb w') c b m pl perr pods traffic = Inl p"
  using run
proof (cases rule: Reconcile_cases)
  case (listed c w0 c1 w1 w2 w3 pods)
  from listed(5) show ?thesis
  proof (cases rule: reconcile_cluster_cases)
    case (panicked p')
    thus ?thesis by blast
  next
    case (backup_panicked st t w4 sts p)
    thus ?thesis using reconcileBackup_total [OF laws sane] by (metis Inl_Inr_False Pair_inject)
  qed simp_all
qed simp_all

text \<open>C16: However long the operator has run, a pass over a cluster without an autoscaler returns: whatever backups
  were started, ended, forgotten or lost in a restart before, and whatever the API server and the
  Kahuna servers answer, it does not panic, and the state after it is again such a state.\<close>

theorem operator_passes_return:
  assumes laws: "kube_laws V kb" "status_laws vs kb" and reach: "operator_reach impl qv am sel parse kb {} s"
    and read: "kb_GetCluster kb req (op_world s) = (w0, Inr c)" "kc_Autoscaling c = None"
  shows "\<exists>w x. Reconcile impl qv am sel parse kb req (op_traffic s) (op_backups s) (op_world s) = (w, Inr x) \<and>
    operator_reach impl qv am sel parse kb {} (after_pass req w x s)"
proof -
  obtain w r where run: "Reconcile impl qv am sel parse kb req (op_traffic s) (op_backups s) (op_world s) = (w, r)" by fastforce
  obtain x where "r = Inr x"
    using Reconcile_returns [OF laws operator_okD(1) [OF operator_reach_ok [OF laws reach]] run read] by blast
  thus ?thesis using run operator_reach.pass [OF reach, of req w x] by simp
qed


section \<open>From the end of a backup to the stored status\<close>

text \<open>What the stored status says of the backups, apart from the times, which are stored to the second. A
  status write that the server accepts stores these as they were sent.\<close>

definition backup_facts :: "BackupStatus \<Rightarrow> string \<times> string \<times> int32 \<times> string" where
  "backup_facts b = (bst_LastBackupID b, bst_LastBackupType b, bst_ConsecutiveFailures b, bst_LastFailureMessage b)"

definition backup_laws :: "'w kube \<Rightarrow> bool" where
  "backup_laws kb \<longleftrightarrow> (\<forall>c w c'. snd (kb_UpdateStatus kb c w) = Inr c' \<longrightarrow>
     map_option backup_facts (st_Backup (kc_Status c')) = map_option backup_facts (st_Backup (kc_Status c)))"

lemma mem_backup_laws: "backup_laws mem_kube"
  by (simp add: backup_laws_def split: option.split)

lemma status_keeps_backup:
  "observed_status sel c sts pods m = Inr st \<Longrightarrow> st_Backup st = st_Backup (kc_Status c)"
  "st_Backup (status_conditions am c known ready msg st) = st_Backup st"
  by (auto simp: observed_status_def status_conditions_def Let_def split: sum.splits option.splits prod.splits if_splits)

lemma reconcileStatus_stores:
  assumes laws: "status_laws vs kb" "backup_laws kb"
    and run: "reconcileStatus am sel kb c persisted sts pods m w = (w', Inr d)"
    and stored: "vs w (kc_Namespace c, kc_Name c) = Some persisted"
  shows "\<exists>st. vs w' (kc_Namespace c, kc_Name c) = Some st \<and>
    map_option backup_facts (st_Backup st) = map_option backup_facts (st_Backup (kc_Status c))"
proof -
  note K = status_objects_keep [OF laws(1)]
  obtain w1 r1 where g: "ka_Get (kb_StatefulSet kb) (stsKey c) w = (w1, r1)" by fastforce
  define s0 where "s0 = (case r1 of Inr x \<Rightarrow> x | Inl _ \<Rightarrow> sts)"
  obtain s1 where o: "observed_status sel c s0 pods m = Inr s1"
    using run g by (cases "observed_status sel c s0 pods m") (simp_all add: reconcileStatus_def s0_def)
  obtain w2 ok msg where cr: "certificateReady kb c w1 = (w2, ok, msg)" by (metis prod_cases3)
  have "vs w1 = vs w" using K(6) g keepsD by metis
  hence v2: "vs w2 = vs w" using certificateReady_frame [OF K(4) cr] by simp
  define u where "u = status_conditions am c (m \<noteq> None) ok msg
    (s1\<lparr>st_Phase := Some (phase_of s1 (desiredReplicas c) (m \<noteq> None) (is_progressing c s1 (desiredReplicas c) (m \<noteq> None)))\<rparr>)"
  have ub: "st_Backup u = st_Backup (kc_Status c)" using status_keeps_backup(1) [OF o] by (simp add: u_def status_keeps_backup(2))
  note R = run [unfolded reconcileStatus_def Let_def g prod.case, folded s0_def, unfolded o sum.case cr prod.case, folded u_def]
  show ?thesis
  proof (cases "equalStatus persisted u")
    case True
    hence "w' = w2" "st_Backup persisted = st_Backup u" using R strip_times_fields(2) by auto
    thus ?thesis using v2 stored ub by simp
  next
    case False
    obtain r3 where up: "kb_UpdateStatus kb (c\<lparr>kc_Status := u\<rparr>) w2 = (w', r3)"
      using R False by (auto split: prod.splits sum.splits)
    obtain c' where c': "r3 = Inr c'" using R False up by (cases r3) auto
    have "map_option backup_facts (st_Backup (kc_Status c')) = map_option backup_facts (st_Backup u)"
      using laws(2) [unfolded backup_laws_def, rule_format, of "c\<lparr>kc_Status := u\<rparr>" w2 c'] up c' by simp
    thus ?thesis using status_update(2) [OF laws(1) up c'] ub by simp
  qed
qed

lemma Reconcile_stores_backup:
  assumes laws: "kube_laws V kb" "status_laws vs kb" "backup_laws kb"
    and run: "Reconcile impl qv am sel parse kb req traffic backups w = (w', Inr x)" "pr_result x = Inr d"
    and enabled: "\<not> forgets kb req w"
  shows "\<exists>c now b st. cluster_key c = req \<and> collected c backups now = Inr b \<and> vs w' req = Some st \<and>
    map_option backup_facts (st_Backup st) = Some (backup_facts b)"
  using run(1)
proof (cases rule: Reconcile_cases)
  case (unread err)
  thus ?thesis using run enabled by (auto simp: Reconcile_def forgets_def Let_def split: if_splits)
next
  case (listed c w0 c1 w1 w2 w3 pods)
  note K = status_objects_keep [OF laws(2)]
  have st: "vs w0 (kc_Namespace c, kc_Name c) = Some (kc_Status c)" "(kc_Namespace c, kc_Name c) = req"
    using status_get(1) [OF laws(2) listed(1)] status_get(2,3) [OF laws(2) listed(1) refl] by simp_all
  note pin = pin_bootstrap_size_stored(2) [OF laws(2) listed(2) st(1) refl]
  obtain spec where spec: "sp_Backup (kc_Spec c1) = Some spec"
    using enabled listed(1) pin by (auto simp: forgets_def)
  from listed(5) show ?thesis
  proof (cases rule: reconcile_cluster_cases)
    case (finished st' t w4 sts w5 st2 b2 wake launch res)
    obtain after where res: "res = Inr after" using finished(5) run(2) by (cases res) auto
    have "vs w5 = vs w1"
      using reconcile_objects_frame [OF K(1) listed(3)] listPods_frame [OF K(3) listed(4)]
        reconcileStatefulSet_frame [OF K(3,2) finished(2)] reconcileBackup_frame [OF K(5,3) finished(3)] by simp
    hence "vs w5 req = Some (kc_Status c1)" using pin st(2) by simp
    then obtain u where u: "vs w' req = Some u" "map_option backup_facts (st_Backup u) = map_option backup_facts (st_Backup st2)"
      using reconcileStatus_stores [OF laws(2,3) finished(4) [unfolded res]] pin st(2) by auto
    have sp: "sp_Backup (kc_Spec (c1\<lparr>kc_Status := st'\<rparr>)) = Some spec" using spec by simp
    obtain b where "collected (c1\<lparr>kc_Status := st'\<rparr>) backups (kb_Now kb w4) = Inr b" "st_Backup st2 = Some b"
      using reconcileBackup_looks(2) [OF laws(1) sp finished(3)] by blast
    moreover have "cluster_key (c1\<lparr>kc_Status := st'\<rparr>) = req" using pin st(2) by (simp add: cluster_key_def)
    ultimately show ?thesis using u by (metis option.map(2))
  qed (use run(2) in auto)
qed (use run(2) in auto)



section \<open>Passes on the server in memory\<close>

text \<open>The steps of a pass on the server in memory, for a cluster with its own keystore and, if it has backups, its own claim.\<close>

lemma mem_objects:
  assumes "tls_CertManager (kc_TLS c) = None" "\<forall>b. sp_Backup (kc_Spec c) = Some b \<longrightarrow> bvs_Claim (bks_Volume b) = None"
  shows "\<exists>w1. reconcile_objects impl qv mem_kube c w = (w1, None) \<and> mw_StatefulSet w1 = mw_StatefulSet w \<and>
    mw_Pods w1 = mw_Pods w \<and> mw_Cluster w1 = mw_Cluster w \<and> mw_Membership w1 = mw_Membership w \<and>
    mw_Placement w1 = mw_Placement w \<and> mw_Leave w1 = mw_Leave w \<and> mw_PVC w1 = mw_PVC w \<and> mw_Now w1 = mw_Now w"
proof -
  let ?rest = "\<lambda>w. (mw_StatefulSet w, mw_Pods w, mw_Cluster w, mw_Membership w, mw_Placement w, mw_Leave w, mw_PVC w, mw_Now w)"
  let ?before = "and_then (and_then (and_then (and_then
       (wrapped ''reconciling keystore password'' (reconcileKeystorePassword mem_kube c w))
       (\<lambda>w. wrapped ''reconciling certificate'' (reconcileCertificate mem_kube c w)))
       (\<lambda>w. wrapped ''reconciling services'' (reconcileServices mem_kube c w)))
       (\<lambda>w. wrapped ''reconciling config map'' (reconcileConfigMap impl qv mem_kube c (st_BootstrapSize (kc_Status c)) w)))
       (\<lambda>w. wrapped ''reconciling pod disruption budget'' (reconcilePDB mem_kube c w))"
  have "\<exists>w0. ?before = (w0, None) \<and> ?rest w0 = ?rest w"
    by (simp add: and_then_def wrapped_def failed_def reconcileKeystorePassword_def reconcileCertificate_def
        reconcileServices_def applyService_def reconcileConfigMap_def reconcilePDB_def mem_resource_def
        own_meta_def assms(1) Let_def IgnoreNotFound_def IsNotFound_def split: option.split)
  then obtain w0 where w0: "?before = (w0, None)" "?rest w0 = ?rest w" by blast
  have "\<exists>w1. reconcileBackupResources mem_kube c w0 = (w1, None) \<and> ?rest w1 = ?rest w0"
    using assms(2) by (cases "sp_Backup (kc_Spec c)")
      (auto simp: reconcileBackupResources_def reconcileBackupKey_def mem_resource_def IsNotFound_def IsAlreadyExists_def Let_def split: option.split)
  then obtain w1 where "reconcileBackupResources mem_kube c w0 = (w1, None)" "?rest w1 = ?rest w" using w0(2) by auto
  thus ?thesis unfolding reconcile_objects_def w0(1) by (simp add: and_then_def wrapped_def)
qed

lemma mem_status_step:
  assumes "mw_Cluster w (kc_Namespace c, kc_Name c) = Some c0"
  shows "\<exists>w' d. reconcileStatus am (\<lambda>_. Inr t) mem_kube c p s pods m w = (w', Inr d)"
proof -
  have cl: "mw_Cluster w2 = mw_Cluster w1" if "certificateReady mem_kube c w1 = (w2, x)" for w1 w2 x
    by (rule certificateReady_frame [OF _ that]) (simp add: keeps_def mem_resource_def)
  show ?thesis using cl assms
    by (auto simp: reconcileStatus_def mem_resource_def observed_status_def Let_def split: prod.splits option.splits)
qed

lemma readMembership_all_answer:
  assumes "membership_candidates pods \<noteq> []"
  shows "readMembership (\<lambda>_. Inr m) c pods = Inr m"
proof -
  have "SortStableFunc candidate_cmp (membership_candidates pods) \<noteq> []"
    using assms set_SortStableFunc [of candidate_cmp "membership_candidates pods"] by (metis set_empty)
  thus ?thesis by (cases "SortStableFunc candidate_cmp (membership_candidates pods)") (simp_all add: readMembership_def)
qed

lemma mem_sts_step:
  assumes "mw_StatefulSet w (stsKey c) = Some s0"
    "held_plan mem_kube c pods (spec_size s0) (buildPlan c (spec_size s0) b m pl perr) w = (w, p)"
  shows "\<exists>w2 y. reconcileStatefulSet impl qv mem_kube c b m pl perr pods w = (w2, Inr y) \<and> spec_size y = pl_Replicas p \<and>
    mw_StatefulSet w2 (stsKey c) = Some y \<and> mw_Cluster w2 = mw_Cluster w \<and> mw_PVC w2 = mw_PVC w \<and> mw_Now w2 = mw_Now w"
proof -
  let ?d = "desiredStatefulSet impl qv c (pl_Partition p)
      \<lparr>sts_Spec := (sts_Spec (desiredStatefulSet impl qv c (pl_Partition p)))\<lparr>ss_Replicas := Some (pl_Replicas p)\<rparr>\<rparr>"
  have key: "meta_key (sts_Meta (named_sts ?d)) = stsKey c"
    using desired_key [of impl qv c "pl_Partition p"] by (simp add: named_sts_def name_only_def meta_key_def)
  obtain y where y: "update_sts mem_kube c ?d s0 = Inr y" by (simp add: update_sts_def own_meta_def)
  have "spec_size y = pl_Replicas p" by (rule spec_size_planned(1) [OF update_sts_Inr [OF y]])
  thus ?thesis using assms key y by (simp add: reconcileStatefulSet_def mem_resource_def Let_def)
qed


text \<open>Three settled nodes whose backups, if enabled, go to a bound claim, with the first one due.\<close>

definition archived :: "BackupSpec option \<Rightarrow> KahunaClusterStatus \<Rightarrow> KahunaCluster" where
  "archived backup st = example_cluster\<lparr>kc_Spec := example_spec\<lparr>sp_Backup := backup\<rparr>, kc_Status := st\<rparr>"

definition archived_status :: KahunaClusterStatus where
  "archived_status = KahunaClusterStatus_zero\<lparr>st_Bootstrapped := True, st_BootstrapSize := 3\<rparr>"

abbreviation archive_key :: cluster_key where
  "archive_key \<equiv> (''prod'', ''db'')"

abbreviation archive_pods :: "Pod list" where
  "archive_pods \<equiv> settled_pods example_impl (\<lambda>_. 0) example_backed [0, 1, 2]"

definition archive_world :: "BackupSpec option \<Rightarrow> mem_world" where
  "archive_world backup = backed_world\<lparr>
     mw_StatefulSet := [archive_key \<mapsto> (let s = desiredStatefulSet example_impl (\<lambda>_. 0) example_backed 0 in
       s\<lparr>sts_Spec := (sts_Spec s)\<lparr>ss_Replicas := Some 3\<rparr>\<rparr>)],
     mw_Cluster := [archive_key \<mapsto> archived backup archived_status], mw_Pods := archive_pods,
     mw_Membership := (\<lambda>_. Inr (example_roster example_backed (range_int 3))),
     mw_Placement := (\<lambda>_. Inl ErrPlacementUnsupported)\<rparr>"

lemma archived_fields [simp]:
  "kc_Name (archived b st) = ''db''" "kc_Namespace (archived b st) = ''prod''" "kc_Status (archived b st) = st"
  "sp_Backup (kc_Spec (archived b st)) = b" "sp_TLS (kc_Spec (archived b st)) = example_tls"
  "kc_Autoscaling (archived b st) = None" "desiredReplicas (archived b st) = 3"
  "(archived b st)\<lparr>kc_Status := st'\<rparr> = archived b st'" "sp_Replication (kc_Spec (archived b st)) = None"
  "sp_Image (kc_Spec (archived b st)) = ''kahuna:1.12.5''" "cluster_key (archived b st) = archive_key"
  "stsKey (archived b st) = archive_key" "backupClaimName (archived (Some example_backup_spec) st) example_backup_spec = ''archive''"
  by (simp_all add: archived_def example_cluster_def desiredReplicas_def specReplicas_def cluster_key_def stsKey_cluster_key
      backupClaimName_def example_backup_spec_def)

lemma archived_backed:
  "archived (Some example_backup_spec) st = example_backed\<lparr>kc_Status := st\<rparr>"
  by (simp add: archived_def example_backed_def example_settled_def)

lemma archived_names:
  "podName (archived b st) = podName example_backed" "raftEndpoint (archived b st) = raftEndpoint example_backed"
  by (simp_all add: podName_def stsName_def raftEndpoint_def podFQDN_def peerDomain_def peerServiceName_def ports_def
      archived_def example_backed_def example_settled_def example_cluster_def fun_eq_iff)

lemma archived_roster: "rosterMatches (archived b st) (Some (example_roster example_backed (range_int 3))) 3"
  using example_roster_matches [of 3 example_backed] unfolding rosterMatches_def archived_names by simp

lemma archived_script: "entrypointScript impl qv (archived (Some example_backup_spec) st) = entrypointScript impl qv example_backed"
proof -
  have "(kc_Spec example_backed)\<lparr>sp_Replicas := Some 3, sp_Autoscaling := None\<rparr> = kc_Spec example_backed"
    by (simp add: example_backed_def example_spec_def KahunaClusterSpec.make_def)
  hence "example_backed\<lparr>kc_Status := st, kc_Spec := (kc_Spec example_backed)\<lparr>sp_Replicas := Some 3, sp_Autoscaling := None\<rparr>\<rparr> =
      archived (Some example_backup_spec) st"
    by (simp add: archived_def example_backed_def example_settled_def example_cluster_def)
  thus ?thesis using entrypointScript_resize [where c = example_backed and st = st and n = "Some 3" and a = None] by metis
qed

lemma archive_unblocked:
  assumes "st_Bootstrapped st"
  shows "backupBlocked example_impl (\<lambda>_. 0) (archived (Some example_backup_spec) st)
     (Some (example_roster example_backed (range_int 3))) archive_pods = []"
proof -
  have "list_all (pod_current (archived (Some example_backup_spec) st) (configHash (entrypointScript example_impl (\<lambda>_. 0) example_backed))) archive_pods"
    using settled_pods_current [of example_backed example_impl "\<lambda>_. 0" "[0, 1, 2]"] by (simp add: pod_current_def list_all_iff)
  thus ?thesis
    using backupBlocked_iff [of archive_pods example_impl "\<lambda>_. 0" "archived (Some example_backup_spec) st"] assms archived_roster
      settled_pods_members by (simp add: archived_script)
qed

abbreviation archive_pass :: "BackupSpec option \<Rightarrow> trafficSampler \<Rightarrow> cluster_key backupRunner \<Rightarrow> mem_world \<times> (panic + pass_result)" where
  "archive_pass b traffic runner \<equiv> Reconcile example_impl (\<lambda>_. 0) apimeta_simple (\<lambda>_. Inr ''app=kahuna'') (\<lambda>_. Inr hourly) mem_kube
     archive_key traffic runner (archive_world b)"

lemma archive_world_fields [simp]:
  "mw_Cluster (archive_world b) = [archive_key \<mapsto> archived b archived_status]" "mw_Pods (archive_world b) = archive_pods"
  "mw_Now (archive_world b) = 12 * hour" "mw_PVC (archive_world b) = [(''prod'', ''archive'') \<mapsto> example_claim]"
  "mw_Membership (archive_world b) u = Inr (example_roster example_backed (range_int 3))"
  "mw_Placement (archive_world b) u = Inl ErrPlacementUnsupported"
  by (simp_all add: archive_world_def backed_world_def)

lemma archive_sts: "\<exists>s0. mw_StatefulSet (archive_world b) archive_key = Some s0 \<and> spec_size s0 = 3"
  by (simp add: archive_world_def spec_size_def Let_def)

lemma archive_reads:
  assumes "mw_Membership w = mw_Membership (archive_world b)" "mw_Placement w = mw_Placement (archive_world b)"
  shows "known_membership mem_kube c archive_pods w = Some (example_roster example_backed (range_int 3))"
    "known_placement mem_kube c archive_pods w = (None, None)"
proof -
  have "membership_candidates archive_pods \<noteq> []" by (simp add: membership_candidates_def settled_pods_def example_pod_def)
  moreover have "mw_Membership (archive_world b) = (\<lambda>_. Inr (example_roster example_backed (range_int 3)))" by (simp add: archive_world_def)
  ultimately show "known_membership mem_kube c archive_pods w = Some (example_roster example_backed (range_int 3))"
    by (simp add: known_membership_def assms(1) readMembership_all_answer)
  have "mw_Placement (archive_world b) = (\<lambda>_. Inl ErrPlacementUnsupported)" by (simp add: archive_world_def)
  thus "known_placement mem_kube c archive_pods w = (None, None)"
    by (simp add: known_placement_def readPlacement_def assms(2) settled_pods_def example_pod_def podIsReady_def)
qed

lemma archive_starts:
  assumes "mw_PVC w = mw_PVC (archive_world b)" "mw_Now w = 12 * hour" "runner_jobs r archive_key = None"
    and st: "st_Bootstrapped st" "st_Backup st = None"
  shows "\<exists>status r' l. reconcileBackup example_impl (\<lambda>_. 0) apimeta_simple (\<lambda>_. Inr hourly) mem_kube (archived (Some example_backup_spec) st)
    (Some (example_roster example_backed (range_int 3))) archive_pods r w = (w, Inr (status, r', backupPollInterval, Some l)) \<and> bl_targets l \<noteq> []"
proof -
  let ?c = "archived (Some example_backup_spec) st"
  have g: "ka_Get (kb_PVC mem_kube) (''prod'', ''archive'') w = (w, Inr example_claim)"
    by (simp add: mem_resource_def assms(1))
  have b: "pvc_Phase example_claim = ''Bound''" by (simp add: example_claim_def)
  obtain volume where v: "readBackupVolume mem_kube ?c example_backup_spec w = (w, volume)" "bv_bound volume"
    unfolding readBackupVolume_def Let_def archived_fields g by (simp add: b)
  have idle: "still_running ?c r = None" "collected ?c r t = Inr BackupStatus_zero" for t
    using assms(3) st(2) by (simp_all add: still_running_def collected_def prior_backup_def)
  have "backup_targets ?c archive_pods \<noteq> []"
    by (simp add: backup_targets_def settled_pods_def example_pod_def ordinalOf_podName)
  moreover have "backupUnsupported ?c = []" by (simp add: backupUnsupported_def)
  moreover have "bd_kind (decideBackup \<lparr>bin_full = hourly, bin_incremental = None, bin_status = BackupStatus_zero, bin_now = kb_Now mem_kube w\<rparr>) = backupFull"
    using example_backed_first by (simp add: assms(2) backed_world_def)
  ultimately show ?thesis
    using reconcileBackup_starts [where parse = "\<lambda>_. Inr hourly", OF mem_kube_laws archived_fields(4) v refl
        example_backed_spec(1) idle _ example_backed_spec(3) archive_unblocked [OF st(1)], of backupFull] by simp metis
qed

lemma archive_pass_ends:
  assumes sane: "runner_sane r" and b: "b = None \<or> b = Some example_backup_spec"
  shows "\<exists>w' x d. archive_pass b traffic r = (w', Inr x) \<and> pr_result x = Inr d \<and>
    (b = Some example_backup_spec \<and> runner_jobs r archive_key = None \<longrightarrow> (\<exists>l. pr_launch x = Some l \<and> bl_targets l \<noteq> []))"
proof -
  let ?c = "archived b archived_status" and ?m = "Some (example_roster example_backed (range_int 3))"
  have key: "kb_GetCluster mem_kube archive_key (archive_world b) = (archive_world b, Inr ?c)"
    by (simp add: archived_def example_cluster_def)
  have pin: "pin_bootstrap_size mem_kube ?c (archive_world b) = (archive_world b, Inr ?c)"
    by (simp add: pin_bootstrap_size_def archived_status_def)
  obtain w1 where w1: "reconcile_objects example_impl (\<lambda>_. 0) mem_kube ?c (archive_world b) = (w1, None)"
    "mw_StatefulSet w1 = mw_StatefulSet (archive_world b)" "mw_Pods w1 = archive_pods" "mw_Cluster w1 = mw_Cluster (archive_world b)"
    "mw_Membership w1 = mw_Membership (archive_world b)" "mw_Placement w1 = mw_Placement (archive_world b)"
    "mw_PVC w1 = mw_PVC (archive_world b)" "mw_Now w1 = 12 * hour"
    using mem_objects [of ?c example_impl "\<lambda>_. 0" "archive_world b"] b by (auto simp: example_tls_def example_backup_spec_def)
  have list: "listPods mem_kube ?c w1 = (w1, Inr archive_pods)" by (simp add: listPods_def w1(3))
  let ?st = "archived_status\<lparr>st_Autoscaling := None,
     st_Conditions := am_Remove apimeta_simple (st_Conditions archived_status) ConditionAutoscalingLimited\<rparr>"
  note reads = archive_reads [OF w1(5,6)]
  have auto: "reconcileAutoscaling example_impl apimeta_simple q now ?c True ?m None None archive_pods traffic =
      Inr (?st, traffic_forget traffic archive_key)" for q now
    by (simp add: reconcileAutoscaling_def)
  have boot: "st_Bootstrapped (kc_Status ?c)" "st_Bootstrapped ?st" "st_Backup ?st = None"
    by (simp_all add: archived_status_def KahunaClusterStatus_zero_def)
  obtain s0 where s0: "mw_StatefulSet w1 (stsKey (archived b ?st)) = Some s0" "spec_size s0 = 3"
    using archive_sts [of b] w1(2) by auto
  have "held_plan mem_kube (archived b ?st) archive_pods (spec_size s0) (buildPlan (archived b ?st) (spec_size s0) True ?m None None) w1 =
      (w1, \<lparr>pl_Replicas = 3, pl_Partition = 0, pl_Reason = []\<rparr>)"
    by (simp add: s0(2) held_plan_def buildPlan_def archived_roster placementSettled_def Let_def)
  then obtain w2 y where sts: "reconcileStatefulSet example_impl (\<lambda>_. 0) mem_kube (archived b ?st) True ?m None None archive_pods w1 = (w2, Inr y)"
    "mw_Cluster w2 = mw_Cluster w1" "mw_PVC w2 = mw_PVC w1" "mw_Now w2 = mw_Now w1"
    using mem_sts_step [OF s0(1), of archive_pods True ?m None None] by blast
  obtain w3 st2 r2 wake launch where backup: "reconcileBackup example_impl (\<lambda>_. 0) apimeta_simple (\<lambda>_. Inr hourly) mem_kube (archived b ?st) ?m
      archive_pods r w2 = (w3, Inr (st2, r2, wake, launch))"
    using reconcileBackup_total [OF mem_kube_laws sane] by blast
  have "mw_Cluster w3 = mw_Cluster w2"
    by (rule reconcileBackup_frame [OF _ _ backup]) (simp_all add: keeps_def reads_keep_def mem_resource_def split: option.split)
  then obtain w4 d where status: "reconcileStatus apimeta_simple (\<lambda>_. Inr ''app=kahuna'') mem_kube (archived b st2) archived_status y
      archive_pods ?m w3 = (w4, Inr d)"
    using mem_status_step [of w3 "archived b st2" ?c apimeta_simple "''app=kahuna''"] sts(2) w1(4) by fastforce
  have "archive_pass b traffic r = (w4, Inr \<lparr>pr_traffic = traffic_forget traffic archive_key, pr_backups = r2,
      pr_launch = launch, pr_result = Inr (sooner d wake)\<rparr>)"
    unfolding Reconcile_def Let_def key prod.case sum.case pin w1(1) option.case list reconcile_cluster_def reads
    using boot auto sts(1) backup status by simp
  moreover have "\<exists>l. launch = Some l \<and> bl_targets l \<noteq> []" if "b = Some example_backup_spec" "runner_jobs r archive_key = None"
    using archive_starts [of w2 b r ?st] boot(2,3) backup that sts(3,4) w1(7,8) by auto
  ultimately show ?thesis by auto
qed

abbreviation archive_reach :: "cluster_key set \<Rightarrow> mem_world operator_state \<Rightarrow> bool" where
  "archive_reach \<equiv> operator_reach example_impl (\<lambda>_. 0) apimeta_simple (\<lambda>_. Inr ''app=kahuna'') (\<lambda>_. Inr hourly) mem_kube"

lemma archive_forgets [simp]: "forgets mem_kube archive_key (archive_world b) \<longleftrightarrow> b = None"
  by (simp add: forgets_def archived_def)

lemma archive_launches:
  assumes reach: "archive_reach keep s" and idle: "runner_jobs (op_backups s) archive_key = None"
  shows "\<exists>s' l. archive_reach keep s' \<and> op_jobs s' = (op_jobs s)(br_next (op_backups s) \<mapsto> (archive_key, l)) \<and>
    br_next (op_backups s') = br_next (op_backups s) + 1 \<and> bl_targets l \<noteq> []"
proof -
  let ?s = "s\<lparr>op_world := archive_world (Some example_backup_spec)\<rparr>"
  have r: "archive_reach keep ?s" by (rule operator_reach.outside [OF reach])
  note ok = operator_reach_ok [OF mem_kube_laws mem_status_laws r]
  obtain w x d l where run: "archive_pass (Some example_backup_spec) (op_traffic s) (op_backups s) = (w, Inr x)" "pr_result x = Inr d"
      "pr_launch x = Some l" "bl_targets l \<noteq> []"
    using archive_pass_ends [OF operator_okD(1) [OF ok], of "Some example_backup_spec" "op_traffic s"] idle by auto
  have "runner_looked archive_key (op_backups s) (pr_backups x) (Some l)"
    using Reconcile_runner [OF mem_kube_laws mem_status_laws run(1)] run(2,3) by (simp add: runner_passed_def)
  moreover have "fst (runner_poll archive_key (op_backups s)) = op_backups s" using idle by (simp add: runner_poll_cases)
  ultimately have "bl_address l = br_next (op_backups s)" "br_next (pr_backups x) = br_next (op_backups s) + 1"
    by (auto simp: runner_looked_def runner_start_def Let_def)
  moreover have "archive_reach keep (after_pass archive_key w x ?s)"
    by (rule operator_reach.pass [OF r]) (use run in simp_all)
  ultimately show ?thesis using run(3,4) by (intro exI [of _ "after_pass archive_key w x ?s"] exI [of _ l]) (simp add: launched_def)
qed

lemma archive_first: "\<exists>s l. archive_reach keep s \<and> op_jobs s = [0 \<mapsto> (archive_key, l)] \<and> br_next (op_backups s) = 1 \<and> bl_targets l \<noteq> []"
  using archive_launches [OF operator_reach.boot [where w = "archive_world None"]] by (auto simp: runner_jobs_def runner_empty_def)

theorem backups_never_overlap_witness:
  "\<exists>s l. archive_reach {archive_key} s \<and> op_jobs s 0 = Some (archive_key, l) \<and>
     (\<exists>j. runner_jobs (op_backups s) archive_key = Some j \<and> \<not> bj_done j \<and> bj_kind j = bl_kind l \<and> bj_parent j = bl_parent l)"
proof -
  obtain s l where s: "archive_reach {archive_key} s" "op_jobs s = [0 \<mapsto> (archive_key, l)]" using archive_first by blast
  have "\<exists>j. runner_jobs (op_backups s) archive_key = Some j \<and> \<not> bj_done j \<and> bj_kind j = bl_kind l \<and> bj_parent j = bl_parent l"
    using backups_never_overlap [OF mem_kube_laws mem_status_laws s(1), of archive_key 0 l] s(2) by simp
  thus ?thesis using s by auto
qed

theorem operator_passes_return_witness:
  "\<exists>w x. archive_pass None Map.empty runner_empty = (w, Inr x) \<and> archive_reach {} (after_pass archive_key w x (operator_boot (archive_world None)))"
  using operator_passes_return [OF mem_kube_laws mem_status_laws operator_reach.boot, of archive_key "archive_world None"]
  by (simp add: archived_def)

text \<open>The first node that is asked takes the backup.\<close>

definition taken_calls :: backupCalls where
  "taken_calls = \<lparr>bc_full = (\<lambda>_. Inr example_info), bc_incremental = (\<lambda>_ _. Inr example_info), bc_expired = (\<lambda>_. False)\<rparr>"

lemma taken_result: "bl_targets l \<noteq> [] \<Longrightarrow> job_result taken_calls l = Inr example_info"
  by (cases "bl_targets l") (simp_all add: job_result_def runBackup_def taken_calls_def)


text \<open>C38: Without that, backups do overlap: the runner is documented to run one backup per cluster at most, but in a run
  where backups are disabled while one of them is running and are enabled again, the operator reaches a
  state with two backups of the same cluster running.\<close>

theorem forgotten_backup_overlaps:
  "\<exists>s l l'. archive_reach {} s \<and> op_jobs s 0 = Some (archive_key, l) \<and> op_jobs s 1 = Some (archive_key, l')"
proof -
  obtain s l where s: "archive_reach {} s" "op_jobs s = [0 \<mapsto> (archive_key, l)]" "br_next (op_backups s) = 1"
    using archive_first by blast
  let ?s = "s\<lparr>op_world := archive_world None\<rparr>"
  have r: "archive_reach {} ?s" by (rule operator_reach.outside [OF s(1)])
  note ok = operator_reach_ok [OF mem_kube_laws mem_status_laws r]
  obtain w x d where run: "archive_pass None (op_traffic s) (op_backups s) = (w, Inr x)" "pr_result x = Inr d"
    using archive_pass_ends [OF operator_okD(1) [OF ok], of None "op_traffic s"] by auto
  have forgot: "pr_backups x = runner_forget archive_key (op_backups s)" "pr_launch x = None"
    using Reconcile_runner [OF mem_kube_laws mem_status_laws run(1)] run(2) by (simp_all add: runner_passed_def)
  let ?t = "after_pass archive_key w x ?s"
  have "archive_reach {} ?t" by (rule operator_reach.pass [OF r]) (use run in simp_all)
  moreover have "runner_jobs (op_backups ?t) archive_key = None" by (simp add: forgot runner_forget_def runner_jobs_def)
  ultimately obtain u l' where "archive_reach {} u" "op_jobs u = (op_jobs ?t)(br_next (op_backups ?t) \<mapsto> (archive_key, l'))"
    using archive_launches by blast
  thus ?thesis using s(2,3) forgot by (intro exI [of _ u] exI [of _ l] exI [of _ l']) (simp add: launched_def runner_forget_def)
qed

end
