(* ===== verification/Isolation.thy ===== *)
theory Isolation
  imports Operator
begin

text \<open>
  Passes over different clusters, which run in parallel
  (\<open>maxConcurrentReconciles\<close> of \<open>src/internal/controller/kahunacluster_controller.go\<close>): what a pass
  leaves alone of another cluster, and when two clusters would own the same object.
\<close>


section \<open>What a pass leaves alone\<close>

lemma pin_touches:
  assumes laws: "status_laws vs kb" and run: "pin_bootstrap_size kb c w = (w', r)" and other: "k \<noteq> (kc_Namespace c, kc_Name c)"
  shows "vs w' k = vs w k"
proof -
  let ?c = "c\<lparr>kc_Status := (kc_Status c)\<lparr>st_BootstrapSize := desiredReplicas c\<rparr>\<rparr>"
  obtain w1 r1 where u: "kb_UpdateStatus kb ?c w = (w1, r1)" by fastforce
  hence "w' = w \<or> w' = w1" using run by (auto simp: pin_bootstrap_size_def split: if_splits sum.splits)
  thus ?thesis using status_update(1) [OF laws u] other by auto
qed

lemma reconcileStatus_touches:
  assumes laws: "status_laws vs kb" and run: "reconcileStatus am sel kb c p sts pods m w = (w', r)" and other: "k \<noteq> (kc_Namespace c, kc_Name c)"
  shows "vs w' k = vs w k"
proof (cases "vs w' = vs w")
  case False
  note K = status_objects_keep [OF laws]
  then obtain u w1 where u: "vs w1 = vs w" "fst (kb_UpdateStatus kb (c\<lparr>kc_Status := u\<rparr>) w1) = w'"
    using reconcileStatus_write [OF K(6,4) run] False by blast
  obtain r1 where "kb_UpdateStatus kb (c\<lparr>kc_Status := u\<rparr>) w1 = (w', r1)" using u(2) by (metis prod.collapse)
  thus ?thesis using status_update(1) [OF laws, of "c\<lparr>kc_Status := u\<rparr>" w1 w' r1] u(1) other by auto
qed simp

lemma reconcileStatefulSet_touches:
  assumes "kube_laws V kb" "reconcileStatefulSet impl qv kb c b m pl perr pods w = (w', r)" "k \<noteq> stsKey c"
  shows "vw_StatefulSet V w' k = vw_StatefulSet V w k"
  using reconcileStatefulSet_effect [OF assms(1,2)] assms(3)
  by (auto simp: sts_created_def sts_planned_def split: sum.splits)

lemma reconcileAutoscaling_touches:
  assumes "reconcileAutoscaling impl am query now c b m pl perr pods traffic = Inr (st, t)" "k \<noteq> cluster_key c"
  shows "t k = traffic k"
proof -
  have "t' k = traffic k" if "measure_traffic query c ps traffic = (t', x)" for ps t' x
    using that assms(2) by (auto simp: measure_traffic_def Let_def split: if_splits sum.splits)
  thus ?thesis using assms
    by (auto simp: reconcileAutoscaling_def traffic_forget_def Let_def split: option.splits sum.splits prod.splits if_splits)
qed

lemma reconcile_cluster_touches:
  assumes laws: "kube_laws V kb" "status_laws vs kb"
    and run: "reconcile_cluster impl qv am sel parse kb c b pods traffic backups w = (w', r)"
    and other: "k \<noteq> (kc_Namespace c, kc_Name c)"
  shows "vs w' k = vs w k" "vw_StatefulSet V w' k = vw_StatefulSet V w k" "r = Inr x \<Longrightarrow> pr_traffic x k = traffic k"
proof -
  note K = status_objects_keep [OF laws(2)]
  have v: "calls_keep (vw_StatefulSet V) kb" "reads_keep (vw_StatefulSet V) kb" "\<forall>k. keeps (vw_StatefulSet V) (ka_Get (kb_PVC kb) k)"
    "\<forall>k. keeps (vw_StatefulSet V) (ka_Get (kb_Secret kb) k)" "\<forall>k. keeps (vw_StatefulSet V) (ka_Get (kb_StatefulSet kb) k)"
    using laws(1) resource_gets(2) [OF kube_sts_laws [OF laws(1)]] by (simp_all add: kube_laws_def calls_keep_def resource_gets(1))
  have upd: "vw_StatefulSet V (fst (kb_UpdateStatus kb y w1)) = vw_StatefulSet V w1" for y w1
    using v(1) by (simp add: calls_keep_def keeps_def)
  have st: "vw_StatefulSet V w2 = vw_StatefulSet V w1" if "reconcileStatus am sel kb c' p s pods m w1 = (w2, y)" for c' p s m w1 w2 y
    using reconcileStatus_write [OF v(5,4) that] upd by metis
  have key: "k \<noteq> stsKey (c\<lparr>kc_Status := s\<rparr>)" "k \<noteq> cluster_key c" for s
    using other by (simp_all add: stsKey_cluster_key cluster_key_def)
  note sts = reconcileStatefulSet_frame [OF K(3,2)] reconcileStatefulSet_touches [OF laws(1) _ key(1)]
  note bk = reconcileBackup_frame [OF K(5,3)] reconcileBackup_frame [OF v(3,2)]
  note auto = reconcileAutoscaling_touches [OF _ key(2)]
  from run have all: "vs w' k = vs w k \<and> vw_StatefulSet V w' k = vw_StatefulSet V w k \<and> (\<forall>x. r = Inr x \<longrightarrow> pr_traffic x k = traffic k)"
  proof (cases rule: reconcile_cluster_cases)
    case (sts_failed st t err)
    thus ?thesis using sts(1) [OF sts_failed(2)] sts(2) [OF sts_failed(2)] auto [OF sts_failed(1)] by simp
  next
    case (backup_panicked s t w1 y p)
    thus ?thesis using sts(1) [OF backup_panicked(2)] sts(2) [OF backup_panicked(2)] bk [OF backup_panicked(3)] by simp
  next
    case (finished s t w1 y w2 st2 b2 wake launch res)
    have "vs w' k = vs w2 k" by (rule reconcileStatus_touches [OF laws(2) finished(4)]) (use other in simp)
    thus ?thesis using sts(1) [OF finished(2)] sts(2) [OF finished(2)] bk [OF finished(3)] st [OF finished(4)] auto [OF finished(1)] finished(5)
      by simp
  qed simp
  thus "vs w' k = vs w k" "vw_StatefulSet V w' k = vw_StatefulSet V w k" "r = Inr x \<Longrightarrow> pr_traffic x k = traffic k" by simp_all
qed

lemma runner_passed_others:
  assumes wf: "runner_wf r" and eff: "runner_passed ok f req r r' launch" and other: "k \<noteq> req"
  shows "runner_jobs r' k = runner_jobs r k"
proof -
  have poll: "runner_wf (fst (runner_poll req r))" "runner_jobs (fst (runner_poll req r)) k = runner_jobs r k"
    using wf other by (auto simp: runner_poll_cases runner_forget_refines split: option.split)
  show ?thesis using eff other poll runner_start_refines(2) [OF poll(1), of req] runner_forget_refines(2) [OF wf, of req]
    by (auto simp: runner_passed_def runner_looked_def Let_def split: if_splits option.splits)
qed

text \<open>C3: A pass over one cluster does not touch another: the other cluster's StatefulSet and stored status are
  what they were, the runner holds the same job for it, and the sampler the same samples, whether the
  pass succeeds, fails or panics.\<close>

theorem Reconcile_touches_own:
  assumes laws: "kube_laws V kb" "status_laws vs kb" and wf: "runner_wf backups"
    and run: "Reconcile impl qv am sel parse kb req traffic backups w = (w', r)" and other: "k \<noteq> req"
  shows "vs w' k = vs w k \<and> vw_StatefulSet V w' k = vw_StatefulSet V w k \<and>
    (\<forall>x. r = Inr x \<longrightarrow> runner_jobs (pr_backups x) k = runner_jobs backups k \<and> pr_traffic x k = traffic k)"
proof -
  note K = status_objects_keep [OF laws(2)]
  have v: "calls_keep (vw_StatefulSet V) kb" "reads_keep (vw_StatefulSet V) kb" "objects_keep (vw_StatefulSet V) kb"
    using laws(1) kube_objects_keep [OF laws(1)] by (simp_all add: kube_laws_def calls_keep_def)
  let ?same = "\<lambda>w1. vs w1 k = vs w k \<and> vw_StatefulSet V w1 k = vw_StatefulSet V w k"
  have pinned: "?same w1" "r1 = Inr c1 \<Longrightarrow> k \<noteq> (kc_Namespace c1, kc_Name c1)"
    if "kb_GetCluster kb req w = (w0, Inr c)" "pin_bootstrap_size kb c w0 = (w1, r1)" for w0 c w1 r1 c1
  proof -
    have st: "(kc_Namespace c, kc_Name c) = req" "vs w0 (kc_Namespace c, kc_Name c) = Some (kc_Status c)" "vs w0 = vs w"
      using status_get(1) [OF laws(2) that(1)] status_get(2,3) [OF laws(2) that(1) refl] by simp_all
    have k: "k \<noteq> (kc_Namespace c, kc_Name c)" using st(1) other by simp
    show "?same w1"
      using pin_touches [OF laws(2) that(2) k] pin_bootstrap_size_frame [OF v(1) that(2)] reads_keepD(1) [OF v(2) that(1)] st(3) by simp
    show "k \<noteq> (kc_Namespace c1, kc_Name c1)" if "r1 = Inr c1"
      using pin_bootstrap_size_stored(2) [OF laws(2) \<open>pin_bootstrap_size kb c w0 = (w1, r1)\<close> st(2) that] k by simp
  qed
  note objects = reconcile_objects_frame [OF K(1)] reconcile_objects_frame [OF v(3)]
  note listed = listPods_frame [OF K(3)] listPods_frame [OF v(2)]
  have runner: "runner_jobs (pr_backups x) k = runner_jobs backups k" if "r = Inr x" for x
    by (rule runner_passed_others [OF wf Reconcile_runner [OF laws run [unfolded that]] other])
  from run have "?same w' \<and> (\<forall>x. r = Inr x \<longrightarrow> pr_traffic x k = traffic k)"
  proof (cases rule: Reconcile_cases)
    case (unread err)
    have "r = Inr x \<Longrightarrow> pr_traffic x k = traffic k" for x
      using run [unfolded Reconcile_def Let_def unread(1) prod.case sum.case] other by (auto simp: traffic_forget_def split: if_splits)
    thus ?thesis using status_get(1) [OF laws(2) unread(1)] reads_keepD(1) [OF v(2) unread(1)] by simp
  next
    case (unpinned c w0 err)
    have "r = Inr x \<Longrightarrow> pr_traffic x = traffic" for x
      using run [unfolded Reconcile_def Let_def unpinned(1,2) prod.case sum.case] by auto
    thus ?thesis using pinned(1) [OF unpinned(1,2)] by blast
  next
    case (objects_failed c w0 c1 w1 err)
    have "r = Inr x \<Longrightarrow> pr_traffic x = traffic" for x
      using run [unfolded Reconcile_def Let_def objects_failed(1-3) prod.case sum.case option.case] by auto
    thus ?thesis using pinned(1) [OF objects_failed(1,2)] objects [OF objects_failed(3)] by simp
  next
    case (unlisted c w0 c1 w1 w2 err)
    have "r = Inr x \<Longrightarrow> pr_traffic x = traffic" for x
      using run [unfolded Reconcile_def Let_def unlisted(1-4) prod.case sum.case option.case] by auto
    thus ?thesis using pinned(1) [OF unlisted(1,2)] objects [OF unlisted(3)] listed [OF unlisted(4)] by simp
  next
    case (listed c w0 c1 w1 w2 w3 pods)
    note k = pinned(2) [OF listed(1,2) refl]
    have "?same w3" using pinned(1) [OF listed(1,2)] objects [OF listed(3)] listPods_frame [OF K(3) listed(4)] listPods_frame [OF v(2) listed(4)] by simp
    thus ?thesis using reconcile_cluster_touches [OF laws listed(5) k] by simp
  qed
  thus ?thesis using runner by blast
qed

theorem Reconcile_touches_own_witness:
  "\<exists>w' x. archive_pass None [(''prod'', ''web'') \<mapsto> Map.empty] runner_empty = (w', Inr x) \<and> pr_traffic x (''prod'', ''web'') = Some Map.empty \<and>
     mw_StatefulSet w' (''prod'', ''web'') = None"
proof -
  obtain w' x where run: "archive_pass None [(''prod'', ''web'') \<mapsto> Map.empty] runner_empty = (w', Inr x)"
    using archive_pass_ends [OF runner_sane_empty, of None] by blast
  have other: "(''prod'', ''web'') \<noteq> archive_key" by simp
  have "mw_StatefulSet (archive_world None) (''prod'', ''web'') = None" by (simp add: archive_world_def backed_world_def example_world_def)
  thus ?thesis using Reconcile_touches_own [OF mem_kube_laws mem_status_laws runner_wf_empty run other] run by simp
qed


section \<open>Objects of two clusters\<close>

text \<open>What the operator creates for a cluster, by kind, apart from a backup claim, whose name can be the user's.\<close>

definition owned_objects :: "KahunaCluster \<Rightarrow> (string \<times> object_key) set" where
  "owned_objects c = {(''StatefulSet'', stsKey c), (''Service'', meta_key (svc_Meta (desiredPeerService c))),
     (''Service'', meta_key (svc_Meta (desiredClientService c))), (''ConfigMap'', (kc_Namespace c, configMapName c)),
     (''PodDisruptionBudget'', meta_key (pdb_Meta (desiredPDB c))), (''Certificate'', (kc_Namespace c, certificateName c)),
     (''Secret'', (kc_Namespace c, certificateName c)), (''Secret'', (kc_Namespace c, certPasswordSecretName c)),
     (''Secret'', (kc_Namespace c, backupMACSecretName c))}"

lemma suffix_neq: "last s \<noteq> last t \<Longrightarrow> s \<noteq> [] \<Longrightarrow> t \<noteq> [] \<Longrightarrow> xs @ s \<noteq> ys @ t"
  by (metis last_appendR)

lemma secret_suffixes:
  "xs @ ''-tls'' \<noteq> ys @ ''-tls-password''" "xs @ ''-tls'' \<noteq> ys @ ''-backup-mac''" "xs @ ''-tls-password'' \<noteq> ys @ ''-backup-mac''"
  by (rule suffix_neq; simp)+

text \<open>C39: Two clusters own a common object exactly when they are in one namespace and one is named like the peer
  Service of the other. Then the client Service of the one is the peer Service of the other; in every
  other case all their objects are distinct.\<close>

theorem owned_objects_clash_iff:
  assumes "(kc_Namespace c, kc_Name c) \<noteq> (kc_Namespace c', kc_Name c')"
  shows "owned_objects c \<inter> owned_objects c' \<noteq> {} \<longleftrightarrow>
    kc_Namespace c = kc_Namespace c' \<and> (kc_Name c' = kc_Name c @ ''-peer'' \<or> kc_Name c = kc_Name c' @ ''-peer'')"
proof -
  have keys: "owned_objects d = {(''StatefulSet'', (kc_Namespace d, kc_Name d)), (''Service'', (kc_Namespace d, kc_Name d @ ''-peer'')),
     (''Service'', (kc_Namespace d, kc_Name d)), (''ConfigMap'', (kc_Namespace d, kc_Name d @ ''-config'')),
     (''PodDisruptionBudget'', (kc_Namespace d, kc_Name d)), (''Certificate'', (kc_Namespace d, kc_Name d @ ''-tls'')),
     (''Secret'', (kc_Namespace d, kc_Name d @ ''-tls'')), (''Secret'', (kc_Namespace d, kc_Name d @ ''-tls-password'')),
     (''Secret'', (kc_Namespace d, kc_Name d @ ''-backup-mac''))}" for d
    by (simp add: owned_objects_def stsKey_cluster_key desiredPeerService_def desiredClientService_def desiredPDB_def objectMeta_def meta_key_def
        peerServiceName_def clientServiceName_def configMapName_def pdbName_def certificateName_def certPasswordSecretName_def backupMACSecretName_def Let_def)
  show ?thesis unfolding keys using assms by (auto simp: secret_suffixes secret_suffixes [symmetric])
qed

theorem owned_objects_clash_iff_witness:
  "owned_objects example_cluster \<inter> owned_objects (example_cluster\<lparr>kc_Name := ''db-peer''\<rparr>) \<noteq> {}"
  using owned_objects_clash_iff [of example_cluster "example_cluster\<lparr>kc_Name := ''db-peer''\<rparr>"] by (simp add: example_cluster_def)

end
