(* ===== verification/Manager.thy ===== *)
theory Manager
  imports Kahuna_Client "HOL-Library.Sublist"
begin

text \<open>
  The process the operator runs in: \<open>src/cmd/main.go\<close>, the registration of the API types
  (\<open>src/api/v1alpha1/groupversion_info.go\<close>) and \<open>SetupWithManager\<close> of
  \<open>src/internal/controller/kahunacluster_controller.go\<close>.

  The command line is read as Go's \<open>flag\<close> package reads it. The flags that the logging and client
  libraries add to it are a parameter, and so is the controller library: \<open>main\<close> is modelled by the
  calls it makes on it, in order and with their arguments, and the exit code, for whatever the library
  answers to each call after the earlier ones.
\<close>


section \<open>Reading flags\<close>

text \<open>An argument as \<open>parseOne\<close> classifies it: \<open>--name=value\<close>, \<open>-name\<close> and so on.\<close>

datatype flag_token = Operand | Terminator | BadSyntax | Named string "string option"

definition flag_token :: "string \<Rightarrow> flag_token" where
  "flag_token s =
     (if length s < 2 \<or> s ! 0 \<noteq> CHR ''-'' then Operand
      else if s ! 1 = CHR ''-'' \<and> length s = 2 then Terminator
      else
        let name = drop (if s ! 1 = CHR ''-'' then 2 else 1) s in
        if name = [] \<or> hd name = CHR ''-'' \<or> hd name = CHR ''='' then BadSyntax
        else
          let key = takeWhile (\<lambda>c. c \<noteq> CHR ''='') name in
          Named key (if key = name then None else Some (drop (length key + 1) name)))"

definition ParseBool :: "string \<Rightarrow> bool option" where
  "ParseBool s =
     (if s \<in> set [''1'', ''t'', ''T'', ''true'', ''TRUE'', ''True''] then Some True
      else if s \<in> set [''0'', ''f'', ''F'', ''false'', ''FALSE'', ''False''] then Some False
      else None)"

record manager_flags =
  mf_metricsAddr :: string
  mf_probeAddr :: string
  mf_enableLeaderElection :: bool
  mf_secureMetrics :: bool
  mf_webhookCertPath :: string
  mf_webhookCertName :: string
  mf_webhookCertKey :: string
  mf_metricsCertPath :: string
  mf_metricsCertName :: string
  mf_metricsCertKey :: string
  mf_enableHTTP2 :: bool

definition default_flags :: manager_flags where
  "default_flags = \<lparr>mf_metricsAddr = ''0'', mf_probeAddr = '':8081'', mf_enableLeaderElection = False, mf_secureMetrics = True,
     mf_webhookCertPath = [], mf_webhookCertName = ''tls.crt'', mf_webhookCertKey = ''tls.key'',
     mf_metricsCertPath = [], mf_metricsCertName = ''tls.crt'', mf_metricsCertKey = ''tls.key'', mf_enableHTTP2 = False\<rparr>"

text \<open>A flag: whether it can stand without a value, and what setting it does; \<open>None\<close> if the value is refused.\<close>

record formal_flag =
  ff_bool :: bool
  ff_set :: "string \<Rightarrow> manager_flags \<Rightarrow> manager_flags option"

definition StringVar :: "(string \<Rightarrow> manager_flags \<Rightarrow> manager_flags) \<Rightarrow> formal_flag" where
  "StringVar put = \<lparr>ff_bool = False, ff_set = (\<lambda>v m. Some (put v m))\<rparr>"

definition BoolVar :: "(bool \<Rightarrow> manager_flags \<Rightarrow> manager_flags) \<Rightarrow> formal_flag" where
  "BoolVar put = \<lparr>ff_bool = True, ff_set = (\<lambda>v m. map_option (\<lambda>b. put b m) (ParseBool v))\<rparr>"

definition main_flags :: "(string \<times> formal_flag) list" where
  "main_flags = [
     (''metrics-bind-address'', StringVar (\<lambda>v m. m\<lparr>mf_metricsAddr := v\<rparr>)),
     (''health-probe-bind-address'', StringVar (\<lambda>v m. m\<lparr>mf_probeAddr := v\<rparr>)),
     (''leader-elect'', BoolVar (\<lambda>v m. m\<lparr>mf_enableLeaderElection := v\<rparr>)),
     (''metrics-secure'', BoolVar (\<lambda>v m. m\<lparr>mf_secureMetrics := v\<rparr>)),
     (''webhook-cert-path'', StringVar (\<lambda>v m. m\<lparr>mf_webhookCertPath := v\<rparr>)),
     (''webhook-cert-name'', StringVar (\<lambda>v m. m\<lparr>mf_webhookCertName := v\<rparr>)),
     (''webhook-cert-key'', StringVar (\<lambda>v m. m\<lparr>mf_webhookCertKey := v\<rparr>)),
     (''metrics-cert-path'', StringVar (\<lambda>v m. m\<lparr>mf_metricsCertPath := v\<rparr>)),
     (''metrics-cert-name'', StringVar (\<lambda>v m. m\<lparr>mf_metricsCertName := v\<rparr>)),
     (''metrics-cert-key'', StringVar (\<lambda>v m. m\<lparr>mf_metricsCertKey := v\<rparr>)),
     (''enable-http2'', BoolVar (\<lambda>v m. m\<lparr>mf_enableHTTP2 := v\<rparr>))]"

text \<open>A flag of a library: whether it is boolean, and whether it accepts a value. Its setting is kept by the library.\<close>

record lib_flag =
  lf_bool :: bool
  lf_accepts :: "string \<Rightarrow> bool"

definition lookup_flag :: "(string \<rightharpoonup> lib_flag) \<Rightarrow> string \<Rightarrow> formal_flag option" where
  "lookup_flag lib name =
     (case map_of main_flags name of
        Some f \<Rightarrow> Some f
      | None \<Rightarrow> map_option (\<lambda>l. \<lparr>ff_bool = lf_bool l, ff_set = (\<lambda>v m. if lf_accepts l v then Some m else None)\<rparr>) (lib name))"

text \<open>\<open>flag.Parse\<close> on the command line's flag set: the settings, or the code the process exits with, which is 0
  when help was asked for and 2 for a command line that is in error.\<close>

fun flag_Parse :: "(string \<rightharpoonup> lib_flag) \<Rightarrow> string list \<Rightarrow> manager_flags \<Rightarrow> int + manager_flags" where
  "flag_Parse lib [] m = Inr m"
| "flag_Parse lib (s # args) m =
     (case flag_token s of
        Operand \<Rightarrow> Inr m
      | Terminator \<Rightarrow> Inr m
      | BadSyntax \<Rightarrow> Inl 2
      | Named name given \<Rightarrow>
          (case lookup_flag lib name of
             None \<Rightarrow> Inl (if name = ''help'' \<or> name = ''h'' then 0 else 2)
           | Some f \<Rightarrow>
               if ff_bool f then
                 (case ff_set f (case given of Some v \<Rightarrow> v | None \<Rightarrow> ''true'') m of
                    None \<Rightarrow> Inl 2
                  | Some m' \<Rightarrow> flag_Parse lib args m')
               else
                 (case given of
                    Some v \<Rightarrow> (case ff_set f v m of None \<Rightarrow> Inl 2 | Some m' \<Rightarrow> flag_Parse lib args m')
                  | None \<Rightarrow>
                      (case args of
                         [] \<Rightarrow> Inl 2
                       | v # args' \<Rightarrow> (case ff_set f v m of None \<Rightarrow> Inl 2 | Some m' \<Rightarrow> flag_Parse lib args' m')))))"


section \<open>The options of the manager\<close>

record tls_config =
  tc_NextProtos :: "string list"

definition disableHTTP2 :: "tls_config \<Rightarrow> tls_config" where
  "disableHTTP2 c = c\<lparr>tc_NextProtos := [''http/1.1'']\<rparr>"

definition tlsOpts :: "manager_flags \<Rightarrow> (tls_config \<Rightarrow> tls_config) list" where
  "tlsOpts m = (if \<not> mf_enableHTTP2 m then [disableHTTP2] else [])"

record server_cert =
  so_CertDir :: string
  so_CertName :: string
  so_KeyName :: string

definition no_cert :: server_cert where
  "no_cert = \<lparr>so_CertDir = [], so_CertName = [], so_KeyName = []\<rparr>"

record webhook_options =
  wo_TLSOpts :: "(tls_config \<Rightarrow> tls_config) list"
  wo_Cert :: server_cert

definition webhookServerOptions :: "manager_flags \<Rightarrow> webhook_options" where
  "webhookServerOptions m =
     (let o' = \<lparr>wo_TLSOpts = tlsOpts m, wo_Cert = no_cert\<rparr> in
      if length (mf_webhookCertPath m) > 0
      then o'\<lparr>wo_Cert := \<lparr>so_CertDir = mf_webhookCertPath m, so_CertName = mf_webhookCertName m, so_KeyName = mf_webhookCertKey m\<rparr>\<rparr>
      else o')"

text \<open>\<open>mo_Authenticates\<close>: the filter provider that authenticates and authorizes every request is set.\<close>

record metrics_options =
  mo_BindAddress :: string
  mo_SecureServing :: bool
  mo_TLSOpts :: "(tls_config \<Rightarrow> tls_config) list"
  mo_Authenticates :: bool
  mo_Cert :: server_cert

definition metricsServerOptions :: "manager_flags \<Rightarrow> metrics_options" where
  "metricsServerOptions m =
     (let o' = \<lparr>mo_BindAddress = mf_metricsAddr m, mo_SecureServing = mf_secureMetrics m, mo_TLSOpts = tlsOpts m,
            mo_Authenticates = False, mo_Cert = no_cert\<rparr>;
          o' = (if mf_secureMetrics m then o'\<lparr>mo_Authenticates := True\<rparr> else o')
      in if length (mf_metricsCertPath m) > 0
         then o'\<lparr>mo_Cert := \<lparr>so_CertDir = mf_metricsCertPath m, so_CertName = mf_metricsCertName m, so_KeyName = mf_metricsCertKey m\<rparr>\<rparr>
         else o')"

text \<open>The namespaces the cache is restricted to; \<open>None\<close> is no restriction.\<close>

definition cacheOptions :: "string \<Rightarrow> string set option" where
  "cacheOptions watchNamespace = (if watchNamespace \<noteq> [] then Some {watchNamespace} else None)"

record 's manager_options =
  op_Scheme :: 's
  op_Metrics :: metrics_options
  op_WebhookServer :: webhook_options
  op_HealthProbeBindAddress :: string
  op_Cache :: "string set option"
  op_LeaderElection :: bool
  op_LeaderElectionID :: string

definition manager_options :: "'s \<Rightarrow> string \<Rightarrow> manager_flags \<Rightarrow> 's manager_options" where
  "manager_options scheme watchNamespace m = \<lparr>op_Scheme = scheme, op_Metrics = metricsServerOptions m,
     op_WebhookServer = webhookServerOptions m, op_HealthProbeBindAddress = mf_probeAddr m, op_Cache = cacheOptions watchNamespace,
     op_LeaderElection = mf_enableLeaderElection m, op_LeaderElectionID = ''261535e5.kahunakv.io''\<rparr>"


section \<open>Registering the API types\<close>

record GroupVersion =
  gv_Group :: string
  gv_Version :: string

definition SchemeGroupVersion :: GroupVersion where
  "SchemeGroupVersion = \<lparr>gv_Group = ''kahuna.kahunakv.io'', gv_Version = ''v1alpha1''\<rparr>"

text \<open>The operations of the client library on a scheme; the types are named by their kinds.\<close>

record 's scheme_lib =
  sl_ClientGo :: "'s \<Rightarrow> 's \<times> goerr option"
  sl_AddToGroupVersion :: "GroupVersion \<Rightarrow> 's \<Rightarrow> 's"
  sl_AddKnownTypes :: "GroupVersion \<Rightarrow> string list \<Rightarrow> 's \<Rightarrow> 's"

text \<open>The functions the builder was created with, and the one that \<open>init\<close> of the types registers.\<close>

definition SchemeBuilder :: "'s scheme_lib \<Rightarrow> ('s \<Rightarrow> 's \<times> goerr option) list" where
  "SchemeBuilder sl = [\<lambda>s. (sl_AddToGroupVersion sl SchemeGroupVersion s, None)]"

definition registered :: "'s scheme_lib \<Rightarrow> ('s \<Rightarrow> 's \<times> goerr option) list" where
  "registered sl = SchemeBuilder sl @ [\<lambda>s. (sl_AddKnownTypes sl SchemeGroupVersion [''KahunaCluster'', ''KahunaClusterList''] s, None)]"

fun build_scheme :: "('s \<Rightarrow> 's \<times> goerr option) list \<Rightarrow> 's \<Rightarrow> 's \<times> goerr option" where
  "build_scheme [] s = (s, None)"
| "build_scheme (f # fs) s = (case f s of (s, Some err) \<Rightarrow> (s, Some err) | (s, None) \<Rightarrow> build_scheme fs s)"

definition AddToScheme :: "'s scheme_lib \<Rightarrow> 's \<Rightarrow> 's \<times> goerr option" where
  "AddToScheme sl s = build_scheme (registered sl) s"

text \<open>\<open>init\<close> of the main package: \<open>Must\<close> panics with the error.\<close>

definition init_scheme :: "'s scheme_lib \<Rightarrow> 's \<Rightarrow> goerr + 's" where
  "init_scheme sl scheme =
     (case sl_ClientGo sl scheme of
        (_, Some err) \<Rightarrow> Inl err
      | (scheme, None) \<Rightarrow> (case AddToScheme sl scheme of (_, Some err) \<Rightarrow> Inl err | (scheme, None) \<Rightarrow> Inr scheme))"

text \<open>Our types join the scheme after the library's own; only the library's registration can fail.\<close>

lemma init_scheme_registers:
  "init_scheme sl scheme =
    (case sl_ClientGo sl scheme of
       (_, Some err) \<Rightarrow> Inl err
     | (s, None) \<Rightarrow> Inr (sl_AddKnownTypes sl SchemeGroupVersion [''KahunaCluster'', ''KahunaClusterList'']
         (sl_AddToGroupVersion sl SchemeGroupVersion s)))"
  by (simp add: init_scheme_def AddToScheme_def registered_def SchemeBuilder_def split: prod.split option.split)


section \<open>Setting up and running\<close>

definition NewHTTPClient :: "(http_request \<Rightarrow> goerr option) \<Rightarrow> (http_request \<Rightarrow> goerr + http_response) \<Rightarrow> duration \<Rightarrow> duration \<Rightarrow> HTTPClient" where
  "NewHTTPClient new transport readTimeout leaveTimeout =
     \<lparr>hc_New = new, hc_Do = transport, hc_ReadTimeout = readTimeout, hc_LeaveTimeout = leaveTimeout\<rparr>"

definition maxConcurrentReconciles :: nat where "maxConcurrentReconciles = 4"

text \<open>Where the reconciler reads clusters from: the cache of the client, or the API server itself.\<close>

datatype cluster_reader = CachedClient | APIReader

text \<open>The fields that \<open>main\<close> chooses; the client and the scheme are the manager's own. The sampler and the runner
  start empty, as in \<open>operator_boot\<close>.\<close>

record KahunaClusterReconciler =
  rec_Reader :: cluster_reader
  rec_Kahuna :: HTTPClient

text \<open>The controller that \<open>SetupWithManager\<close> builds.\<close>

record controller_setup =
  cs_For :: string
  cs_Owns :: "string list"
  cs_Named :: string
  cs_MaxConcurrentReconciles :: nat
  cs_Reconciler :: KahunaClusterReconciler

definition SetupWithManager :: "KahunaClusterReconciler \<Rightarrow> controller_setup" where
  "SetupWithManager r = \<lparr>cs_For = ''KahunaCluster'', cs_Owns = [''StatefulSet'', ''Service'', ''ConfigMap'', ''PodDisruptionBudget''],
     cs_Named = ''kahunacluster'', cs_MaxConcurrentReconciles = maxConcurrentReconciles, cs_Reconciler = r\<rparr>"

datatype 's setup_call =
    GetConfig
  | NewManager "'s manager_options"
  | Complete controller_setup
  | AddHealthzCheck string
  | AddReadyzCheck string
  | StartManager

text \<open>One call: the library's answer may depend on the calls before it. An error ends the process with code 1.\<close>

definition attempt :: "('s setup_call list \<Rightarrow> 's setup_call \<Rightarrow> goerr option) \<Rightarrow> 's setup_call \<Rightarrow> ('s setup_call list \<Rightarrow> 's setup_call list \<times> int) \<Rightarrow> 's setup_call list \<Rightarrow> 's setup_call list \<times> int" where
  "attempt mgr call next calls =
     (case mgr calls call of Some err \<Rightarrow> (calls @ [call], 1) | None \<Rightarrow> next (calls @ [call]))"

definition run_manager :: "('s setup_call list \<Rightarrow> 's setup_call \<Rightarrow> goerr option) \<Rightarrow> 's manager_options \<Rightarrow> HTTPClient \<Rightarrow> 's setup_call list \<times> int" where
  "run_manager mgr opts kahuna =
     attempt mgr GetConfig
       (attempt mgr (NewManager opts)
         (attempt mgr (Complete (SetupWithManager \<lparr>rec_Reader = APIReader, rec_Kahuna = kahuna\<rparr>))
           (attempt mgr (AddHealthzCheck ''healthz'')
             (attempt mgr (AddReadyzCheck ''readyz'')
               (attempt mgr StartManager (\<lambda>calls. (calls, 0))))))) []"

definition main :: "(string \<rightharpoonup> lib_flag) \<Rightarrow> ('s setup_call list \<Rightarrow> 's setup_call \<Rightarrow> goerr option) \<Rightarrow> (http_request \<Rightarrow> goerr option) \<Rightarrow> (http_request \<Rightarrow> goerr + http_response) \<Rightarrow> 's \<Rightarrow> (string \<Rightarrow> string) \<Rightarrow> string list \<Rightarrow> 's setup_call list \<times> int" where
  "main lib mgr new transport scheme getenv args =
     (case flag_Parse lib args default_flags of
        Inl code \<Rightarrow> ([], code)
      | Inr m \<Rightarrow>
          run_manager mgr (manager_options scheme (getenv ''WATCH_NAMESPACE'') m)
            (NewHTTPClient new transport DefaultReadTimeout DefaultLeaveTimeout))"


section \<open>What the command line decides\<close>

text \<open>A setting keeps its default unless an argument names a flag that changes it.\<close>

lemma flag_Parse_keeps:
  assumes "flag_Parse lib args m = Inr m'"
    and keep: "\<And>s name given f v m m'. s \<in> set args \<Longrightarrow> flag_token s = Named name given \<Longrightarrow> lookup_flag lib name = Some f \<Longrightarrow>
      ff_set f v m = Some m' \<Longrightarrow> field m' = field m"
  shows "field m' = field m"
  using assms
proof (induction lib args m rule: flag_Parse.induct)
  case (2 lib s args m)
  show ?case
  proof (cases "flag_token s")
    case (Named name given)
    note N = Named
    with "2.prems"(1) obtain f where f: "lookup_flag lib name = Some f" by (auto split: option.splits)
    have K: "field m2 = field m" if "ff_set f v m = Some m2" for v m2
      using "2.prems"(2) [of s] N f that by simp
    have K': "field m2 = field m1" if "t \<in> set args" "flag_token t = Named n g" "lookup_flag lib n = Some f'" "ff_set f' v m1 = Some m2"
      for t n g f' v m1 m2 using "2.prems"(2) [of t] that by simp
    show ?thesis
    proof (cases "ff_bool f")
      case True
      then obtain m1 where m1: "ff_set f (case given of Some v \<Rightarrow> v | None \<Rightarrow> ''true'') m = Some m1" "flag_Parse lib args m1 = Inr m'"
        using "2.prems"(1) N f by (auto split: option.splits)
      have "field m' = field m1" by (rule "2.IH"(1) [OF N f True m1 K'])
      thus ?thesis using K [OF m1(1)] by simp
    next
      case False
      show ?thesis
      proof (cases given)
        case (Some v)
        then obtain m1 where m1: "ff_set f v m = Some m1" "flag_Parse lib args m1 = Inr m'"
          using "2.prems"(1) N f False by (auto split: option.splits)
        have "field m' = field m1" by (rule "2.IH"(3) [OF N f False Some m1 K'])
        thus ?thesis using K [OF m1(1)] by simp
      next
        case None
        then obtain v args' m1 where m1: "args = v # args'" "ff_set f v m = Some m1" "flag_Parse lib args' m1 = Inr m'"
          using "2.prems"(1) N f False by (auto split: option.splits list.splits)
        have "field m' = field m1" by (rule "2.IH"(2) [OF N f False None m1 K']) (use m1(1) in auto)
        thus ?thesis using K [OF m1(2)] by simp
      qed
    qed
  qed (use "2.prems"(1) in simp_all)
qed simp

text \<open>No argument names the flag.\<close>

definition unnamed :: "string \<Rightarrow> string list \<Rightarrow> bool" where
  "unnamed flag args \<longleftrightarrow> (\<forall>s\<in>set args. case flag_token s of Named name _ \<Rightarrow> name \<noteq> flag | _ \<Rightarrow> True)"

lemma main_flags_frame:
  assumes "lookup_flag lib name = Some f" "ff_set f v m = Some m'"
  shows "name \<noteq> ''enable-http2'' \<Longrightarrow> mf_enableHTTP2 m' = mf_enableHTTP2 m"
    "name \<noteq> ''metrics-secure'' \<Longrightarrow> mf_secureMetrics m' = mf_secureMetrics m"
proof -
  have "(name \<noteq> ''enable-http2'' \<longrightarrow> mf_enableHTTP2 m' = mf_enableHTTP2 m) \<and> (name \<noteq> ''metrics-secure'' \<longrightarrow> mf_secureMetrics m' = mf_secureMetrics m)"
  proof (cases "map_of main_flags name")
    case None
    hence "m' = m" using assms by (auto simp: lookup_flag_def split: if_splits)
    thus ?thesis by simp
  next
    case (Some g)
    hence "(name, f) \<in> set main_flags" using assms(1) by (simp add: lookup_flag_def map_of_SomeD)
    thus ?thesis using assms(2) unfolding main_flags_def set_simps insert_iff
      by (elim disjE) (auto simp: StringVar_def BoolVar_def)
  qed
  thus "name \<noteq> ''enable-http2'' \<Longrightarrow> mf_enableHTTP2 m' = mf_enableHTTP2 m"
    "name \<noteq> ''metrics-secure'' \<Longrightarrow> mf_secureMetrics m' = mf_secureMetrics m" by blast+
qed

lemma unnamedD: "unnamed flag args \<Longrightarrow> s \<in> set args \<Longrightarrow> flag_token s = Named name given \<Longrightarrow> name \<noteq> flag"
  by (fastforce simp: unnamed_def)

lemma unnamed_kept:
  assumes "flag_Parse lib args m = Inr m'"
  shows "unnamed ''enable-http2'' args \<Longrightarrow> mf_enableHTTP2 m' = mf_enableHTTP2 m"
    "unnamed ''metrics-secure'' args \<Longrightarrow> mf_secureMetrics m' = mf_secureMetrics m"
  by (rule flag_Parse_keeps [OF assms]; rule main_flags_frame; (assumption | erule (2) unnamedD))+

text \<open>The options a server applies to its TLS configuration, in order.\<close>

definition configured :: "(tls_config \<Rightarrow> tls_config) list \<Rightarrow> tls_config \<Rightarrow> tls_config" where
  "configured opts c = fold (\<lambda>f c. f c) opts c"

text \<open>C34: The servers of the operator are closed unless the command line opens them. When no argument names
  enable-http2, both the metrics and the webhook server offer HTTP/1.1 only, whatever their TLS
  configuration was before; when none names metrics-secure, the metrics are served over TLS and every
  request for them is authenticated and authorized. Metrics served over plain HTTP are never
  authenticated.\<close>

theorem servers_closed_by_default:
  assumes "main lib mgr new transport scheme getenv args = (calls, code)" "NewManager opts \<in> set calls"
  shows "(unnamed ''enable-http2'' args \<longrightarrow>
      tc_NextProtos (configured (mo_TLSOpts (op_Metrics opts)) c) = [''http/1.1''] \<and>
      tc_NextProtos (configured (wo_TLSOpts (op_WebhookServer opts)) c) = [''http/1.1'']) \<and>
    (unnamed ''metrics-secure'' args \<longrightarrow> mo_SecureServing (op_Metrics opts) \<and> mo_Authenticates (op_Metrics opts)) \<and>
    (mo_Authenticates (op_Metrics opts) \<longleftrightarrow> mo_SecureServing (op_Metrics opts))"
proof -
  obtain m where m: "flag_Parse lib args default_flags = Inr m" using assms by (auto simp: main_def split: sum.splits)
  have opts: "opts = manager_options scheme (getenv ''WATCH_NAMESPACE'') m"
    using assms m by (auto simp: main_def run_manager_def attempt_def split: option.splits)
  have tls: "tc_NextProtos (configured (tlsOpts m) c) = [''http/1.1'']" if "\<not> mf_enableHTTP2 m"
    using that by (simp add: tlsOpts_def configured_def disableHTTP2_def)
  show ?thesis using unnamed_kept [OF m] tls
    by (auto simp: opts manager_options_def metricsServerOptions_def webhookServerOptions_def default_flags_def Let_def)
qed


section \<open>Starting up\<close>

text \<open>The calls as a list: each is made only after the ones before it succeeded.\<close>

fun run_calls :: "('s setup_call list \<Rightarrow> 's setup_call \<Rightarrow> goerr option) \<Rightarrow> 's setup_call list \<Rightarrow> 's setup_call list \<Rightarrow> 's setup_call list \<times> int" where
  "run_calls mgr [] calls = (calls, 0)"
| "run_calls mgr (c # cs) calls = attempt mgr c (run_calls mgr cs) calls"

definition startup :: "'s manager_options \<Rightarrow> HTTPClient \<Rightarrow> 's setup_call list" where
  "startup opts kahuna = [GetConfig, NewManager opts, Complete (SetupWithManager \<lparr>rec_Reader = APIReader, rec_Kahuna = kahuna\<rparr>),
     AddHealthzCheck ''healthz'', AddReadyzCheck ''readyz'', StartManager]"

lemma run_manager_calls: "run_manager mgr opts kahuna = run_calls mgr (startup opts kahuna) []"
proof -
  have end': "run_calls mgr [] = (\<lambda>calls. (calls, 0))" by (rule ext) simp
  have step: "run_calls mgr (c # cs) = attempt mgr c (run_calls mgr cs)" for c cs by (rule ext) simp
  show ?thesis unfolding run_manager_def startup_def step end' ..
qed

lemma run_calls_stop:
  assumes "run_calls mgr cs done = (calls, code)"
  shows "(\<forall>i < length cs. mgr (done @ take i cs) (cs ! i) = None) \<and> calls = done @ cs \<and> code = 0 \<or>
    (\<exists>k < length cs. (\<forall>i < k. mgr (done @ take i cs) (cs ! i) = None) \<and> mgr (done @ take k cs) (cs ! k) \<noteq> None \<and>
       calls = done @ take (Suc k) cs \<and> code = 1)"
  using assms
proof (induction cs arbitrary: "done")
  case (Cons c cs)
  show ?case
  proof (cases "mgr done c")
    case None
    hence "run_calls mgr cs (done @ [c]) = (calls, code)" using Cons.prems by (simp add: attempt_def)
    from Cons.IH [OF this] show ?thesis
    proof (elim disjE exE conjE)
      assume "\<forall>i<length cs. mgr ((done @ [c]) @ take i cs) (cs ! i) = None" "calls = (done @ [c]) @ cs" "code = 0"
      thus ?thesis using None by (simp add: All_less_Suc2)
    next
      fix k assume "k < length cs" "\<forall>i<k. mgr ((done @ [c]) @ take i cs) (cs ! i) = None"
        "mgr ((done @ [c]) @ take k cs) (cs ! k) \<noteq> None" "calls = (done @ [c]) @ take (Suc k) cs" "code = 1"
      thus ?thesis using None by (intro disjI2 exI [of _ "Suc k"]) (simp add: All_less_Suc2)
    qed
  next
    case (Some err)
    thus ?thesis using Cons.prems by (intro disjI2 exI [of _ 0]) (simp add: attempt_def)
  qed
qed simp

lemma flag_Parse_code:
  assumes "flag_Parse lib args m = Inl code"
  shows "code \<in> {0, 2}"
proof -
  have "flag_Parse lib args m = Inl code \<longrightarrow> code \<in> {0, 2}" for args m
  proof (induction args arbitrary: m rule: length_induct)
    case (1 args)
    have IH: "code \<in> {0, 2}" if "flag_Parse lib xs m' = Inl code" "length xs < length args" for xs m' using 1 that by blast
    show ?case
    proof (cases args)
      case (Cons s rest)
      show ?thesis
      proof (cases "flag_token s")
        case (Named name given)
        show ?thesis
        proof (cases "lookup_flag lib name")
          case (Some f)
          show ?thesis using IH [of rest] IH [of "tl rest"] Cons Named Some
            by (cases given; cases rest) (auto split: option.splits if_splits)
        qed (use Cons Named in simp)
      qed (use Cons in simp_all)
    qed simp
  qed
  thus ?thesis using assms by blast
qed

text \<open>C35: The manager is started last and only when everything before it succeeded. If the command line is
  readable, the calls on the controller library are made in a fixed order, configuration, manager,
  controller, health check, readiness check, start, up to the first that fails; the process exits with
  1 exactly when one failed, and with 0 when they all succeeded, the start included. The controller
  reads clusters from the API server and not from the cache. A command line in error ends the process
  with 2 and a request for help with 0, before any call.\<close>

theorem main_starts_last:
  "case flag_Parse lib args default_flags of
     Inl code \<Rightarrow> main lib mgr new transport scheme getenv args = ([], code) \<and> code \<in> {0, 2}
   | Inr m \<Rightarrow>
       \<exists>calls code cs. main lib mgr new transport scheme getenv args = (calls, code) \<and>
         cs = startup (manager_options scheme (getenv ''WATCH_NAMESPACE'') m) (NewHTTPClient new transport DefaultReadTimeout DefaultLeaveTimeout) \<and>
         (code = 0 \<and> calls = cs \<and> list_all (\<lambda>i. mgr (take i cs) (cs ! i) = None) [0..<6] \<or>
          code = 1 \<and> (\<exists>k < 6. calls = take (Suc k) cs \<and> list_all (\<lambda>i. mgr (take i cs) (cs ! i) = None) [0..<k] \<and> mgr (take k cs) (cs ! k) \<noteq> None))"
proof (cases "flag_Parse lib args default_flags")
  case (Inl code)
  thus ?thesis using flag_Parse_code [OF Inl] by (simp add: main_def)
next
  case (Inr m)
  define cs where "cs = startup (manager_options scheme (getenv ''WATCH_NAMESPACE'') m) (NewHTTPClient new transport DefaultReadTimeout DefaultLeaveTimeout)"
  obtain calls code where run: "run_calls mgr cs [] = (calls, code)" by fastforce
  have len: "length cs = 6" by (simp add: cs_def startup_def)
  have all: "list_all P [0..<n] \<longleftrightarrow> (\<forall>i < n. P i)" for P n by (auto simp: list_all_iff)
  have "code = 0 \<and> calls = cs \<and> list_all (\<lambda>i. mgr (take i cs) (cs ! i) = None) [0..<6] \<or>
      code = 1 \<and> (\<exists>k < 6. calls = take (Suc k) cs \<and> list_all (\<lambda>i. mgr (take i cs) (cs ! i) = None) [0..<k] \<and> mgr (take k cs) (cs ! k) \<noteq> None)"
    using run_calls_stop [OF run] unfolding all append_Nil len by blast
  moreover have "main lib mgr new transport scheme getenv args = (calls, code)"
    by (simp add: main_def Inr run_manager_calls run cs_def [symmetric])
  ultimately show ?thesis unfolding Inr sum.case cs_def [symmetric] by blast
qed


section \<open>Writing a command line\<close>

definition bool_text :: "bool \<Rightarrow> string" where
  "bool_text b = (if b then ''true'' else ''false'')"

definition flag_text :: "string \<Rightarrow> string \<Rightarrow> string" where
  "flag_text name v = ''--'' @ name @ ''='' @ v"

definition flags_text :: "manager_flags \<Rightarrow> string list" where
  "flags_text m = [flag_text ''metrics-bind-address'' (mf_metricsAddr m), flag_text ''health-probe-bind-address'' (mf_probeAddr m),
     flag_text ''leader-elect'' (bool_text (mf_enableLeaderElection m)), flag_text ''metrics-secure'' (bool_text (mf_secureMetrics m)),
     flag_text ''webhook-cert-path'' (mf_webhookCertPath m), flag_text ''webhook-cert-name'' (mf_webhookCertName m),
     flag_text ''webhook-cert-key'' (mf_webhookCertKey m), flag_text ''metrics-cert-path'' (mf_metricsCertPath m),
     flag_text ''metrics-cert-name'' (mf_metricsCertName m), flag_text ''metrics-cert-key'' (mf_metricsCertKey m),
     flag_text ''enable-http2'' (bool_text (mf_enableHTTP2 m))]"

lemma flag_token_text:
  assumes "name \<noteq> []" "hd name \<noteq> CHR ''-''" "CHR ''='' \<notin> set name"
  shows "flag_token (flag_text name v) = Named name (Some v)"
proof -
  have "hd name \<noteq> CHR ''=''" using assms(1,3) by (metis list.set_sel(1))
  moreover have "takeWhile (\<lambda>c. c \<noteq> CHR ''='') (name @ ''='' @ v) = name"
    using assms(3) by (subst takeWhile_append2) auto
  ultimately show ?thesis using assms(1,2) by (simp add: flag_token_def flag_text_def Let_def)
qed

lemma ParseBool_text [simp]: "ParseBool (bool_text b) = Some b"
  by (simp add: bool_text_def ParseBool_def)

lemma flag_Parse_text:
  assumes "(name, f) \<in> set main_flags"
  shows "flag_Parse lib (flag_text name v # args) m = (case ff_set f v m of None \<Rightarrow> Inl 2 | Some m' \<Rightarrow> flag_Parse lib args m')"
proof -
  have "map_of main_flags name = Some f"
    by (rule map_of_is_SomeI [OF _ assms]) (simp add: main_flags_def)
  hence "lookup_flag lib name = Some f" by (simp add: lookup_flag_def)
  moreover have "name \<noteq> [] \<and> hd name \<noteq> CHR ''-'' \<and> CHR ''='' \<notin> set name"
    using assms unfolding main_flags_def set_simps insert_iff by (elim disjE) auto
  ultimately show ?thesis by (simp add: flag_token_text)
qed

lemma flag_Parse_set:
  "(name, StringVar put) \<in> set main_flags \<Longrightarrow> flag_Parse lib (flag_text name v # args) m = flag_Parse lib args (put v m)"
  "(name, BoolVar bput) \<in> set main_flags \<Longrightarrow> flag_Parse lib (flag_text name (bool_text b) # args) m = flag_Parse lib args (bput b m)"
  by (simp_all only: flag_Parse_text) (simp_all add: StringVar_def BoolVar_def)

lemma main_flags_each:
  "(''metrics-bind-address'', StringVar (\<lambda>v m. m\<lparr>mf_metricsAddr := v\<rparr>)) \<in> set main_flags"
  "(''health-probe-bind-address'', StringVar (\<lambda>v m. m\<lparr>mf_probeAddr := v\<rparr>)) \<in> set main_flags"
  "(''webhook-cert-path'', StringVar (\<lambda>v m. m\<lparr>mf_webhookCertPath := v\<rparr>)) \<in> set main_flags"
  "(''webhook-cert-name'', StringVar (\<lambda>v m. m\<lparr>mf_webhookCertName := v\<rparr>)) \<in> set main_flags"
  "(''webhook-cert-key'', StringVar (\<lambda>v m. m\<lparr>mf_webhookCertKey := v\<rparr>)) \<in> set main_flags"
  "(''metrics-cert-path'', StringVar (\<lambda>v m. m\<lparr>mf_metricsCertPath := v\<rparr>)) \<in> set main_flags"
  "(''metrics-cert-name'', StringVar (\<lambda>v m. m\<lparr>mf_metricsCertName := v\<rparr>)) \<in> set main_flags"
  "(''metrics-cert-key'', StringVar (\<lambda>v m. m\<lparr>mf_metricsCertKey := v\<rparr>)) \<in> set main_flags"
  "(''leader-elect'', BoolVar (\<lambda>v m. m\<lparr>mf_enableLeaderElection := v\<rparr>)) \<in> set main_flags"
  "(''metrics-secure'', BoolVar (\<lambda>v m. m\<lparr>mf_secureMetrics := v\<rparr>)) \<in> set main_flags"
  "(''enable-http2'', BoolVar (\<lambda>v m. m\<lparr>mf_enableHTTP2 := v\<rparr>)) \<in> set main_flags"
  by (simp_all add: main_flags_def)

lemmas flag_Parse_texts =
  main_flags_each(1-8) [THEN flag_Parse_set(1)] main_flags_each(9-11) [THEN flag_Parse_set(2)]

text \<open>Every setting can be given on the command line: writing a value for each flag and reading the command line
  gives exactly those values, whatever the settings were, with any characters in them and whatever flags
  the libraries add.\<close>

lemma flags_roundtrip: "flag_Parse lib (flags_text m) m0 = Inr m"
  unfolding flags_text_def flag_Parse_texts by simp

text \<open>The command line of the deployment in \<open>src/config\<close>, with metrics over TLS.\<close>

definition deployed_args :: "string list" where
  "deployed_args = [''--metrics-bind-address=:8443'', ''--leader-elect'', ''--health-probe-bind-address=:8081'']"

lemma deployed_tokens:
  "flag_token ''--metrics-bind-address=:8443'' = Named ''metrics-bind-address'' (Some '':8443'')"
  "flag_token ''--leader-elect'' = Named ''leader-elect'' None"
  "flag_token ''--health-probe-bind-address=:8081'' = Named ''health-probe-bind-address'' (Some '':8081'')"
  by code_simp+

lemma deployed_flags:
  "flag_Parse Map.empty deployed_args default_flags = Inr (default_flags\<lparr>mf_metricsAddr := '':8443'', mf_enableLeaderElection := True\<rparr>)"
  by (simp add: deployed_args_def deployed_tokens lookup_flag_def main_flags_def StringVar_def BoolVar_def ParseBool_def default_flags_def)

theorem servers_closed_by_default_witness:
  "\<exists>calls code opts. main Map.empty (\<lambda>_ _. None) (\<lambda>_. None) (\<lambda>_. Inl (Errorf ''unreachable'')) () (\<lambda>_. []) deployed_args = (calls, code) \<and>
     NewManager opts \<in> set calls \<and> tc_NextProtos (configured (mo_TLSOpts (op_Metrics opts)) \<lparr>tc_NextProtos = [''h2'']\<rparr>) = [''http/1.1''] \<and>
     mo_Authenticates (op_Metrics opts)"
proof -
  obtain calls code where run: "main Map.empty (\<lambda>_ _. None) (\<lambda>_. None) (\<lambda>_. Inl (Errorf ''unreachable'')) () (\<lambda>_. []) deployed_args = (calls, code)"
    by fastforce
  hence "\<exists>opts. NewManager opts \<in> set calls"
    by (auto simp: main_def deployed_flags run_manager_def attempt_def)
  moreover have "unnamed ''enable-http2'' deployed_args" "unnamed ''metrics-secure'' deployed_args"
    by (simp_all add: unnamed_def deployed_args_def deployed_tokens)
  ultimately show ?thesis using servers_closed_by_default [OF run] run by blast
qed

end
