(* ===== verification/Object_Memory.thy ===== *)
theory Object_Memory
  imports API_Types "HOL-Library.Monad_Syntax"
begin

text \<open>
  A KahunaCluster in memory: the structs of \<open>src/api/v1alpha1/kahunacluster_types.go\<close> with their
  pointers, slices and maps into a store of cells, so that sharing is visible. Elsewhere in this
  development an object is a value, as a pass uses it. Structs of the Kubernetes libraries are values
  here too, and plain fields are held in the struct.

  \<open>load_X\<close> reads the value of a struct out of the store; it is \<open>None\<close> when a pointer dangles, which no
  pointer does in Go.
\<close>


section \<open>Structs\<close>

type_synonym addr = nat

record volumeMem =
  vsm_Size :: quantity
  vsm_StorageClassName :: "addr option"
  vsm_AccessModes :: "addr option"

record storageMem =
  stom_Backend :: string
  stom_Revision :: string
  stom_WALBackend :: string
  stom_WALRevision :: string
  stom_Data :: volumeMem
  stom_WAL :: "addr option"
  stom_SyncWrites :: "addr option"
  stom_DirectReads :: "addr option"
  stom_SharedMemory :: "addr option"
  stom_SharedMemoryBudgetMB :: "addr option"
  stom_SharedMemtableBudgetMB :: "addr option"
  stom_PVCRetentionPolicy :: string

record certManagerMem =
  cmsm_IssuerRef :: CertManagerIssuerRef
  cmsm_Duration :: "addr option"
  cmsm_RenewBefore :: "addr option"

record tlsMem =
  tlsm_SecretRef :: "addr option"
  tlsm_KeystoreKey :: string
  tlsm_PasswordSecretRef :: "addr option"
  tlsm_CertManager :: "addr option"
  tlsm_InsecureSkipVerify :: "addr option"

record raftMem =
  rftm_HeartbeatIntervalMs :: "addr option"
  rftm_VotingTimeoutMs :: "addr option"
  rftm_StartElectionTimeoutMs :: "addr option"
  rftm_EndElectionTimeoutMs :: "addr option"
  rftm_EnableCheckQuorum :: "addr option"
  rftm_GossipIntervalMs :: "addr option"
  rftm_GossipFanout :: "addr option"
  rftm_PingTimeoutMs :: "addr option"
  rftm_IndirectPingFanout :: "addr option"
  rftm_SuspicionTimeoutMs :: "addr option"
  rftm_DeadMemberEvictionGraceMs :: "addr option"
  rftm_BackfillThreshold :: "addr option"
  rftm_MaxBackfillEntriesPerRound :: "addr option"
  rftm_LearnerPromotionLag :: "addr option"
  rftm_LearnerPromotionStableWindowMs :: "addr option"

record transactionsMem =
  txnm_DefaultTimeoutMs :: "addr option"
  txnm_DefaultAdmissionWaitMs :: "addr option"
  txnm_MaxAdmissionWaitMs :: "addr option"
  txnm_MaxConcurrentTransactions :: "addr option"
  txnm_MaxConcurrentSessions :: "addr option"

record workersMem =
  wrkm_Locks :: "addr option"
  wrkm_KeyValue :: "addr option"
  wrkm_Sequencer :: "addr option"
  wrkm_BackgroundWriter :: "addr option"

record autoscalingSpecMem =
  ausm_MinReplicas :: int32
  ausm_MaxReplicas :: int32
  ausm_TargetWritesPerSecond :: "addr option"
  ausm_TargetQueueDepth :: "addr option"
  ausm_ScaleUpStabilizationSeconds :: "addr option"
  ausm_ScaleDownStabilizationSeconds :: "addr option"
  ausm_TolerancePercent :: "addr option"

record backupVolumeMem =
  bvsm_ClaimName :: "addr option"
  bvsm_Claim :: "addr option"

record retentionMem =
  brsm_MaxChains :: "addr option"
  brsm_MaxAge :: "addr option"
  brsm_MaxBytes :: "addr option"

record backupSpecMem =
  bksm_Schedule :: string
  bksm_IncrementalSchedule :: string
  bksm_Suspend :: "addr option"
  bksm_Timeout :: "addr option"
  bksm_Volume :: backupVolumeMem
  bksm_ClusterID :: string
  bksm_MACKeySecretRef :: "addr option"
  bksm_Retention :: "addr option"

record specMem =
  spm_Replicas :: "addr option"
  spm_Replication :: "addr option"
  spm_Autoscaling :: "addr option"
  spm_Backup :: "addr option"
  spm_Image :: string
  spm_ImagePullPolicy :: string
  spm_ImagePullSecrets :: "addr option"
  spm_Partitions :: "addr option"
  spm_Storage :: storageMem
  spm_TLS :: tlsMem
  spm_Ports :: "addr option"
  spm_Raft :: "addr option"
  spm_Transactions :: "addr option"
  spm_Workers :: "addr option"
  spm_LogLevel :: string
  spm_ExtraArgs :: "addr option"
  spm_Resources :: opaque
  spm_NodeSelector :: "addr option"
  spm_Tolerations :: "addr option"
  spm_Affinity :: "addr option"
  spm_TopologySpreadConstraints :: "addr option"
  spm_PodAnnotations :: "addr option"
  spm_PodLabels :: "addr option"
  spm_ServiceAccountName :: string
  spm_PodSecurityContext :: "addr option"
  spm_SecurityContext :: "addr option"
  spm_TerminationGracePeriodSeconds :: "addr option"
  spm_PodDisruptionBudget :: "addr option"

record autoscalingMem =
  astm_DesiredReplicas :: int32
  astm_RecommendedReplicas :: int32
  astm_WritesPerSecondPerNode :: "addr option"
  astm_QueueDepthPerNode :: "addr option"
  astm_AboveTargetSince :: "addr option"
  astm_BelowTargetSince :: "addr option"
  astm_LastScaleTime :: "addr option"

record backupMem =
  bstm_LastFullScheduleTime :: "addr option"
  bstm_LastIncrementalScheduleTime :: "addr option"
  bstm_LastSuccessfulTime :: "addr option"
  bstm_LastBackupID :: string
  bstm_LastBackupType :: string
  bstm_ConsecutiveFailures :: int32
  bstm_LastFailureTime :: "addr option"
  bstm_LastFailureMessage :: string
  bstm_UnclaimedSince :: "addr option"
  bstm_LastUnclaimedTime :: "addr option"

record statusMem =
  stm_ObservedGeneration :: int64
  stm_Phase :: "ClusterPhase option"
  stm_Replicas :: int32
  stm_ReadyReplicas :: int32
  stm_Voters :: int32
  stm_Learners :: int32
  stm_MembershipVersion :: int64
  stm_Members :: "addr option"
  stm_Bootstrapped :: bool
  stm_BootstrapSize :: int32
  stm_CurrentImage :: string
  stm_LabelSelector :: string
  stm_UpdatePartition :: "addr option"
  stm_Autoscaling :: "addr option"
  stm_Backup :: "addr option"
  stm_Conditions :: "addr option"

record clusterMem =
  kcm_ObjectMeta :: "string \<times> string \<times> int64" \<comment> \<open>name, namespace and generation\<close>
  kcm_Spec :: specMem
  kcm_Status :: statusMem

record clusterListMem =
  klm_ListMeta :: opaque
  klm_Items :: "addr option"

record KahunaClusterList =
  kl_ListMeta :: opaque
  kl_Items :: "KahunaCluster list"


section \<open>The store\<close>

datatype (plugins only: code size) cell =
    IntCell int
  | BoolCell bool
  | StringCell string
  | DurationCell duration
  | QuantityCell quantity
  | TimeCell gotime
  | SecretKeyCell SecretKeySelector
  | PortsCell PortsSpec
  | ReplicationCell ReplicationSpec
  | AffinityCell opaque
  | PodSecurityCell opaque
  | SecurityCell opaque
  | StringsCell "string list"
  | TolerationsCell "opaque list"
  | SpreadsCell "opaque list"
  | MembersCell "MemberStatus list"
  | ConditionsCell "Condition list"
  | LabelsCell "string \<rightharpoonup> string"
  | IssuerRefCell CertManagerIssuerRef
  | MemberCell MemberStatus
  | VolumeCell volumeMem
  | StorageCell storageMem
  | CertManagerCell certManagerMem
  | TLSCell tlsMem
  | RaftCell raftMem
  | TransactionsCell transactionsMem
  | WorkersCell workersMem
  | AutoscalingSpecCell autoscalingSpecMem
  | BackupVolumeCell backupVolumeMem
  | RetentionCell retentionMem
  | BackupSpecCell backupSpecMem
  | SpecCell specMem
  | AutoscalingCell autoscalingMem
  | BackupCell backupMem
  | StatusCell statusMem
  | ClusterCell clusterMem
  | ClustersCell "clusterMem list"
  | ClusterListCell clusterListMem

type_synonym cells = "addr \<rightharpoonup> cell"

record store =
  so_cells :: cells
  so_next :: addr

definition new :: "cell \<Rightarrow> store \<Rightarrow> store \<times> addr" where
  "new c s = (\<lparr>so_cells = (so_cells s)(so_next s \<mapsto> c), so_next = so_next s + 1\<rparr>, so_next s)"

text \<open>What a pointer of each type finds in its cell.\<close>

definition int_view :: "cell \<Rightarrow> int option" where
  "int_view c = (case c of IntCell v \<Rightarrow> Some v | _ \<Rightarrow> None)"

definition bool_view :: "cell \<Rightarrow> bool option" where
  "bool_view c = (case c of BoolCell v \<Rightarrow> Some v | _ \<Rightarrow> None)"

definition string_view :: "cell \<Rightarrow> string option" where
  "string_view c = (case c of StringCell v \<Rightarrow> Some v | _ \<Rightarrow> None)"

definition duration_view :: "cell \<Rightarrow> duration option" where
  "duration_view c = (case c of DurationCell v \<Rightarrow> Some v | _ \<Rightarrow> None)"

definition quantity_view :: "cell \<Rightarrow> quantity option" where
  "quantity_view c = (case c of QuantityCell v \<Rightarrow> Some v | _ \<Rightarrow> None)"

definition time_view :: "cell \<Rightarrow> gotime option" where
  "time_view c = (case c of TimeCell v \<Rightarrow> Some v | _ \<Rightarrow> None)"

definition secretKey_view :: "cell \<Rightarrow> SecretKeySelector option" where
  "secretKey_view c = (case c of SecretKeyCell v \<Rightarrow> Some v | _ \<Rightarrow> None)"

definition ports_view :: "cell \<Rightarrow> PortsSpec option" where
  "ports_view c = (case c of PortsCell v \<Rightarrow> Some v | _ \<Rightarrow> None)"

definition replication_view :: "cell \<Rightarrow> ReplicationSpec option" where
  "replication_view c = (case c of ReplicationCell v \<Rightarrow> Some v | _ \<Rightarrow> None)"

definition affinity_view :: "cell \<Rightarrow> opaque option" where
  "affinity_view c = (case c of AffinityCell v \<Rightarrow> Some v | _ \<Rightarrow> None)"

definition podSecurity_view :: "cell \<Rightarrow> opaque option" where
  "podSecurity_view c = (case c of PodSecurityCell v \<Rightarrow> Some v | _ \<Rightarrow> None)"

definition security_view :: "cell \<Rightarrow> opaque option" where
  "security_view c = (case c of SecurityCell v \<Rightarrow> Some v | _ \<Rightarrow> None)"

definition strings_view :: "cell \<Rightarrow> (string list) option" where
  "strings_view c = (case c of StringsCell v \<Rightarrow> Some v | _ \<Rightarrow> None)"

definition tolerations_view :: "cell \<Rightarrow> (opaque list) option" where
  "tolerations_view c = (case c of TolerationsCell v \<Rightarrow> Some v | _ \<Rightarrow> None)"

definition spreads_view :: "cell \<Rightarrow> (opaque list) option" where
  "spreads_view c = (case c of SpreadsCell v \<Rightarrow> Some v | _ \<Rightarrow> None)"

definition members_view :: "cell \<Rightarrow> (MemberStatus list) option" where
  "members_view c = (case c of MembersCell v \<Rightarrow> Some v | _ \<Rightarrow> None)"

definition conditions_view :: "cell \<Rightarrow> (Condition list) option" where
  "conditions_view c = (case c of ConditionsCell v \<Rightarrow> Some v | _ \<Rightarrow> None)"

definition labels_view :: "cell \<Rightarrow> (string \<rightharpoonup> string) option" where
  "labels_view c = (case c of LabelsCell v \<Rightarrow> Some v | _ \<Rightarrow> None)"

definition issuerRef_view :: "cell \<Rightarrow> CertManagerIssuerRef option" where
  "issuerRef_view c = (case c of IssuerRefCell v \<Rightarrow> Some v | _ \<Rightarrow> None)"

definition member_view :: "cell \<Rightarrow> MemberStatus option" where
  "member_view c = (case c of MemberCell v \<Rightarrow> Some v | _ \<Rightarrow> None)"

definition volume_view :: "cell \<Rightarrow> volumeMem option" where
  "volume_view c = (case c of VolumeCell v \<Rightarrow> Some v | _ \<Rightarrow> None)"

definition storage_view :: "cell \<Rightarrow> storageMem option" where
  "storage_view c = (case c of StorageCell v \<Rightarrow> Some v | _ \<Rightarrow> None)"

definition certManager_view :: "cell \<Rightarrow> certManagerMem option" where
  "certManager_view c = (case c of CertManagerCell v \<Rightarrow> Some v | _ \<Rightarrow> None)"

definition tls_view :: "cell \<Rightarrow> tlsMem option" where
  "tls_view c = (case c of TLSCell v \<Rightarrow> Some v | _ \<Rightarrow> None)"

definition raft_view :: "cell \<Rightarrow> raftMem option" where
  "raft_view c = (case c of RaftCell v \<Rightarrow> Some v | _ \<Rightarrow> None)"

definition transactions_view :: "cell \<Rightarrow> transactionsMem option" where
  "transactions_view c = (case c of TransactionsCell v \<Rightarrow> Some v | _ \<Rightarrow> None)"

definition workers_view :: "cell \<Rightarrow> workersMem option" where
  "workers_view c = (case c of WorkersCell v \<Rightarrow> Some v | _ \<Rightarrow> None)"

definition autoscalingSpec_view :: "cell \<Rightarrow> autoscalingSpecMem option" where
  "autoscalingSpec_view c = (case c of AutoscalingSpecCell v \<Rightarrow> Some v | _ \<Rightarrow> None)"

definition backupVolume_view :: "cell \<Rightarrow> backupVolumeMem option" where
  "backupVolume_view c = (case c of BackupVolumeCell v \<Rightarrow> Some v | _ \<Rightarrow> None)"

definition retention_view :: "cell \<Rightarrow> retentionMem option" where
  "retention_view c = (case c of RetentionCell v \<Rightarrow> Some v | _ \<Rightarrow> None)"

definition backupSpec_view :: "cell \<Rightarrow> backupSpecMem option" where
  "backupSpec_view c = (case c of BackupSpecCell v \<Rightarrow> Some v | _ \<Rightarrow> None)"

definition spec_view :: "cell \<Rightarrow> specMem option" where
  "spec_view c = (case c of SpecCell v \<Rightarrow> Some v | _ \<Rightarrow> None)"

definition autoscaling_view :: "cell \<Rightarrow> autoscalingMem option" where
  "autoscaling_view c = (case c of AutoscalingCell v \<Rightarrow> Some v | _ \<Rightarrow> None)"

definition backup_view :: "cell \<Rightarrow> backupMem option" where
  "backup_view c = (case c of BackupCell v \<Rightarrow> Some v | _ \<Rightarrow> None)"

definition status_view :: "cell \<Rightarrow> statusMem option" where
  "status_view c = (case c of StatusCell v \<Rightarrow> Some v | _ \<Rightarrow> None)"

definition cluster_view :: "cell \<Rightarrow> clusterMem option" where
  "cluster_view c = (case c of ClusterCell v \<Rightarrow> Some v | _ \<Rightarrow> None)"

definition clusters_view :: "cell \<Rightarrow> (clusterMem list) option" where
  "clusters_view c = (case c of ClustersCell v \<Rightarrow> Some v | _ \<Rightarrow> None)"

definition clusterList_view :: "cell \<Rightarrow> clusterListMem option" where
  "clusterList_view c = (case c of ClusterListCell v \<Rightarrow> Some v | _ \<Rightarrow> None)"

lemma views [simp]:
  "int_view (IntCell vIntCell) = Some vIntCell"
  "bool_view (BoolCell vBoolCell) = Some vBoolCell"
  "string_view (StringCell vStringCell) = Some vStringCell"
  "duration_view (DurationCell vDurationCell) = Some vDurationCell"
  "quantity_view (QuantityCell vQuantityCell) = Some vQuantityCell"
  "time_view (TimeCell vTimeCell) = Some vTimeCell"
  "secretKey_view (SecretKeyCell vSecretKeyCell) = Some vSecretKeyCell"
  "ports_view (PortsCell vPortsCell) = Some vPortsCell"
  "replication_view (ReplicationCell vReplicationCell) = Some vReplicationCell"
  "affinity_view (AffinityCell vAffinityCell) = Some vAffinityCell"
  "podSecurity_view (PodSecurityCell vPodSecurityCell) = Some vPodSecurityCell"
  "security_view (SecurityCell vSecurityCell) = Some vSecurityCell"
  "strings_view (StringsCell vStringsCell) = Some vStringsCell"
  "tolerations_view (TolerationsCell vTolerationsCell) = Some vTolerationsCell"
  "spreads_view (SpreadsCell vSpreadsCell) = Some vSpreadsCell"
  "members_view (MembersCell vMembersCell) = Some vMembersCell"
  "conditions_view (ConditionsCell vConditionsCell) = Some vConditionsCell"
  "labels_view (LabelsCell vLabelsCell) = Some vLabelsCell"
  "issuerRef_view (IssuerRefCell vIssuerRefCell) = Some vIssuerRefCell"
  "member_view (MemberCell vMemberCell) = Some vMemberCell"
  "volume_view (VolumeCell vVolumeCell) = Some vVolumeCell"
  "storage_view (StorageCell vStorageCell) = Some vStorageCell"
  "certManager_view (CertManagerCell vCertManagerCell) = Some vCertManagerCell"
  "tls_view (TLSCell vTLSCell) = Some vTLSCell"
  "raft_view (RaftCell vRaftCell) = Some vRaftCell"
  "transactions_view (TransactionsCell vTransactionsCell) = Some vTransactionsCell"
  "workers_view (WorkersCell vWorkersCell) = Some vWorkersCell"
  "autoscalingSpec_view (AutoscalingSpecCell vAutoscalingSpecCell) = Some vAutoscalingSpecCell"
  "backupVolume_view (BackupVolumeCell vBackupVolumeCell) = Some vBackupVolumeCell"
  "retention_view (RetentionCell vRetentionCell) = Some vRetentionCell"
  "backupSpec_view (BackupSpecCell vBackupSpecCell) = Some vBackupSpecCell"
  "spec_view (SpecCell vSpecCell) = Some vSpecCell"
  "autoscaling_view (AutoscalingCell vAutoscalingCell) = Some vAutoscalingCell"
  "backup_view (BackupCell vBackupCell) = Some vBackupCell"
  "status_view (StatusCell vStatusCell) = Some vStatusCell"
  "cluster_view (ClusterCell vClusterCell) = Some vClusterCell"
  "clusters_view (ClustersCell vClustersCell) = Some vClustersCell"
  "clusterList_view (ClusterListCell vClusterListCell) = Some vClusterListCell"
  by (simp_all add: int_view_def bool_view_def string_view_def duration_view_def quantity_view_def time_view_def secretKey_view_def ports_view_def replication_view_def affinity_view_def podSecurity_view_def security_view_def strings_view_def tolerations_view_def spreads_view_def members_view_def conditions_view_def labels_view_def issuerRef_view_def member_view_def volume_view_def storage_view_def certManager_view_def tls_view_def raft_view_def transactions_view_def workers_view_def autoscalingSpec_view_def backupVolume_view_def retention_view_def backupSpec_view_def spec_view_def autoscaling_view_def backup_view_def status_view_def cluster_view_def clusters_view_def clusterList_view_def)


section \<open>The value of a struct\<close>

text \<open>A pointer is nil or reads what is behind it; a value reads as itself.\<close>

definition as_is :: "cells \<Rightarrow> 'v \<Rightarrow> 'v option" where
  "as_is m v = Some v"

definition load_ref :: "(cell \<Rightarrow> 'r option) \<Rightarrow> (cells \<Rightarrow> 'r \<Rightarrow> 'v option) \<Rightarrow> cells \<Rightarrow> addr option \<Rightarrow> 'v option option" where
  "load_ref view load m p =
     (case p of
        None \<Rightarrow> Some None
      | Some a \<Rightarrow> do {c \<leftarrow> m a; x \<leftarrow> view c; v \<leftarrow> load m x; Some (Some v)})"

fun load_list :: "(cells \<Rightarrow> 'r \<Rightarrow> 'v option) \<Rightarrow> cells \<Rightarrow> 'r list \<Rightarrow> 'v list option" where
  "load_list load m [] = Some []"
| "load_list load m (x # xs) = do {v \<leftarrow> load m x; vs \<leftarrow> load_list load m xs; Some (v # vs)}"

text \<open>A nil slice reads as the empty slice, a nil map as the empty map.\<close>

definition nil_as :: "'v \<Rightarrow> 'v option \<Rightarrow> 'v" where
  "nil_as v p = (case p of None \<Rightarrow> v | Some x \<Rightarrow> x)"

abbreviation load_int :: "cells \<Rightarrow> addr option \<Rightarrow> int option option" where
  "load_int \<equiv> load_ref int_view as_is"

abbreviation load_bool :: "cells \<Rightarrow> addr option \<Rightarrow> bool option option" where
  "load_bool \<equiv> load_ref bool_view as_is"

abbreviation load_str :: "cells \<Rightarrow> addr option \<Rightarrow> string option option" where
  "load_str \<equiv> load_ref string_view as_is"

abbreviation load_duration :: "cells \<Rightarrow> addr option \<Rightarrow> duration option option" where
  "load_duration \<equiv> load_ref duration_view as_is"

abbreviation load_quantity :: "cells \<Rightarrow> addr option \<Rightarrow> quantity option option" where
  "load_quantity \<equiv> load_ref quantity_view as_is"

abbreviation load_time :: "cells \<Rightarrow> addr option \<Rightarrow> gotime option option" where
  "load_time \<equiv> load_ref time_view as_is"

abbreviation load_secret :: "cells \<Rightarrow> addr option \<Rightarrow> SecretKeySelector option option" where
  "load_secret \<equiv> load_ref secretKey_view as_is"

abbreviation load_ports :: "cells \<Rightarrow> addr option \<Rightarrow> PortsSpec option option" where
  "load_ports \<equiv> load_ref ports_view as_is"

abbreviation load_replication :: "cells \<Rightarrow> addr option \<Rightarrow> ReplicationSpec option option" where
  "load_replication \<equiv> load_ref replication_view as_is"

abbreviation load_affinity :: "cells \<Rightarrow> addr option \<Rightarrow> opaque option option" where
  "load_affinity \<equiv> load_ref affinity_view as_is"

abbreviation load_podsec :: "cells \<Rightarrow> addr option \<Rightarrow> opaque option option" where
  "load_podsec \<equiv> load_ref podSecurity_view as_is"

abbreviation load_sec :: "cells \<Rightarrow> addr option \<Rightarrow> opaque option option" where
  "load_sec \<equiv> load_ref security_view as_is"

abbreviation load_strings :: "cells \<Rightarrow> addr option \<Rightarrow> (string list) option option" where
  "load_strings \<equiv> load_ref strings_view as_is"

abbreviation load_tolerations :: "cells \<Rightarrow> addr option \<Rightarrow> (opaque list) option option" where
  "load_tolerations \<equiv> load_ref tolerations_view as_is"

abbreviation load_spreads :: "cells \<Rightarrow> addr option \<Rightarrow> (opaque list) option option" where
  "load_spreads \<equiv> load_ref spreads_view as_is"

abbreviation load_members :: "cells \<Rightarrow> addr option \<Rightarrow> (MemberStatus list) option option" where
  "load_members \<equiv> load_ref members_view as_is"

abbreviation load_conditions :: "cells \<Rightarrow> addr option \<Rightarrow> (Condition list) option option" where
  "load_conditions \<equiv> load_ref conditions_view as_is"

abbreviation load_labels :: "cells \<Rightarrow> addr option \<Rightarrow> (string \<rightharpoonup> string) option option" where
  "load_labels \<equiv> load_ref labels_view as_is"

definition load_VolumeSpec :: "cells \<Rightarrow> volumeMem \<Rightarrow> VolumeSpec option" where
  "load_VolumeSpec m x = do {
     s2 \<leftarrow> as_is m (vsm_Size x);
     scn \<leftarrow> load_str m (vsm_StorageClassName x);
     am \<leftarrow> load_strings m (vsm_AccessModes x);
     Some \<lparr>vs_Size = s2, vs_StorageClassName = scn, vs_AccessModes = nil_as [] am\<rparr>
   }"

abbreviation load_VolumeSpec_ref :: "cells \<Rightarrow> addr option \<Rightarrow> VolumeSpec option option" where
  "load_VolumeSpec_ref \<equiv> load_ref volume_view load_VolumeSpec"

definition load_StorageSpec :: "cells \<Rightarrow> storageMem \<Rightarrow> StorageSpec option" where
  "load_StorageSpec m x = do {
     d \<leftarrow> load_VolumeSpec m (stom_Data x);
     wal \<leftarrow> load_VolumeSpec_ref m (stom_WAL x);
     sw \<leftarrow> load_bool m (stom_SyncWrites x);
     dr \<leftarrow> load_bool m (stom_DirectReads x);
     sm \<leftarrow> load_bool m (stom_SharedMemory x);
     smb \<leftarrow> load_int m (stom_SharedMemoryBudgetMB x);
     smb2 \<leftarrow> load_int m (stom_SharedMemtableBudgetMB x);
     Some \<lparr>sto_Backend = stom_Backend x, sto_Revision = stom_Revision x, sto_WALBackend = stom_WALBackend x,
       sto_WALRevision = stom_WALRevision x, sto_Data = d, sto_WAL = wal, sto_SyncWrites = sw,
       sto_DirectReads = dr, sto_SharedMemory = sm, sto_SharedMemoryBudgetMB = smb,
       sto_SharedMemtableBudgetMB = smb2, sto_PVCRetentionPolicy = stom_PVCRetentionPolicy x\<rparr>
   }"

abbreviation load_StorageSpec_ref :: "cells \<Rightarrow> addr option \<Rightarrow> StorageSpec option option" where
  "load_StorageSpec_ref \<equiv> load_ref storage_view load_StorageSpec"

definition load_CertManagerSpec :: "cells \<Rightarrow> certManagerMem \<Rightarrow> CertManagerSpec option" where
  "load_CertManagerSpec m x = do {
     d \<leftarrow> load_duration m (cmsm_Duration x);
     rb \<leftarrow> load_duration m (cmsm_RenewBefore x);
     Some \<lparr>cms_IssuerRef = cmsm_IssuerRef x, cms_Duration = d, cms_RenewBefore = rb\<rparr>
   }"

abbreviation load_CertManagerSpec_ref :: "cells \<Rightarrow> addr option \<Rightarrow> CertManagerSpec option option" where
  "load_CertManagerSpec_ref \<equiv> load_ref certManager_view load_CertManagerSpec"

definition load_TLSSpec :: "cells \<Rightarrow> tlsMem \<Rightarrow> TLSSpec option" where
  "load_TLSSpec m x = do {
     sr \<leftarrow> load_str m (tlsm_SecretRef x);
     psr \<leftarrow> load_secret m (tlsm_PasswordSecretRef x);
     cm \<leftarrow> load_CertManagerSpec_ref m (tlsm_CertManager x);
     isv \<leftarrow> load_bool m (tlsm_InsecureSkipVerify x);
     Some \<lparr>tls_SecretRef = sr, tls_KeystoreKey = tlsm_KeystoreKey x, tls_PasswordSecretRef = psr,
       tls_CertManager = cm, tls_InsecureSkipVerify = isv\<rparr>
   }"

abbreviation load_TLSSpec_ref :: "cells \<Rightarrow> addr option \<Rightarrow> TLSSpec option option" where
  "load_TLSSpec_ref \<equiv> load_ref tls_view load_TLSSpec"

definition load_RaftSpec :: "cells \<Rightarrow> raftMem \<Rightarrow> RaftSpec option" where
  "load_RaftSpec m x = do {
     him \<leftarrow> load_int m (rftm_HeartbeatIntervalMs x);
     vtm \<leftarrow> load_int m (rftm_VotingTimeoutMs x);
     set \<leftarrow> load_int m (rftm_StartElectionTimeoutMs x);
     eet \<leftarrow> load_int m (rftm_EndElectionTimeoutMs x);
     ecq \<leftarrow> load_bool m (rftm_EnableCheckQuorum x);
     gim \<leftarrow> load_int m (rftm_GossipIntervalMs x);
     gf \<leftarrow> load_int m (rftm_GossipFanout x);
     ptm \<leftarrow> load_int m (rftm_PingTimeoutMs x);
     ipf \<leftarrow> load_int m (rftm_IndirectPingFanout x);
     stm \<leftarrow> load_int m (rftm_SuspicionTimeoutMs x);
     dme \<leftarrow> load_int m (rftm_DeadMemberEvictionGraceMs x);
     bt \<leftarrow> load_int m (rftm_BackfillThreshold x);
     mbe \<leftarrow> load_int m (rftm_MaxBackfillEntriesPerRound x);
     lpl \<leftarrow> load_int m (rftm_LearnerPromotionLag x);
     lps \<leftarrow> load_int m (rftm_LearnerPromotionStableWindowMs x);
     Some \<lparr>rft_HeartbeatIntervalMs = him, rft_VotingTimeoutMs = vtm, rft_StartElectionTimeoutMs = set,
       rft_EndElectionTimeoutMs = eet, rft_EnableCheckQuorum = ecq, rft_GossipIntervalMs = gim,
       rft_GossipFanout = gf, rft_PingTimeoutMs = ptm, rft_IndirectPingFanout = ipf,
       rft_SuspicionTimeoutMs = stm, rft_DeadMemberEvictionGraceMs = dme, rft_BackfillThreshold = bt,
       rft_MaxBackfillEntriesPerRound = mbe, rft_LearnerPromotionLag = lpl,
       rft_LearnerPromotionStableWindowMs = lps\<rparr>
   }"

abbreviation load_RaftSpec_ref :: "cells \<Rightarrow> addr option \<Rightarrow> RaftSpec option option" where
  "load_RaftSpec_ref \<equiv> load_ref raft_view load_RaftSpec"

definition load_TransactionsSpec :: "cells \<Rightarrow> transactionsMem \<Rightarrow> TransactionsSpec option" where
  "load_TransactionsSpec m x = do {
     dtm \<leftarrow> load_int m (txnm_DefaultTimeoutMs x);
     daw \<leftarrow> load_int m (txnm_DefaultAdmissionWaitMs x);
     maw \<leftarrow> load_int m (txnm_MaxAdmissionWaitMs x);
     mct \<leftarrow> load_int m (txnm_MaxConcurrentTransactions x);
     mcs \<leftarrow> load_int m (txnm_MaxConcurrentSessions x);
     Some \<lparr>txn_DefaultTimeoutMs = dtm, txn_DefaultAdmissionWaitMs = daw, txn_MaxAdmissionWaitMs = maw,
       txn_MaxConcurrentTransactions = mct, txn_MaxConcurrentSessions = mcs\<rparr>
   }"

abbreviation load_TransactionsSpec_ref :: "cells \<Rightarrow> addr option \<Rightarrow> TransactionsSpec option option" where
  "load_TransactionsSpec_ref \<equiv> load_ref transactions_view load_TransactionsSpec"

definition load_WorkersSpec :: "cells \<Rightarrow> workersMem \<Rightarrow> WorkersSpec option" where
  "load_WorkersSpec m x = do {
     l \<leftarrow> load_int m (wrkm_Locks x);
     kv \<leftarrow> load_int m (wrkm_KeyValue x);
     s2 \<leftarrow> load_int m (wrkm_Sequencer x);
     bw \<leftarrow> load_int m (wrkm_BackgroundWriter x);
     Some \<lparr>wrk_Locks = l, wrk_KeyValue = kv, wrk_Sequencer = s2, wrk_BackgroundWriter = bw\<rparr>
   }"

abbreviation load_WorkersSpec_ref :: "cells \<Rightarrow> addr option \<Rightarrow> WorkersSpec option option" where
  "load_WorkersSpec_ref \<equiv> load_ref workers_view load_WorkersSpec"

definition load_AutoscalingSpec :: "cells \<Rightarrow> autoscalingSpecMem \<Rightarrow> AutoscalingSpec option" where
  "load_AutoscalingSpec m x = do {
     twp \<leftarrow> load_int m (ausm_TargetWritesPerSecond x);
     tqd \<leftarrow> load_int m (ausm_TargetQueueDepth x);
     sus \<leftarrow> load_int m (ausm_ScaleUpStabilizationSeconds x);
     sds \<leftarrow> load_int m (ausm_ScaleDownStabilizationSeconds x);
     tp \<leftarrow> load_int m (ausm_TolerancePercent x);
     Some \<lparr>aus_MinReplicas = ausm_MinReplicas x, aus_MaxReplicas = ausm_MaxReplicas x,
       aus_TargetWritesPerSecond = twp, aus_TargetQueueDepth = tqd, aus_ScaleUpStabilizationSeconds = sus,
       aus_ScaleDownStabilizationSeconds = sds, aus_TolerancePercent = tp\<rparr>
   }"

abbreviation load_AutoscalingSpec_ref :: "cells \<Rightarrow> addr option \<Rightarrow> AutoscalingSpec option option" where
  "load_AutoscalingSpec_ref \<equiv> load_ref autoscalingSpec_view load_AutoscalingSpec"

definition load_BackupVolumeSpec :: "cells \<Rightarrow> backupVolumeMem \<Rightarrow> BackupVolumeSpec option" where
  "load_BackupVolumeSpec m x = do {
     cn \<leftarrow> load_str m (bvsm_ClaimName x);
     c \<leftarrow> load_VolumeSpec_ref m (bvsm_Claim x);
     Some \<lparr>bvs_ClaimName = cn, bvs_Claim = c\<rparr>
   }"

abbreviation load_BackupVolumeSpec_ref :: "cells \<Rightarrow> addr option \<Rightarrow> BackupVolumeSpec option option" where
  "load_BackupVolumeSpec_ref \<equiv> load_ref backupVolume_view load_BackupVolumeSpec"

definition load_BackupRetentionSpec :: "cells \<Rightarrow> retentionMem \<Rightarrow> BackupRetentionSpec option" where
  "load_BackupRetentionSpec m x = do {
     mc2 \<leftarrow> load_int m (brsm_MaxChains x);
     ma \<leftarrow> load_duration m (brsm_MaxAge x);
     mb \<leftarrow> load_quantity m (brsm_MaxBytes x);
     Some \<lparr>brs_MaxChains = mc2, brs_MaxAge = ma, brs_MaxBytes = mb\<rparr>
   }"

abbreviation load_BackupRetentionSpec_ref :: "cells \<Rightarrow> addr option \<Rightarrow> BackupRetentionSpec option option" where
  "load_BackupRetentionSpec_ref \<equiv> load_ref retention_view load_BackupRetentionSpec"

definition load_BackupSpec :: "cells \<Rightarrow> backupSpecMem \<Rightarrow> BackupSpec option" where
  "load_BackupSpec m x = do {
     s2 \<leftarrow> load_bool m (bksm_Suspend x);
     t \<leftarrow> load_duration m (bksm_Timeout x);
     v \<leftarrow> load_BackupVolumeSpec m (bksm_Volume x);
     mac \<leftarrow> load_secret m (bksm_MACKeySecretRef x);
     r \<leftarrow> load_BackupRetentionSpec_ref m (bksm_Retention x);
     Some \<lparr>bks_Schedule = bksm_Schedule x, bks_IncrementalSchedule = bksm_IncrementalSchedule x, bks_Suspend = s2,
       bks_Timeout = t, bks_Volume = v, bks_ClusterID = bksm_ClusterID x, bks_MACKeySecretRef = mac,
       bks_Retention = r\<rparr>
   }"

abbreviation load_BackupSpec_ref :: "cells \<Rightarrow> addr option \<Rightarrow> BackupSpec option option" where
  "load_BackupSpec_ref \<equiv> load_ref backupSpec_view load_BackupSpec"

definition load_KahunaClusterSpec :: "cells \<Rightarrow> specMem \<Rightarrow> KahunaClusterSpec option" where
  "load_KahunaClusterSpec m x = do {
     r \<leftarrow> load_int m (spm_Replicas x);
     r2 \<leftarrow> load_replication m (spm_Replication x);
     a \<leftarrow> load_AutoscalingSpec_ref m (spm_Autoscaling x);
     b \<leftarrow> load_BackupSpec_ref m (spm_Backup x);
     ips \<leftarrow> load_strings m (spm_ImagePullSecrets x);
     p \<leftarrow> load_int m (spm_Partitions x);
     s2 \<leftarrow> load_StorageSpec m (spm_Storage x);
     tls \<leftarrow> load_TLSSpec m (spm_TLS x);
     p2 \<leftarrow> load_ports m (spm_Ports x);
     r3 \<leftarrow> load_RaftSpec_ref m (spm_Raft x);
     t \<leftarrow> load_TransactionsSpec_ref m (spm_Transactions x);
     w \<leftarrow> load_WorkersSpec_ref m (spm_Workers x);
     ea \<leftarrow> load_strings m (spm_ExtraArgs x);
     r4 \<leftarrow> as_is m (spm_Resources x);
     ns \<leftarrow> load_labels m (spm_NodeSelector x);
     t2 \<leftarrow> load_tolerations m (spm_Tolerations x);
     a2 \<leftarrow> load_affinity m (spm_Affinity x);
     tsc \<leftarrow> load_spreads m (spm_TopologySpreadConstraints x);
     pa \<leftarrow> load_labels m (spm_PodAnnotations x);
     pl \<leftarrow> load_labels m (spm_PodLabels x);
     psc \<leftarrow> load_podsec m (spm_PodSecurityContext x);
     sc \<leftarrow> load_sec m (spm_SecurityContext x);
     tgp \<leftarrow> load_int m (spm_TerminationGracePeriodSeconds x);
     pdb \<leftarrow> load_bool m (spm_PodDisruptionBudget x);
     Some \<lparr>sp_Replicas = r, sp_Replication = r2, sp_Autoscaling = a, sp_Backup = b, sp_Image = spm_Image x,
       sp_ImagePullPolicy = spm_ImagePullPolicy x, sp_ImagePullSecrets = nil_as [] ips, sp_Partitions = p,
       sp_Storage = s2, sp_TLS = tls, sp_Ports = p2, sp_Raft = r3, sp_Transactions = t, sp_Workers = w,
       sp_LogLevel = spm_LogLevel x, sp_ExtraArgs = nil_as [] ea, sp_Resources = r4,
       sp_NodeSelector = nil_as Map.empty ns, sp_Tolerations = nil_as [] t2, sp_Affinity = a2,
       sp_TopologySpreadConstraints = nil_as [] tsc, sp_PodAnnotations = nil_as Map.empty pa,
       sp_PodLabels = nil_as Map.empty pl, sp_ServiceAccountName = spm_ServiceAccountName x,
       sp_PodSecurityContext = psc, sp_SecurityContext = sc, sp_TerminationGracePeriodSeconds = tgp,
       sp_PodDisruptionBudget = pdb\<rparr>
   }"

abbreviation load_KahunaClusterSpec_ref :: "cells \<Rightarrow> addr option \<Rightarrow> KahunaClusterSpec option option" where
  "load_KahunaClusterSpec_ref \<equiv> load_ref spec_view load_KahunaClusterSpec"

definition load_AutoscalingStatus :: "cells \<Rightarrow> autoscalingMem \<Rightarrow> AutoscalingStatus option" where
  "load_AutoscalingStatus m x = do {
     wps \<leftarrow> load_int m (astm_WritesPerSecondPerNode x);
     qdp \<leftarrow> load_int m (astm_QueueDepthPerNode x);
     ats \<leftarrow> load_time m (astm_AboveTargetSince x);
     bts \<leftarrow> load_time m (astm_BelowTargetSince x);
     lst \<leftarrow> load_time m (astm_LastScaleTime x);
     Some \<lparr>ast_DesiredReplicas = astm_DesiredReplicas x, ast_RecommendedReplicas = astm_RecommendedReplicas x,
       ast_WritesPerSecondPerNode = wps, ast_QueueDepthPerNode = qdp, ast_AboveTargetSince = ats,
       ast_BelowTargetSince = bts, ast_LastScaleTime = lst\<rparr>
   }"

abbreviation load_AutoscalingStatus_ref :: "cells \<Rightarrow> addr option \<Rightarrow> AutoscalingStatus option option" where
  "load_AutoscalingStatus_ref \<equiv> load_ref autoscaling_view load_AutoscalingStatus"

definition load_BackupStatus :: "cells \<Rightarrow> backupMem \<Rightarrow> BackupStatus option" where
  "load_BackupStatus m x = do {
     lfs \<leftarrow> load_time m (bstm_LastFullScheduleTime x);
     lis \<leftarrow> load_time m (bstm_LastIncrementalScheduleTime x);
     lst \<leftarrow> load_time m (bstm_LastSuccessfulTime x);
     lft \<leftarrow> load_time m (bstm_LastFailureTime x);
     us \<leftarrow> load_time m (bstm_UnclaimedSince x);
     lut \<leftarrow> load_time m (bstm_LastUnclaimedTime x);
     Some \<lparr>bst_LastFullScheduleTime = lfs, bst_LastIncrementalScheduleTime = lis, bst_LastSuccessfulTime = lst,
       bst_LastBackupID = bstm_LastBackupID x, bst_LastBackupType = bstm_LastBackupType x,
       bst_ConsecutiveFailures = bstm_ConsecutiveFailures x, bst_LastFailureTime = lft,
       bst_LastFailureMessage = bstm_LastFailureMessage x, bst_UnclaimedSince = us,
       bst_LastUnclaimedTime = lut\<rparr>
   }"

abbreviation load_BackupStatus_ref :: "cells \<Rightarrow> addr option \<Rightarrow> BackupStatus option option" where
  "load_BackupStatus_ref \<equiv> load_ref backup_view load_BackupStatus"

definition load_KahunaClusterStatus :: "cells \<Rightarrow> statusMem \<Rightarrow> KahunaClusterStatus option" where
  "load_KahunaClusterStatus m x = do {
     m2 \<leftarrow> load_members m (stm_Members x);
     up \<leftarrow> load_int m (stm_UpdatePartition x);
     a \<leftarrow> load_AutoscalingStatus_ref m (stm_Autoscaling x);
     b \<leftarrow> load_BackupStatus_ref m (stm_Backup x);
     c \<leftarrow> load_conditions m (stm_Conditions x);
     Some \<lparr>st_ObservedGeneration = stm_ObservedGeneration x, st_Phase = stm_Phase x, st_Replicas = stm_Replicas x,
       st_ReadyReplicas = stm_ReadyReplicas x, st_Voters = stm_Voters x, st_Learners = stm_Learners x,
       st_MembershipVersion = stm_MembershipVersion x, st_Members = nil_as [] m2,
       st_Bootstrapped = stm_Bootstrapped x, st_BootstrapSize = stm_BootstrapSize x,
       st_CurrentImage = stm_CurrentImage x, st_LabelSelector = stm_LabelSelector x, st_UpdatePartition = up,
       st_Autoscaling = a, st_Backup = b, st_Conditions = nil_as [] c\<rparr>
   }"

abbreviation load_KahunaClusterStatus_ref :: "cells \<Rightarrow> addr option \<Rightarrow> KahunaClusterStatus option option" where
  "load_KahunaClusterStatus_ref \<equiv> load_ref status_view load_KahunaClusterStatus"

definition load_KahunaCluster :: "cells \<Rightarrow> clusterMem \<Rightarrow> KahunaCluster option" where
  "load_KahunaCluster m x = do {
     om \<leftarrow> as_is m (kcm_ObjectMeta x);
     sp \<leftarrow> load_KahunaClusterSpec m (kcm_Spec x);
     st \<leftarrow> load_KahunaClusterStatus m (kcm_Status x);
     Some \<lparr>kc_Name = fst om, kc_Namespace = fst (snd om), kc_Generation = snd (snd om), kc_Spec = sp, kc_Status = st\<rparr>
   }"

abbreviation load_KahunaCluster_ref :: "cells \<Rightarrow> addr option \<Rightarrow> KahunaCluster option option" where
  "load_KahunaCluster_ref \<equiv> load_ref cluster_view load_KahunaCluster"

definition load_KahunaClusterList :: "cells \<Rightarrow> clusterListMem \<Rightarrow> KahunaClusterList option" where
  "load_KahunaClusterList m x = do {
     lm \<leftarrow> as_is m (klm_ListMeta x);
     i \<leftarrow> load_ref clusters_view (load_list load_KahunaCluster) m (klm_Items x);
     Some \<lparr>kl_ListMeta = lm, kl_Items = nil_as [] i\<rparr>
   }"

abbreviation load_KahunaClusterList_ref :: "cells \<Rightarrow> addr option \<Rightarrow> KahunaClusterList option option" where
  "load_KahunaClusterList_ref \<equiv> load_ref clusterList_view load_KahunaClusterList"

end
