(* ===== verification/Deep_Copy.thy ===== *)
theory Deep_Copy
  imports Object_Memory
begin

text \<open>
  The deep copies of \<open>src/api/v1alpha1/zz_generated.deepcopy.go\<close>. \<open>X_DeepCopyInto\<close> returns the struct it
  fills and the store with the cells it allocated: the shallow copy with every pointer, slice and map
  replaced. \<open>X_DeepCopy\<close> does the same behind a pointer. A new cell is entered once its contents are
  copied; Go allocates it just before, which no program can tell apart. The copies of the structs of the Kubernetes
  libraries are the parameter \<open>mc\<close>, and \<open>meta_copy_laws\<close> says that they copy.

  The locale \<open>deep_copy\<close> is the contract of a copy: it reads the same value, all of it from cells that
  did not exist before. Copies compose (\<open>copying\<close> for the fields of a struct, \<open>deep_copy_ref\<close> for pointers,
  \<open>deep_copy_list\<close> for slices of structs); the locale is interpreted on the copies of plain pointers, slices and
  maps, and each struct's copy meets the contract under the laws of \<open>mc\<close>.
\<close>


section \<open>What the Kubernetes libraries copy\<close>

record metaCopy =
  mc_Time :: "gotime \<Rightarrow> gotime"
  mc_Condition :: "Condition \<Rightarrow> Condition"
  mc_Quantity :: "quantity \<Rightarrow> quantity"
  mc_SecretKeySelector :: "SecretKeySelector \<Rightarrow> SecretKeySelector"
  mc_Resources :: "opaque \<Rightarrow> opaque"
  mc_Toleration :: "opaque \<Rightarrow> opaque"
  mc_Affinity :: "opaque \<Rightarrow> opaque"
  mc_TopologySpreadConstraint :: "opaque \<Rightarrow> opaque"
  mc_PodSecurityContext :: "opaque \<Rightarrow> opaque"
  mc_SecurityContext :: "opaque \<Rightarrow> opaque"
  mc_ObjectMeta :: "string \<times> string \<times> int64 \<Rightarrow> string \<times> string \<times> int64"
  mc_ListMeta :: "opaque \<Rightarrow> opaque"

definition meta_copy_laws :: "metaCopy \<Rightarrow> bool" where
  "meta_copy_laws mc \<longleftrightarrow> (\<forall>x. mc_Time mc x = x) \<and> (\<forall>x. mc_Condition mc x = x) \<and> (\<forall>x. mc_Quantity mc x = x) \<and>
     (\<forall>x. mc_SecretKeySelector mc x = x) \<and> (\<forall>x. mc_Resources mc x = x) \<and> (\<forall>x. mc_Toleration mc x = x) \<and>
     (\<forall>x. mc_Affinity mc x = x) \<and> (\<forall>x. mc_TopologySpreadConstraint mc x = x) \<and>
     (\<forall>x. mc_PodSecurityContext mc x = x) \<and> (\<forall>x. mc_SecurityContext mc x = x) \<and> (\<forall>x. mc_ObjectMeta mc x = x) \<and>
     (\<forall>x. mc_ListMeta mc x = x)"


section \<open>The copies\<close>

definition assign :: "('v \<Rightarrow> 'v) \<Rightarrow> store \<Rightarrow> 'v \<Rightarrow> (store \<times> 'v) option" where
  "assign f s v = Some (s, f v)"

text \<open>A pointer, slice or map: nil stays nil, otherwise a new cell is filled with a copy of the contents.\<close>

definition copy_ref :: "(cell \<Rightarrow> 'r option) \<Rightarrow> ('r \<Rightarrow> cell) \<Rightarrow> (store \<Rightarrow> 'r \<Rightarrow> (store \<times> 'r) option) \<Rightarrow> store \<Rightarrow> addr option \<Rightarrow> (store \<times> addr option) option" where
  "copy_ref view mk into s p =
     (case p of
        None \<Rightarrow> Some (s, None)
      | Some a \<Rightarrow> do {
          c \<leftarrow> so_cells s a;
          x \<leftarrow> view c;
          (s, y) \<leftarrow> into s x;
          let (s, b) = new (mk y) s;
          Some (s, Some b)
        })"

fun copy_list :: "(store \<Rightarrow> 'r \<Rightarrow> (store \<times> 'r) option) \<Rightarrow> store \<Rightarrow> 'r list \<Rightarrow> (store \<times> 'r list) option" where
  "copy_list into s [] = Some (s, [])"
| "copy_list into s (x # xs) = do {(s, y) \<leftarrow> into s x; (s, ys) \<leftarrow> copy_list into s xs; Some (s, y # ys)}"

text \<open>
  The kinds of contents: values assigned, values with a \<open>DeepCopy\<close> of their own, and slices of either.
\<close>

abbreviation copy_int :: "store \<Rightarrow> addr option \<Rightarrow> (store \<times> addr option) option" where
  "copy_int \<equiv> copy_ref int_view IntCell (assign (\<lambda>v. v))"

abbreviation copy_bool :: "store \<Rightarrow> addr option \<Rightarrow> (store \<times> addr option) option" where
  "copy_bool \<equiv> copy_ref bool_view BoolCell (assign (\<lambda>v. v))"

abbreviation copy_str :: "store \<Rightarrow> addr option \<Rightarrow> (store \<times> addr option) option" where
  "copy_str \<equiv> copy_ref string_view StringCell (assign (\<lambda>v. v))"

abbreviation copy_duration :: "store \<Rightarrow> addr option \<Rightarrow> (store \<times> addr option) option" where
  "copy_duration \<equiv> copy_ref duration_view DurationCell (assign (\<lambda>v. v))"

abbreviation copy_quantity :: "metaCopy \<Rightarrow> store \<Rightarrow> addr option \<Rightarrow> (store \<times> addr option) option" where
  "copy_quantity mc \<equiv> copy_ref quantity_view QuantityCell (assign (mc_Quantity mc))"

abbreviation copy_time :: "metaCopy \<Rightarrow> store \<Rightarrow> addr option \<Rightarrow> (store \<times> addr option) option" where
  "copy_time mc \<equiv> copy_ref time_view TimeCell (assign (mc_Time mc))"

abbreviation copy_secret :: "metaCopy \<Rightarrow> store \<Rightarrow> addr option \<Rightarrow> (store \<times> addr option) option" where
  "copy_secret mc \<equiv> copy_ref secretKey_view SecretKeyCell (assign (mc_SecretKeySelector mc))"

abbreviation copy_ports :: "store \<Rightarrow> addr option \<Rightarrow> (store \<times> addr option) option" where
  "copy_ports \<equiv> copy_ref ports_view PortsCell (assign (\<lambda>v. v))"

abbreviation copy_replication :: "store \<Rightarrow> addr option \<Rightarrow> (store \<times> addr option) option" where
  "copy_replication \<equiv> copy_ref replication_view ReplicationCell (assign (\<lambda>v. v))"

abbreviation copy_affinity :: "metaCopy \<Rightarrow> store \<Rightarrow> addr option \<Rightarrow> (store \<times> addr option) option" where
  "copy_affinity mc \<equiv> copy_ref affinity_view AffinityCell (assign (mc_Affinity mc))"

abbreviation copy_podsec :: "metaCopy \<Rightarrow> store \<Rightarrow> addr option \<Rightarrow> (store \<times> addr option) option" where
  "copy_podsec mc \<equiv> copy_ref podSecurity_view PodSecurityCell (assign (mc_PodSecurityContext mc))"

abbreviation copy_sec :: "metaCopy \<Rightarrow> store \<Rightarrow> addr option \<Rightarrow> (store \<times> addr option) option" where
  "copy_sec mc \<equiv> copy_ref security_view SecurityCell (assign (mc_SecurityContext mc))"

abbreviation copy_strings :: "store \<Rightarrow> addr option \<Rightarrow> (store \<times> addr option) option" where
  "copy_strings \<equiv> copy_ref strings_view StringsCell (assign (\<lambda>v. v))"

abbreviation copy_tolerations :: "metaCopy \<Rightarrow> store \<Rightarrow> addr option \<Rightarrow> (store \<times> addr option) option" where
  "copy_tolerations mc \<equiv> copy_ref tolerations_view TolerationsCell (assign (map (mc_Toleration mc)))"

abbreviation copy_spreads :: "metaCopy \<Rightarrow> store \<Rightarrow> addr option \<Rightarrow> (store \<times> addr option) option" where
  "copy_spreads mc \<equiv> copy_ref spreads_view SpreadsCell (assign (map (mc_TopologySpreadConstraint mc)))"

abbreviation copy_members :: "store \<Rightarrow> addr option \<Rightarrow> (store \<times> addr option) option" where
  "copy_members \<equiv> copy_ref members_view MembersCell (assign (\<lambda>v. v))"

abbreviation copy_conditions :: "metaCopy \<Rightarrow> store \<Rightarrow> addr option \<Rightarrow> (store \<times> addr option) option" where
  "copy_conditions mc \<equiv> copy_ref conditions_view ConditionsCell (assign (map (mc_Condition mc)))"

abbreviation copy_labels :: "store \<Rightarrow> addr option \<Rightarrow> (store \<times> addr option) option" where
  "copy_labels \<equiv> copy_ref labels_view LabelsCell (assign (\<lambda>v. v))"

text \<open>Structs without pointers.\<close>

definition PortsSpec_DeepCopyInto :: "store \<Rightarrow> PortsSpec \<Rightarrow> (store \<times> PortsSpec) option" where
  "PortsSpec_DeepCopyInto = assign (\<lambda>v. v)"

definition PortsSpec_DeepCopy :: "store \<Rightarrow> addr option \<Rightarrow> (store \<times> addr option) option" where
  "PortsSpec_DeepCopy = copy_ref ports_view PortsCell PortsSpec_DeepCopyInto"

definition ReplicationSpec_DeepCopyInto :: "store \<Rightarrow> ReplicationSpec \<Rightarrow> (store \<times> ReplicationSpec) option" where
  "ReplicationSpec_DeepCopyInto = assign (\<lambda>v. v)"

definition ReplicationSpec_DeepCopy :: "store \<Rightarrow> addr option \<Rightarrow> (store \<times> addr option) option" where
  "ReplicationSpec_DeepCopy = copy_ref replication_view ReplicationCell ReplicationSpec_DeepCopyInto"

definition CertManagerIssuerRef_DeepCopyInto :: "store \<Rightarrow> CertManagerIssuerRef \<Rightarrow> (store \<times> CertManagerIssuerRef) option" where
  "CertManagerIssuerRef_DeepCopyInto = assign (\<lambda>v. v)"

definition CertManagerIssuerRef_DeepCopy :: "store \<Rightarrow> addr option \<Rightarrow> (store \<times> addr option) option" where
  "CertManagerIssuerRef_DeepCopy = copy_ref issuerRef_view IssuerRefCell CertManagerIssuerRef_DeepCopyInto"

definition MemberStatus_DeepCopyInto :: "store \<Rightarrow> MemberStatus \<Rightarrow> (store \<times> MemberStatus) option" where
  "MemberStatus_DeepCopyInto = assign (\<lambda>v. v)"

definition MemberStatus_DeepCopy :: "store \<Rightarrow> addr option \<Rightarrow> (store \<times> addr option) option" where
  "MemberStatus_DeepCopy = copy_ref member_view MemberCell MemberStatus_DeepCopyInto"

text \<open>Structs with pointers.\<close>

definition VolumeSpec_DeepCopyInto :: "metaCopy \<Rightarrow> store \<Rightarrow> volumeMem \<Rightarrow> (store \<times> volumeMem) option" where
  "VolumeSpec_DeepCopyInto mc s src = do {
     (s, s2) \<leftarrow> assign (mc_Quantity mc) s (vsm_Size src);
     (s, scn) \<leftarrow> copy_str s (vsm_StorageClassName src);
     (s, am) \<leftarrow> copy_strings s (vsm_AccessModes src);
     Some (s, src\<lparr>vsm_Size := s2, vsm_StorageClassName := scn, vsm_AccessModes := am\<rparr>)
   }"

definition VolumeSpec_DeepCopy :: "metaCopy \<Rightarrow> store \<Rightarrow> addr option \<Rightarrow> (store \<times> addr option) option" where
  "VolumeSpec_DeepCopy mc = copy_ref volume_view VolumeCell (VolumeSpec_DeepCopyInto mc)"

definition StorageSpec_DeepCopyInto :: "metaCopy \<Rightarrow> store \<Rightarrow> storageMem \<Rightarrow> (store \<times> storageMem) option" where
  "StorageSpec_DeepCopyInto mc s src = do {
     (s, d) \<leftarrow> VolumeSpec_DeepCopyInto mc s (stom_Data src);
     (s, wal) \<leftarrow> VolumeSpec_DeepCopy mc s (stom_WAL src);
     (s, sw) \<leftarrow> copy_bool s (stom_SyncWrites src);
     (s, dr) \<leftarrow> copy_bool s (stom_DirectReads src);
     (s, sm) \<leftarrow> copy_bool s (stom_SharedMemory src);
     (s, smb) \<leftarrow> copy_int s (stom_SharedMemoryBudgetMB src);
     (s, smb2) \<leftarrow> copy_int s (stom_SharedMemtableBudgetMB src);
     Some (s, src\<lparr>stom_Data := d, stom_WAL := wal, stom_SyncWrites := sw, stom_DirectReads := dr,
       stom_SharedMemory := sm, stom_SharedMemoryBudgetMB := smb, stom_SharedMemtableBudgetMB := smb2\<rparr>)
   }"

definition StorageSpec_DeepCopy :: "metaCopy \<Rightarrow> store \<Rightarrow> addr option \<Rightarrow> (store \<times> addr option) option" where
  "StorageSpec_DeepCopy mc = copy_ref storage_view StorageCell (StorageSpec_DeepCopyInto mc)"

definition CertManagerSpec_DeepCopyInto :: "metaCopy \<Rightarrow> store \<Rightarrow> certManagerMem \<Rightarrow> (store \<times> certManagerMem) option" where
  "CertManagerSpec_DeepCopyInto mc s src = do {
     (s, d) \<leftarrow> copy_duration s (cmsm_Duration src);
     (s, rb) \<leftarrow> copy_duration s (cmsm_RenewBefore src);
     Some (s, src\<lparr>cmsm_Duration := d, cmsm_RenewBefore := rb\<rparr>)
   }"

definition CertManagerSpec_DeepCopy :: "metaCopy \<Rightarrow> store \<Rightarrow> addr option \<Rightarrow> (store \<times> addr option) option" where
  "CertManagerSpec_DeepCopy mc = copy_ref certManager_view CertManagerCell (CertManagerSpec_DeepCopyInto mc)"

definition TLSSpec_DeepCopyInto :: "metaCopy \<Rightarrow> store \<Rightarrow> tlsMem \<Rightarrow> (store \<times> tlsMem) option" where
  "TLSSpec_DeepCopyInto mc s src = do {
     (s, sr) \<leftarrow> copy_str s (tlsm_SecretRef src);
     (s, psr) \<leftarrow> copy_secret mc s (tlsm_PasswordSecretRef src);
     (s, cm) \<leftarrow> CertManagerSpec_DeepCopy mc s (tlsm_CertManager src);
     (s, isv) \<leftarrow> copy_bool s (tlsm_InsecureSkipVerify src);
     Some (s, src\<lparr>tlsm_SecretRef := sr, tlsm_PasswordSecretRef := psr, tlsm_CertManager := cm,
       tlsm_InsecureSkipVerify := isv\<rparr>)
   }"

definition TLSSpec_DeepCopy :: "metaCopy \<Rightarrow> store \<Rightarrow> addr option \<Rightarrow> (store \<times> addr option) option" where
  "TLSSpec_DeepCopy mc = copy_ref tls_view TLSCell (TLSSpec_DeepCopyInto mc)"

definition RaftSpec_DeepCopyInto :: "metaCopy \<Rightarrow> store \<Rightarrow> raftMem \<Rightarrow> (store \<times> raftMem) option" where
  "RaftSpec_DeepCopyInto mc s src = do {
     (s, him) \<leftarrow> copy_int s (rftm_HeartbeatIntervalMs src);
     (s, vtm) \<leftarrow> copy_int s (rftm_VotingTimeoutMs src);
     (s, set) \<leftarrow> copy_int s (rftm_StartElectionTimeoutMs src);
     (s, eet) \<leftarrow> copy_int s (rftm_EndElectionTimeoutMs src);
     (s, ecq) \<leftarrow> copy_bool s (rftm_EnableCheckQuorum src);
     (s, gim) \<leftarrow> copy_int s (rftm_GossipIntervalMs src);
     (s, gf) \<leftarrow> copy_int s (rftm_GossipFanout src);
     (s, ptm) \<leftarrow> copy_int s (rftm_PingTimeoutMs src);
     (s, ipf) \<leftarrow> copy_int s (rftm_IndirectPingFanout src);
     (s, stm) \<leftarrow> copy_int s (rftm_SuspicionTimeoutMs src);
     (s, dme) \<leftarrow> copy_int s (rftm_DeadMemberEvictionGraceMs src);
     (s, bt) \<leftarrow> copy_int s (rftm_BackfillThreshold src);
     (s, mbe) \<leftarrow> copy_int s (rftm_MaxBackfillEntriesPerRound src);
     (s, lpl) \<leftarrow> copy_int s (rftm_LearnerPromotionLag src);
     (s, lps) \<leftarrow> copy_int s (rftm_LearnerPromotionStableWindowMs src);
     Some (s, src\<lparr>rftm_HeartbeatIntervalMs := him, rftm_VotingTimeoutMs := vtm, rftm_StartElectionTimeoutMs := set,
       rftm_EndElectionTimeoutMs := eet, rftm_EnableCheckQuorum := ecq, rftm_GossipIntervalMs := gim,
       rftm_GossipFanout := gf, rftm_PingTimeoutMs := ptm, rftm_IndirectPingFanout := ipf,
       rftm_SuspicionTimeoutMs := stm, rftm_DeadMemberEvictionGraceMs := dme, rftm_BackfillThreshold := bt,
       rftm_MaxBackfillEntriesPerRound := mbe, rftm_LearnerPromotionLag := lpl,
       rftm_LearnerPromotionStableWindowMs := lps\<rparr>)
   }"

definition RaftSpec_DeepCopy :: "metaCopy \<Rightarrow> store \<Rightarrow> addr option \<Rightarrow> (store \<times> addr option) option" where
  "RaftSpec_DeepCopy mc = copy_ref raft_view RaftCell (RaftSpec_DeepCopyInto mc)"

definition TransactionsSpec_DeepCopyInto :: "metaCopy \<Rightarrow> store \<Rightarrow> transactionsMem \<Rightarrow> (store \<times> transactionsMem) option" where
  "TransactionsSpec_DeepCopyInto mc s src = do {
     (s, dtm) \<leftarrow> copy_int s (txnm_DefaultTimeoutMs src);
     (s, daw) \<leftarrow> copy_int s (txnm_DefaultAdmissionWaitMs src);
     (s, maw) \<leftarrow> copy_int s (txnm_MaxAdmissionWaitMs src);
     (s, mct) \<leftarrow> copy_int s (txnm_MaxConcurrentTransactions src);
     (s, mcs) \<leftarrow> copy_int s (txnm_MaxConcurrentSessions src);
     Some (s, src\<lparr>txnm_DefaultTimeoutMs := dtm, txnm_DefaultAdmissionWaitMs := daw, txnm_MaxAdmissionWaitMs := maw,
       txnm_MaxConcurrentTransactions := mct, txnm_MaxConcurrentSessions := mcs\<rparr>)
   }"

definition TransactionsSpec_DeepCopy :: "metaCopy \<Rightarrow> store \<Rightarrow> addr option \<Rightarrow> (store \<times> addr option) option" where
  "TransactionsSpec_DeepCopy mc = copy_ref transactions_view TransactionsCell (TransactionsSpec_DeepCopyInto mc)"

definition WorkersSpec_DeepCopyInto :: "metaCopy \<Rightarrow> store \<Rightarrow> workersMem \<Rightarrow> (store \<times> workersMem) option" where
  "WorkersSpec_DeepCopyInto mc s src = do {
     (s, l) \<leftarrow> copy_int s (wrkm_Locks src);
     (s, kv) \<leftarrow> copy_int s (wrkm_KeyValue src);
     (s, s2) \<leftarrow> copy_int s (wrkm_Sequencer src);
     (s, bw) \<leftarrow> copy_int s (wrkm_BackgroundWriter src);
     Some (s, src\<lparr>wrkm_Locks := l, wrkm_KeyValue := kv, wrkm_Sequencer := s2, wrkm_BackgroundWriter := bw\<rparr>)
   }"

definition WorkersSpec_DeepCopy :: "metaCopy \<Rightarrow> store \<Rightarrow> addr option \<Rightarrow> (store \<times> addr option) option" where
  "WorkersSpec_DeepCopy mc = copy_ref workers_view WorkersCell (WorkersSpec_DeepCopyInto mc)"

definition AutoscalingSpec_DeepCopyInto :: "metaCopy \<Rightarrow> store \<Rightarrow> autoscalingSpecMem \<Rightarrow> (store \<times> autoscalingSpecMem) option" where
  "AutoscalingSpec_DeepCopyInto mc s src = do {
     (s, twp) \<leftarrow> copy_int s (ausm_TargetWritesPerSecond src);
     (s, tqd) \<leftarrow> copy_int s (ausm_TargetQueueDepth src);
     (s, sus) \<leftarrow> copy_int s (ausm_ScaleUpStabilizationSeconds src);
     (s, sds) \<leftarrow> copy_int s (ausm_ScaleDownStabilizationSeconds src);
     (s, tp) \<leftarrow> copy_int s (ausm_TolerancePercent src);
     Some (s, src\<lparr>ausm_TargetWritesPerSecond := twp, ausm_TargetQueueDepth := tqd,
       ausm_ScaleUpStabilizationSeconds := sus, ausm_ScaleDownStabilizationSeconds := sds,
       ausm_TolerancePercent := tp\<rparr>)
   }"

definition AutoscalingSpec_DeepCopy :: "metaCopy \<Rightarrow> store \<Rightarrow> addr option \<Rightarrow> (store \<times> addr option) option" where
  "AutoscalingSpec_DeepCopy mc = copy_ref autoscalingSpec_view AutoscalingSpecCell (AutoscalingSpec_DeepCopyInto mc)"

definition BackupVolumeSpec_DeepCopyInto :: "metaCopy \<Rightarrow> store \<Rightarrow> backupVolumeMem \<Rightarrow> (store \<times> backupVolumeMem) option" where
  "BackupVolumeSpec_DeepCopyInto mc s src = do {
     (s, cn) \<leftarrow> copy_str s (bvsm_ClaimName src);
     (s, c) \<leftarrow> VolumeSpec_DeepCopy mc s (bvsm_Claim src);
     Some (s, src\<lparr>bvsm_ClaimName := cn, bvsm_Claim := c\<rparr>)
   }"

definition BackupVolumeSpec_DeepCopy :: "metaCopy \<Rightarrow> store \<Rightarrow> addr option \<Rightarrow> (store \<times> addr option) option" where
  "BackupVolumeSpec_DeepCopy mc = copy_ref backupVolume_view BackupVolumeCell (BackupVolumeSpec_DeepCopyInto mc)"

definition BackupRetentionSpec_DeepCopyInto :: "metaCopy \<Rightarrow> store \<Rightarrow> retentionMem \<Rightarrow> (store \<times> retentionMem) option" where
  "BackupRetentionSpec_DeepCopyInto mc s src = do {
     (s, mc2) \<leftarrow> copy_int s (brsm_MaxChains src);
     (s, ma) \<leftarrow> copy_duration s (brsm_MaxAge src);
     (s, mb) \<leftarrow> copy_quantity mc s (brsm_MaxBytes src);
     Some (s, src\<lparr>brsm_MaxChains := mc2, brsm_MaxAge := ma, brsm_MaxBytes := mb\<rparr>)
   }"

definition BackupRetentionSpec_DeepCopy :: "metaCopy \<Rightarrow> store \<Rightarrow> addr option \<Rightarrow> (store \<times> addr option) option" where
  "BackupRetentionSpec_DeepCopy mc = copy_ref retention_view RetentionCell (BackupRetentionSpec_DeepCopyInto mc)"

definition BackupSpec_DeepCopyInto :: "metaCopy \<Rightarrow> store \<Rightarrow> backupSpecMem \<Rightarrow> (store \<times> backupSpecMem) option" where
  "BackupSpec_DeepCopyInto mc s src = do {
     (s, s2) \<leftarrow> copy_bool s (bksm_Suspend src);
     (s, t) \<leftarrow> copy_duration s (bksm_Timeout src);
     (s, v) \<leftarrow> BackupVolumeSpec_DeepCopyInto mc s (bksm_Volume src);
     (s, mac) \<leftarrow> copy_secret mc s (bksm_MACKeySecretRef src);
     (s, r) \<leftarrow> BackupRetentionSpec_DeepCopy mc s (bksm_Retention src);
     Some (s, src\<lparr>bksm_Suspend := s2, bksm_Timeout := t, bksm_Volume := v, bksm_MACKeySecretRef := mac,
       bksm_Retention := r\<rparr>)
   }"

definition BackupSpec_DeepCopy :: "metaCopy \<Rightarrow> store \<Rightarrow> addr option \<Rightarrow> (store \<times> addr option) option" where
  "BackupSpec_DeepCopy mc = copy_ref backupSpec_view BackupSpecCell (BackupSpec_DeepCopyInto mc)"

definition KahunaClusterSpec_DeepCopyInto :: "metaCopy \<Rightarrow> store \<Rightarrow> specMem \<Rightarrow> (store \<times> specMem) option" where
  "KahunaClusterSpec_DeepCopyInto mc s src = do {
     (s, r) \<leftarrow> copy_int s (spm_Replicas src);
     (s, r2) \<leftarrow> copy_replication s (spm_Replication src);
     (s, a) \<leftarrow> AutoscalingSpec_DeepCopy mc s (spm_Autoscaling src);
     (s, b) \<leftarrow> BackupSpec_DeepCopy mc s (spm_Backup src);
     (s, ips) \<leftarrow> copy_strings s (spm_ImagePullSecrets src);
     (s, p) \<leftarrow> copy_int s (spm_Partitions src);
     (s, s2) \<leftarrow> StorageSpec_DeepCopyInto mc s (spm_Storage src);
     (s, tls) \<leftarrow> TLSSpec_DeepCopyInto mc s (spm_TLS src);
     (s, p2) \<leftarrow> copy_ports s (spm_Ports src);
     (s, r3) \<leftarrow> RaftSpec_DeepCopy mc s (spm_Raft src);
     (s, t) \<leftarrow> TransactionsSpec_DeepCopy mc s (spm_Transactions src);
     (s, w) \<leftarrow> WorkersSpec_DeepCopy mc s (spm_Workers src);
     (s, ea) \<leftarrow> copy_strings s (spm_ExtraArgs src);
     (s, r4) \<leftarrow> assign (mc_Resources mc) s (spm_Resources src);
     (s, ns) \<leftarrow> copy_labels s (spm_NodeSelector src);
     (s, t2) \<leftarrow> copy_tolerations mc s (spm_Tolerations src);
     (s, a2) \<leftarrow> copy_affinity mc s (spm_Affinity src);
     (s, tsc) \<leftarrow> copy_spreads mc s (spm_TopologySpreadConstraints src);
     (s, pa) \<leftarrow> copy_labels s (spm_PodAnnotations src);
     (s, pl) \<leftarrow> copy_labels s (spm_PodLabels src);
     (s, psc) \<leftarrow> copy_podsec mc s (spm_PodSecurityContext src);
     (s, sc) \<leftarrow> copy_sec mc s (spm_SecurityContext src);
     (s, tgp) \<leftarrow> copy_int s (spm_TerminationGracePeriodSeconds src);
     (s, pdb) \<leftarrow> copy_bool s (spm_PodDisruptionBudget src);
     Some (s, src\<lparr>spm_Replicas := r, spm_Replication := r2, spm_Autoscaling := a, spm_Backup := b,
       spm_ImagePullSecrets := ips, spm_Partitions := p, spm_Storage := s2, spm_TLS := tls, spm_Ports := p2,
       spm_Raft := r3, spm_Transactions := t, spm_Workers := w, spm_ExtraArgs := ea, spm_Resources := r4,
       spm_NodeSelector := ns, spm_Tolerations := t2, spm_Affinity := a2,
       spm_TopologySpreadConstraints := tsc, spm_PodAnnotations := pa, spm_PodLabels := pl,
       spm_PodSecurityContext := psc, spm_SecurityContext := sc, spm_TerminationGracePeriodSeconds := tgp,
       spm_PodDisruptionBudget := pdb\<rparr>)
   }"

definition KahunaClusterSpec_DeepCopy :: "metaCopy \<Rightarrow> store \<Rightarrow> addr option \<Rightarrow> (store \<times> addr option) option" where
  "KahunaClusterSpec_DeepCopy mc = copy_ref spec_view SpecCell (KahunaClusterSpec_DeepCopyInto mc)"

definition AutoscalingStatus_DeepCopyInto :: "metaCopy \<Rightarrow> store \<Rightarrow> autoscalingMem \<Rightarrow> (store \<times> autoscalingMem) option" where
  "AutoscalingStatus_DeepCopyInto mc s src = do {
     (s, wps) \<leftarrow> copy_int s (astm_WritesPerSecondPerNode src);
     (s, qdp) \<leftarrow> copy_int s (astm_QueueDepthPerNode src);
     (s, ats) \<leftarrow> copy_time mc s (astm_AboveTargetSince src);
     (s, bts) \<leftarrow> copy_time mc s (astm_BelowTargetSince src);
     (s, lst) \<leftarrow> copy_time mc s (astm_LastScaleTime src);
     Some (s, src\<lparr>astm_WritesPerSecondPerNode := wps, astm_QueueDepthPerNode := qdp, astm_AboveTargetSince := ats,
       astm_BelowTargetSince := bts, astm_LastScaleTime := lst\<rparr>)
   }"

definition AutoscalingStatus_DeepCopy :: "metaCopy \<Rightarrow> store \<Rightarrow> addr option \<Rightarrow> (store \<times> addr option) option" where
  "AutoscalingStatus_DeepCopy mc = copy_ref autoscaling_view AutoscalingCell (AutoscalingStatus_DeepCopyInto mc)"

definition BackupStatus_DeepCopyInto :: "metaCopy \<Rightarrow> store \<Rightarrow> backupMem \<Rightarrow> (store \<times> backupMem) option" where
  "BackupStatus_DeepCopyInto mc s src = do {
     (s, lfs) \<leftarrow> copy_time mc s (bstm_LastFullScheduleTime src);
     (s, lis) \<leftarrow> copy_time mc s (bstm_LastIncrementalScheduleTime src);
     (s, lst) \<leftarrow> copy_time mc s (bstm_LastSuccessfulTime src);
     (s, lft) \<leftarrow> copy_time mc s (bstm_LastFailureTime src);
     (s, us) \<leftarrow> copy_time mc s (bstm_UnclaimedSince src);
     (s, lut) \<leftarrow> copy_time mc s (bstm_LastUnclaimedTime src);
     Some (s, src\<lparr>bstm_LastFullScheduleTime := lfs, bstm_LastIncrementalScheduleTime := lis,
       bstm_LastSuccessfulTime := lst, bstm_LastFailureTime := lft, bstm_UnclaimedSince := us,
       bstm_LastUnclaimedTime := lut\<rparr>)
   }"

definition BackupStatus_DeepCopy :: "metaCopy \<Rightarrow> store \<Rightarrow> addr option \<Rightarrow> (store \<times> addr option) option" where
  "BackupStatus_DeepCopy mc = copy_ref backup_view BackupCell (BackupStatus_DeepCopyInto mc)"

definition KahunaClusterStatus_DeepCopyInto :: "metaCopy \<Rightarrow> store \<Rightarrow> statusMem \<Rightarrow> (store \<times> statusMem) option" where
  "KahunaClusterStatus_DeepCopyInto mc s src = do {
     (s, m2) \<leftarrow> copy_members s (stm_Members src);
     (s, up) \<leftarrow> copy_int s (stm_UpdatePartition src);
     (s, a) \<leftarrow> AutoscalingStatus_DeepCopy mc s (stm_Autoscaling src);
     (s, b) \<leftarrow> BackupStatus_DeepCopy mc s (stm_Backup src);
     (s, c) \<leftarrow> copy_conditions mc s (stm_Conditions src);
     Some (s, src\<lparr>stm_Members := m2, stm_UpdatePartition := up, stm_Autoscaling := a, stm_Backup := b,
       stm_Conditions := c\<rparr>)
   }"

definition KahunaClusterStatus_DeepCopy :: "metaCopy \<Rightarrow> store \<Rightarrow> addr option \<Rightarrow> (store \<times> addr option) option" where
  "KahunaClusterStatus_DeepCopy mc = copy_ref status_view StatusCell (KahunaClusterStatus_DeepCopyInto mc)"

definition KahunaCluster_DeepCopyInto :: "metaCopy \<Rightarrow> store \<Rightarrow> clusterMem \<Rightarrow> (store \<times> clusterMem) option" where
  "KahunaCluster_DeepCopyInto mc s src = do {
     (s, om) \<leftarrow> assign (mc_ObjectMeta mc) s (kcm_ObjectMeta src);
     (s, sp) \<leftarrow> KahunaClusterSpec_DeepCopyInto mc s (kcm_Spec src);
     (s, st) \<leftarrow> KahunaClusterStatus_DeepCopyInto mc s (kcm_Status src);
     Some (s, src\<lparr>kcm_ObjectMeta := om, kcm_Spec := sp, kcm_Status := st\<rparr>)
   }"

definition KahunaCluster_DeepCopy :: "metaCopy \<Rightarrow> store \<Rightarrow> addr option \<Rightarrow> (store \<times> addr option) option" where
  "KahunaCluster_DeepCopy mc = copy_ref cluster_view ClusterCell (KahunaCluster_DeepCopyInto mc)"

definition KahunaCluster_DeepCopyObject :: "metaCopy \<Rightarrow> store \<Rightarrow> addr option \<Rightarrow> (store \<times> addr option) option" where
  "KahunaCluster_DeepCopyObject mc s src = do {
     (s, c) \<leftarrow> KahunaCluster_DeepCopy mc s src;
     if c \<noteq> None then Some (s, c) else Some (s, None)
   }"

definition KahunaClusterList_DeepCopyInto :: "metaCopy \<Rightarrow> store \<Rightarrow> clusterListMem \<Rightarrow> (store \<times> clusterListMem) option" where
  "KahunaClusterList_DeepCopyInto mc s src = do {
     (s, lm) \<leftarrow> assign (mc_ListMeta mc) s (klm_ListMeta src);
     (s, i) \<leftarrow> copy_ref clusters_view ClustersCell (copy_list (KahunaCluster_DeepCopyInto mc)) s (klm_Items src);
     Some (s, src\<lparr>klm_ListMeta := lm, klm_Items := i\<rparr>)
   }"

definition KahunaClusterList_DeepCopy :: "metaCopy \<Rightarrow> store \<Rightarrow> addr option \<Rightarrow> (store \<times> addr option) option" where
  "KahunaClusterList_DeepCopy mc = copy_ref clusterList_view ClusterListCell (KahunaClusterList_DeepCopyInto mc)"

definition KahunaClusterList_DeepCopyObject :: "metaCopy \<Rightarrow> store \<Rightarrow> addr option \<Rightarrow> (store \<times> addr option) option" where
  "KahunaClusterList_DeepCopyObject mc s src = do {
     (s, c) \<leftarrow> KahunaClusterList_DeepCopy mc s src;
     if c \<noteq> None then Some (s, c) else Some (s, None)
   }"


section \<open>The contract of a copy\<close>

definition store_ok :: "store \<Rightarrow> bool" where
  "store_ok s \<longleftrightarrow> dom (so_cells s) \<subseteq> {..<so_next s}"

definition grows :: "store \<Rightarrow> store \<Rightarrow> bool" where
  "grows s s' \<longleftrightarrow> store_ok s' \<and> so_next s \<le> so_next s' \<and> so_cells s \<subseteq>\<^sub>m so_cells s'"

text \<open>The cells that exist in the second store and were not handed out in the first.\<close>

definition fresh_part :: "store \<Rightarrow> store \<Rightarrow> cells" where
  "fresh_part s s' = so_cells s' |` {so_next s..}"

lemma grows_refl: "store_ok s \<Longrightarrow> grows s s"
  by (simp add: grows_def)

lemma grows_trans: "grows s s1 \<Longrightarrow> grows s1 s2 \<Longrightarrow> grows s s2"
  by (auto simp: grows_def intro: map_le_trans)

lemma grows_new: "store_ok s \<Longrightarrow> new c s = (s', b) \<Longrightarrow> grows s s' \<and> fresh_part s s' b = Some c"
  by (auto simp: new_def grows_def store_ok_def fresh_part_def map_le_def less_Suc_eq subset_eq dom_def
      split: if_splits)

lemma fresh_part_le:
  assumes "grows s s1" "grows s1 s2" "grows s2 s3"
  shows "fresh_part s1 s2 \<subseteq>\<^sub>m fresh_part s s3"
  using assms by (auto simp: grows_def fresh_part_def map_le_def restrict_map_def dom_def split: if_splits)

locale deep_copy =
  fixes load :: "cells \<Rightarrow> 'r \<Rightarrow> 'v option" and cp :: "store \<Rightarrow> 'r \<Rightarrow> (store \<times> 'r) option"
  assumes load_mono: "load m x = Some v \<Longrightarrow> m \<subseteq>\<^sub>m m' \<Longrightarrow> load m' x = Some v"
    and cp_fresh: "store_ok s \<Longrightarrow> load (so_cells s) x = Some v \<Longrightarrow>
      \<exists>s' y. cp s x = Some (s', y) \<and> grows s s' \<and> load (fresh_part s s') y = Some v"
begin

text \<open>The copy reads as the original, and the original still does.\<close>

lemma cp_value:
  assumes "store_ok s" "load (so_cells s) x = Some v" "cp s x = Some (s', y)"
  shows "load (so_cells s') y = Some v" "load (so_cells s') x = Some v"
proof -
  have g: "grows s s'" "load (fresh_part s s') y = Some v" using cp_fresh [OF assms(1,2)] assms(3) by auto
  have "fresh_part s s' \<subseteq>\<^sub>m so_cells s'" by (auto simp: fresh_part_def map_le_def)
  thus "load (so_cells s') y = Some v" using load_mono g(2) by blast
  show "load (so_cells s') x = Some v" using load_mono [OF assms(2)] g(1) by (simp add: grows_def)
qed

text \<open>Whatever is written afterwards to cells that existed before the copy, the copy reads the same.\<close>

lemma cp_snapshot:
  assumes "store_ok s" "load (so_cells s) x = Some v" "cp s x = Some (s', y)"
    and "\<And>a. so_next s \<le> a \<Longrightarrow> m a = so_cells s' a"
  shows "load m y = Some v"
proof -
  have g: "load (fresh_part s s') y = Some v" using cp_fresh [OF assms(1,2)] assms(3) by auto
  have "fresh_part s s' \<subseteq>\<^sub>m m" using assms(4) by (auto simp: fresh_part_def map_le_def restrict_map_def dom_def split: if_splits)
  with load_mono [OF g] show ?thesis .
qed

end


section \<open>Copies compose\<close>

text \<open>
  A computation that copies what another one reads: whenever \<open>L\<close> reads a value, \<open>C\<close> succeeds, and \<open>Q\<close>
  relates its result to the value in every memory \<open>m\<close> that has the cells allocated meanwhile.
\<close>

definition copying :: "cells \<Rightarrow> (cells \<Rightarrow> 'v option) \<Rightarrow> (store \<Rightarrow> (store \<times> 'r) option) \<Rightarrow> ('r \<Rightarrow> 'v \<Rightarrow> bool) \<Rightarrow> bool" where
  "copying m L C Q \<longleftrightarrow>
     (\<forall>h h' v. L h = Some v \<and> h \<subseteq>\<^sub>m h' \<longrightarrow> L h' = Some v) \<and>
     (\<forall>s v. store_ok s \<and> L (so_cells s) = Some v \<longrightarrow>
        (\<exists>s' y. C s = Some (s', y) \<and> grows s s' \<and> (fresh_part s s' \<subseteq>\<^sub>m m \<longrightarrow> Q y v)))"

lemma copyingD:
  assumes "copying m L C Q"
  shows "L h = Some v \<Longrightarrow> h \<subseteq>\<^sub>m h' \<Longrightarrow> L h' = Some v"
    and "store_ok s \<Longrightarrow> L (so_cells s) = Some v \<Longrightarrow>
      \<exists>s' y. C s = Some (s', y) \<and> grows s s' \<and> (fresh_part s s' \<subseteq>\<^sub>m m \<longrightarrow> Q y v)"
  using assms unfolding copying_def by blast+

lemma deep_copyD:
  assumes "deep_copy l c"
  shows "copying m (\<lambda>h. l h x) (\<lambda>s. c s x) (\<lambda>y v. l m y = Some v)"
  unfolding copying_def
proof (intro conjI allI impI; elim conjE)
  show "l h x = Some v \<Longrightarrow> h \<subseteq>\<^sub>m h' \<Longrightarrow> l h' x = Some v" for h h' v by (rule deep_copy.load_mono [OF assms])
  fix s v
  assume "store_ok s" "l (so_cells s) x = Some v"
  then obtain s' y where c: "c s x = Some (s', y)" "grows s s'" "l (fresh_part s s') y = Some v"
    using deep_copy.cp_fresh [OF assms] by blast
  hence "fresh_part s s' \<subseteq>\<^sub>m m \<longrightarrow> l m y = Some v" using deep_copy.load_mono [OF assms c(3)] by blast
  with c(1,2) show "\<exists>s' y. c s x = Some (s', y) \<and> grows s s' \<and> (fresh_part s s' \<subseteq>\<^sub>m m \<longrightarrow> l m y = Some v)" by blast
qed

lemma deep_copyI:
  assumes c: "\<And>m x. copying m (\<lambda>h. load h x) (\<lambda>s. cp s x) (\<lambda>y v. load m y = Some v)"
  shows "deep_copy load cp"
proof
  show "load m x = Some v \<Longrightarrow> m \<subseteq>\<^sub>m m' \<Longrightarrow> load m' x = Some v" for m m' x v
    by (rule copyingD(1) [OF c])
  show "\<exists>s' y. cp s x = Some (s', y) \<and> grows s s' \<and> load (fresh_part s s') y = Some v"
    if ok: "store_ok s" "load (so_cells s) x = Some v" for s x v
  proof -
    obtain s' y where "cp s x = Some (s', y)" using copyingD(2) [OF c ok] by blast
    thus ?thesis using copyingD(2) [OF c [of "fresh_part s s'"] ok] by auto
  qed
qed

lemma copying_done: "Q y v \<Longrightarrow> copying m (\<lambda>h. Some v) (\<lambda>s. Some (s, y)) Q"
  by (auto simp: copying_def grows_refl)

lemma copying_bind:
  assumes c1: "copying m L1 C1 Q1" and c2: "\<And>a y. copying m (L2 a) (C2 y) (\<lambda>z v. Q1 y a \<longrightarrow> Q z v)"
  shows "copying m (\<lambda>h. L1 h \<bind> (\<lambda>a. L2 a h)) (\<lambda>s. C1 s \<bind> (\<lambda>(s, y). C2 y s)) Q"
proof -
  have "L1 h' \<bind> (\<lambda>a. L2 a h') = Some v" if l: "L1 h \<bind> (\<lambda>a. L2 a h) = Some v" and le: "h \<subseteq>\<^sub>m h'" for h h' v
  proof -
    obtain a where "L1 h = Some a" "L2 a h = Some v" using l by (auto simp: bind_eq_Some_conv)
    hence "L1 h' = Some a" "L2 a h' = Some v" using copyingD(1) [OF c1 _ le] copyingD(1) [OF c2 _ le] by blast+
    thus ?thesis by simp
  qed
  moreover have "\<exists>s' z. C1 s \<bind> (\<lambda>(s, y). C2 y s) = Some (s', z) \<and> grows s s' \<and> (fresh_part s s' \<subseteq>\<^sub>m m \<longrightarrow> Q z v)"
    if ok: "store_ok s" and v: "L1 (so_cells s) \<bind> (\<lambda>a. L2 a (so_cells s)) = Some v" for s v
  proof -
    obtain a where a: "L1 (so_cells s) = Some a" "L2 a (so_cells s) = Some v" using v by (auto simp: bind_eq_Some_conv)
    obtain s1 y where 1: "C1 s = Some (s1, y)" "grows s s1" "fresh_part s s1 \<subseteq>\<^sub>m m \<longrightarrow> Q1 y a"
      using copyingD(2) [OF c1 ok a(1)] by blast
    have ok1: "store_ok s1" "so_cells s \<subseteq>\<^sub>m so_cells s1" using 1(2) by (simp_all add: grows_def)
    obtain s2 z where 2: "C2 y s1 = Some (s2, z)" "grows s1 s2" "fresh_part s1 s2 \<subseteq>\<^sub>m m \<longrightarrow> Q1 y a \<longrightarrow> Q z v"
      using copyingD(2) [OF c2 ok1(1) copyingD(1) [OF c2 a(2) ok1(2)]] by blast
    have "store_ok s2" using 2(2) by (simp add: grows_def)
    hence "fresh_part s s1 \<subseteq>\<^sub>m fresh_part s s2" "fresh_part s1 s2 \<subseteq>\<^sub>m fresh_part s s2"
      using fresh_part_le [OF grows_refl [OF ok] 1(2) 2(2)] fresh_part_le [OF 1(2) 2(2) grows_refl] by simp_all
    hence "fresh_part s s2 \<subseteq>\<^sub>m m \<longrightarrow> Q z v" using 1(3) 2(3) map_le_trans by blast
    thus ?thesis using 1(1) 2(1) grows_trans [OF 1(2) 2(2)] by simp
  qed
  ultimately show ?thesis unfolding copying_def by blast
qed

lemmas copying_field = copying_bind [OF deep_copyD]

lemma deep_copy_list:
  assumes d: "deep_copy l c"
  shows "deep_copy (load_list l) (copy_list c)"
proof (rule deep_copyI)
  show "copying m (\<lambda>h. load_list l h xs) (\<lambda>s. copy_list c s xs) (\<lambda>ys v. load_list l m ys = Some v)" for m xs
  proof (induction xs)
    case (Cons x xs)
    show ?case unfolding load_list.simps copy_list.simps
      by (intro copying_field [OF d] copying_bind [OF Cons.IH] copying_done) simp
  qed (simp add: copying_done)
qed

text \<open>A pointer: what is behind it is copied, then the cell itself.\<close>

lemma deep_copy_ref:
  assumes d: "deep_copy l c" and mk: "\<And>x. view (mk x) = Some x"
  shows "deep_copy (load_ref view l) (copy_ref view mk c)"
proof
  fix m p v m'
  assume l: "load_ref view l m p = Some v" and le: "m \<subseteq>\<^sub>m m'"
  show "load_ref view l m' p = Some v"
  proof (cases p)
    case (Some a)
    then obtain c x w where x: "m a = Some c" "view c = Some x" "l m x = Some w" "v = Some w"
      using l by (auto simp: load_ref_def bind_eq_Some_conv)
    have "m' a = Some c" using le x(1) by (auto simp: map_le_def dom_def)
    thus ?thesis using deep_copy.load_mono [OF d x(3) le] x by (simp add: load_ref_def Some)
  qed (use l in \<open>simp add: load_ref_def\<close>)
next
  fix s p v
  assume ok: "store_ok s" and l: "load_ref view l (so_cells s) p = Some v"
  show "\<exists>s' q. copy_ref view mk c s p = Some (s', q) \<and> grows s s' \<and> load_ref view l (fresh_part s s') q = Some v"
  proof (cases p)
    case None
    thus ?thesis using ok l by (simp add: load_ref_def copy_ref_def grows_refl)
  next
    case (Some a)
    then obtain e x w where x: "so_cells s a = Some e" "view e = Some x" "l (so_cells s) x = Some w" "v = Some w"
      using l by (auto simp: load_ref_def bind_eq_Some_conv)
    obtain s1 y where 1: "c s x = Some (s1, y)" "grows s s1" "l (fresh_part s s1) y = Some w"
      using deep_copy.cp_fresh [OF d ok x(3)] by blast
    obtain s2 b where n: "new (mk y) s1 = (s2, b)" by fastforce
    have ok1: "store_ok s1" using 1(2) by (simp add: grows_def)
    have 2: "grows s1 s2" "fresh_part s1 s2 b = Some (mk y)" using grows_new [OF ok1 n] by simp_all
    have ok2: "store_ok s2" using 2(1) by (simp add: grows_def)
    have "l (fresh_part s s2) y = Some w"
      using deep_copy.load_mono [OF d 1(3)] fresh_part_le [OF grows_refl [OF ok] 1(2) 2(1)] by blast
    moreover have "fresh_part s s2 b = Some (mk y)"
      using fresh_part_le [OF 1(2) 2(1) grows_refl [OF ok2]] 2(2) by (auto simp: map_le_def dom_def)
    ultimately show ?thesis
      using x 1(1) n grows_trans [OF 1(2) 2(1)] by (simp add: mk load_ref_def copy_ref_def Some)
  qed
qed

lemma deep_copy_assign: "(\<And>v. f v = v) \<Longrightarrow> deep_copy as_is (assign f)"
  by unfold_locales (auto simp: as_is_def assign_def grows_refl)


section \<open>The copies meet the contract\<close>

text \<open>The rules by which a struct's fields are copied, one per kind of field.\<close>

named_theorems fields

interpretation cint: deep_copy load_int copy_int
  by (intro deep_copy_ref deep_copy_assign) simp_all

interpretation cbool: deep_copy load_bool copy_bool
  by (intro deep_copy_ref deep_copy_assign) simp_all

interpretation cstr: deep_copy load_str copy_str
  by (intro deep_copy_ref deep_copy_assign) simp_all

interpretation cduration: deep_copy load_duration copy_duration
  by (intro deep_copy_ref deep_copy_assign) simp_all

interpretation cports: deep_copy load_ports copy_ports
  by (intro deep_copy_ref deep_copy_assign) simp_all

interpretation creplication: deep_copy load_replication copy_replication
  by (intro deep_copy_ref deep_copy_assign) simp_all

interpretation cstrings: deep_copy load_strings copy_strings
  by (intro deep_copy_ref deep_copy_assign) simp_all

interpretation cmembers: deep_copy load_members copy_members
  by (intro deep_copy_ref deep_copy_assign) simp_all

interpretation clabels: deep_copy load_labels copy_labels
  by (intro deep_copy_ref deep_copy_assign) simp_all

lemmas plain_fields [fields] =
  copying_field [OF cint.deep_copy_axioms] copying_field [OF cbool.deep_copy_axioms]
  copying_field [OF cstr.deep_copy_axioms] copying_field [OF cduration.deep_copy_axioms]
  copying_field [OF cports.deep_copy_axioms] copying_field [OF creplication.deep_copy_axioms]
  copying_field [OF cstrings.deep_copy_axioms] copying_field [OF cmembers.deep_copy_axioms]
  copying_field [OF clabels.deep_copy_axioms]

lemma library_copies:
  assumes "meta_copy_laws mc"
  shows "deep_copy load_quantity (copy_quantity mc)"
    and "deep_copy load_time (copy_time mc)"
    and "deep_copy load_secret (copy_secret mc)"
    and "deep_copy load_affinity (copy_affinity mc)"
    and "deep_copy load_podsec (copy_podsec mc)"
    and "deep_copy load_sec (copy_sec mc)"
    and "deep_copy load_tolerations (copy_tolerations mc)"
    and "deep_copy load_spreads (copy_spreads mc)"
    and "deep_copy load_conditions (copy_conditions mc)"
    and "deep_copy as_is (assign (mc_Quantity mc))"
    and "deep_copy as_is (assign (mc_Resources mc))"
    and "deep_copy as_is (assign (mc_ObjectMeta mc))"
    and "deep_copy as_is (assign (mc_ListMeta mc))"
  using assms by (auto intro!: deep_copy_ref deep_copy_assign map_idI simp: meta_copy_laws_def)

lemmas library_fields [fields] = copying_done library_copies [THEN copying_field]

lemma VolumeSpec_deep: "meta_copy_laws mc \<Longrightarrow> deep_copy load_VolumeSpec (VolumeSpec_DeepCopyInto mc)"
  by (rule deep_copyI, unfold load_VolumeSpec_def VolumeSpec_DeepCopyInto_def) (rule fields | assumption | simp add: load_VolumeSpec_def)+

lemma VolumeSpec_ref_deep: "meta_copy_laws mc \<Longrightarrow> deep_copy load_VolumeSpec_ref (VolumeSpec_DeepCopy mc)"
  unfolding VolumeSpec_DeepCopy_def by (intro deep_copy_ref VolumeSpec_deep views)

lemmas VolumeSpec_fields [fields] = copying_field [OF VolumeSpec_deep] copying_field [OF VolumeSpec_ref_deep]

lemma StorageSpec_deep: "meta_copy_laws mc \<Longrightarrow> deep_copy load_StorageSpec (StorageSpec_DeepCopyInto mc)"
  by (rule deep_copyI, unfold load_StorageSpec_def StorageSpec_DeepCopyInto_def) (rule fields | assumption | simp add: load_StorageSpec_def)+

lemma StorageSpec_ref_deep: "meta_copy_laws mc \<Longrightarrow> deep_copy load_StorageSpec_ref (StorageSpec_DeepCopy mc)"
  unfolding StorageSpec_DeepCopy_def by (intro deep_copy_ref StorageSpec_deep views)

lemmas StorageSpec_fields [fields] = copying_field [OF StorageSpec_deep] copying_field [OF StorageSpec_ref_deep]

lemma CertManagerSpec_deep: "meta_copy_laws mc \<Longrightarrow> deep_copy load_CertManagerSpec (CertManagerSpec_DeepCopyInto mc)"
  by (rule deep_copyI, unfold load_CertManagerSpec_def CertManagerSpec_DeepCopyInto_def) (rule fields | assumption | simp add: load_CertManagerSpec_def)+

lemma CertManagerSpec_ref_deep: "meta_copy_laws mc \<Longrightarrow> deep_copy load_CertManagerSpec_ref (CertManagerSpec_DeepCopy mc)"
  unfolding CertManagerSpec_DeepCopy_def by (intro deep_copy_ref CertManagerSpec_deep views)

lemmas CertManagerSpec_fields [fields] = copying_field [OF CertManagerSpec_deep] copying_field [OF CertManagerSpec_ref_deep]

lemma TLSSpec_deep: "meta_copy_laws mc \<Longrightarrow> deep_copy load_TLSSpec (TLSSpec_DeepCopyInto mc)"
  by (rule deep_copyI, unfold load_TLSSpec_def TLSSpec_DeepCopyInto_def) (rule fields | assumption | simp add: load_TLSSpec_def)+

lemma TLSSpec_ref_deep: "meta_copy_laws mc \<Longrightarrow> deep_copy load_TLSSpec_ref (TLSSpec_DeepCopy mc)"
  unfolding TLSSpec_DeepCopy_def by (intro deep_copy_ref TLSSpec_deep views)

lemmas TLSSpec_fields [fields] = copying_field [OF TLSSpec_deep] copying_field [OF TLSSpec_ref_deep]

lemma RaftSpec_deep: "meta_copy_laws mc \<Longrightarrow> deep_copy load_RaftSpec (RaftSpec_DeepCopyInto mc)"
  by (rule deep_copyI, unfold load_RaftSpec_def RaftSpec_DeepCopyInto_def) (rule fields | assumption | simp add: load_RaftSpec_def)+

lemma RaftSpec_ref_deep: "meta_copy_laws mc \<Longrightarrow> deep_copy load_RaftSpec_ref (RaftSpec_DeepCopy mc)"
  unfolding RaftSpec_DeepCopy_def by (intro deep_copy_ref RaftSpec_deep views)

lemmas RaftSpec_fields [fields] = copying_field [OF RaftSpec_deep] copying_field [OF RaftSpec_ref_deep]

lemma TransactionsSpec_deep: "meta_copy_laws mc \<Longrightarrow> deep_copy load_TransactionsSpec (TransactionsSpec_DeepCopyInto mc)"
  by (rule deep_copyI, unfold load_TransactionsSpec_def TransactionsSpec_DeepCopyInto_def) (rule fields | assumption | simp add: load_TransactionsSpec_def)+

lemma TransactionsSpec_ref_deep: "meta_copy_laws mc \<Longrightarrow> deep_copy load_TransactionsSpec_ref (TransactionsSpec_DeepCopy mc)"
  unfolding TransactionsSpec_DeepCopy_def by (intro deep_copy_ref TransactionsSpec_deep views)

lemmas TransactionsSpec_fields [fields] = copying_field [OF TransactionsSpec_deep] copying_field [OF TransactionsSpec_ref_deep]

lemma WorkersSpec_deep: "meta_copy_laws mc \<Longrightarrow> deep_copy load_WorkersSpec (WorkersSpec_DeepCopyInto mc)"
  by (rule deep_copyI, unfold load_WorkersSpec_def WorkersSpec_DeepCopyInto_def) (rule fields | assumption | simp add: load_WorkersSpec_def)+

lemma WorkersSpec_ref_deep: "meta_copy_laws mc \<Longrightarrow> deep_copy load_WorkersSpec_ref (WorkersSpec_DeepCopy mc)"
  unfolding WorkersSpec_DeepCopy_def by (intro deep_copy_ref WorkersSpec_deep views)

lemmas WorkersSpec_fields [fields] = copying_field [OF WorkersSpec_deep] copying_field [OF WorkersSpec_ref_deep]

lemma AutoscalingSpec_deep: "meta_copy_laws mc \<Longrightarrow> deep_copy load_AutoscalingSpec (AutoscalingSpec_DeepCopyInto mc)"
  by (rule deep_copyI, unfold load_AutoscalingSpec_def AutoscalingSpec_DeepCopyInto_def) (rule fields | assumption | simp add: load_AutoscalingSpec_def)+

lemma AutoscalingSpec_ref_deep: "meta_copy_laws mc \<Longrightarrow> deep_copy load_AutoscalingSpec_ref (AutoscalingSpec_DeepCopy mc)"
  unfolding AutoscalingSpec_DeepCopy_def by (intro deep_copy_ref AutoscalingSpec_deep views)

lemmas AutoscalingSpec_fields [fields] = copying_field [OF AutoscalingSpec_deep] copying_field [OF AutoscalingSpec_ref_deep]

lemma BackupVolumeSpec_deep: "meta_copy_laws mc \<Longrightarrow> deep_copy load_BackupVolumeSpec (BackupVolumeSpec_DeepCopyInto mc)"
  by (rule deep_copyI, unfold load_BackupVolumeSpec_def BackupVolumeSpec_DeepCopyInto_def) (rule fields | assumption | simp add: load_BackupVolumeSpec_def)+

lemma BackupVolumeSpec_ref_deep: "meta_copy_laws mc \<Longrightarrow> deep_copy load_BackupVolumeSpec_ref (BackupVolumeSpec_DeepCopy mc)"
  unfolding BackupVolumeSpec_DeepCopy_def by (intro deep_copy_ref BackupVolumeSpec_deep views)

lemmas BackupVolumeSpec_fields [fields] = copying_field [OF BackupVolumeSpec_deep] copying_field [OF BackupVolumeSpec_ref_deep]

lemma BackupRetentionSpec_deep: "meta_copy_laws mc \<Longrightarrow> deep_copy load_BackupRetentionSpec (BackupRetentionSpec_DeepCopyInto mc)"
  by (rule deep_copyI, unfold load_BackupRetentionSpec_def BackupRetentionSpec_DeepCopyInto_def) (rule fields | assumption | simp add: load_BackupRetentionSpec_def)+

lemma BackupRetentionSpec_ref_deep: "meta_copy_laws mc \<Longrightarrow> deep_copy load_BackupRetentionSpec_ref (BackupRetentionSpec_DeepCopy mc)"
  unfolding BackupRetentionSpec_DeepCopy_def by (intro deep_copy_ref BackupRetentionSpec_deep views)

lemmas BackupRetentionSpec_fields [fields] = copying_field [OF BackupRetentionSpec_deep] copying_field [OF BackupRetentionSpec_ref_deep]

lemma BackupSpec_deep: "meta_copy_laws mc \<Longrightarrow> deep_copy load_BackupSpec (BackupSpec_DeepCopyInto mc)"
  by (rule deep_copyI, unfold load_BackupSpec_def BackupSpec_DeepCopyInto_def) (rule fields | assumption | simp add: load_BackupSpec_def)+

lemma BackupSpec_ref_deep: "meta_copy_laws mc \<Longrightarrow> deep_copy load_BackupSpec_ref (BackupSpec_DeepCopy mc)"
  unfolding BackupSpec_DeepCopy_def by (intro deep_copy_ref BackupSpec_deep views)

lemmas BackupSpec_fields [fields] = copying_field [OF BackupSpec_deep] copying_field [OF BackupSpec_ref_deep]

lemma KahunaClusterSpec_deep: "meta_copy_laws mc \<Longrightarrow> deep_copy load_KahunaClusterSpec (KahunaClusterSpec_DeepCopyInto mc)"
  by (rule deep_copyI, unfold load_KahunaClusterSpec_def KahunaClusterSpec_DeepCopyInto_def) (rule fields | assumption | simp add: load_KahunaClusterSpec_def)+

lemma KahunaClusterSpec_ref_deep: "meta_copy_laws mc \<Longrightarrow> deep_copy load_KahunaClusterSpec_ref (KahunaClusterSpec_DeepCopy mc)"
  unfolding KahunaClusterSpec_DeepCopy_def by (intro deep_copy_ref KahunaClusterSpec_deep views)

lemmas KahunaClusterSpec_fields [fields] = copying_field [OF KahunaClusterSpec_deep] copying_field [OF KahunaClusterSpec_ref_deep]

lemma AutoscalingStatus_deep: "meta_copy_laws mc \<Longrightarrow> deep_copy load_AutoscalingStatus (AutoscalingStatus_DeepCopyInto mc)"
  by (rule deep_copyI, unfold load_AutoscalingStatus_def AutoscalingStatus_DeepCopyInto_def) (rule fields | assumption | simp add: load_AutoscalingStatus_def)+

lemma AutoscalingStatus_ref_deep: "meta_copy_laws mc \<Longrightarrow> deep_copy load_AutoscalingStatus_ref (AutoscalingStatus_DeepCopy mc)"
  unfolding AutoscalingStatus_DeepCopy_def by (intro deep_copy_ref AutoscalingStatus_deep views)

lemmas AutoscalingStatus_fields [fields] = copying_field [OF AutoscalingStatus_deep] copying_field [OF AutoscalingStatus_ref_deep]

lemma BackupStatus_deep: "meta_copy_laws mc \<Longrightarrow> deep_copy load_BackupStatus (BackupStatus_DeepCopyInto mc)"
  by (rule deep_copyI, unfold load_BackupStatus_def BackupStatus_DeepCopyInto_def) (rule fields | assumption | simp add: load_BackupStatus_def)+

lemma BackupStatus_ref_deep: "meta_copy_laws mc \<Longrightarrow> deep_copy load_BackupStatus_ref (BackupStatus_DeepCopy mc)"
  unfolding BackupStatus_DeepCopy_def by (intro deep_copy_ref BackupStatus_deep views)

lemmas BackupStatus_fields [fields] = copying_field [OF BackupStatus_deep] copying_field [OF BackupStatus_ref_deep]

lemma KahunaClusterStatus_deep: "meta_copy_laws mc \<Longrightarrow> deep_copy load_KahunaClusterStatus (KahunaClusterStatus_DeepCopyInto mc)"
  by (rule deep_copyI, unfold load_KahunaClusterStatus_def KahunaClusterStatus_DeepCopyInto_def) (rule fields | assumption | simp add: load_KahunaClusterStatus_def)+

lemma KahunaClusterStatus_ref_deep: "meta_copy_laws mc \<Longrightarrow> deep_copy load_KahunaClusterStatus_ref (KahunaClusterStatus_DeepCopy mc)"
  unfolding KahunaClusterStatus_DeepCopy_def by (intro deep_copy_ref KahunaClusterStatus_deep views)

lemmas KahunaClusterStatus_fields [fields] = copying_field [OF KahunaClusterStatus_deep] copying_field [OF KahunaClusterStatus_ref_deep]

lemma KahunaCluster_deep: "meta_copy_laws mc \<Longrightarrow> deep_copy load_KahunaCluster (KahunaCluster_DeepCopyInto mc)"
  by (rule deep_copyI, unfold load_KahunaCluster_def KahunaCluster_DeepCopyInto_def) (rule fields | assumption | simp add: load_KahunaCluster_def)+

lemma KahunaCluster_ref_deep: "meta_copy_laws mc \<Longrightarrow> deep_copy load_KahunaCluster_ref (KahunaCluster_DeepCopy mc)"
  unfolding KahunaCluster_DeepCopy_def by (intro deep_copy_ref KahunaCluster_deep views)

lemmas KahunaCluster_fields [fields] = copying_field [OF KahunaCluster_deep] copying_field [OF KahunaCluster_ref_deep]

lemma items_deep: "meta_copy_laws mc \<Longrightarrow> deep_copy (load_ref clusters_view (load_list load_KahunaCluster))
    (copy_ref clusters_view ClustersCell (copy_list (KahunaCluster_DeepCopyInto mc)))"
  by (intro deep_copy_ref deep_copy_list KahunaCluster_deep views)

lemmas items_fields [fields] = copying_field [OF items_deep]

lemma KahunaClusterList_deep: "meta_copy_laws mc \<Longrightarrow> deep_copy load_KahunaClusterList (KahunaClusterList_DeepCopyInto mc)"
  by (rule deep_copyI, unfold load_KahunaClusterList_def KahunaClusterList_DeepCopyInto_def) (rule fields | assumption | simp add: load_KahunaClusterList_def)+

lemma KahunaClusterList_ref_deep: "meta_copy_laws mc \<Longrightarrow> deep_copy load_KahunaClusterList_ref (KahunaClusterList_DeepCopy mc)"
  unfolding KahunaClusterList_DeepCopy_def by (intro deep_copy_ref KahunaClusterList_deep views)

lemma object_copies:
  "KahunaCluster_DeepCopyObject mc = KahunaCluster_DeepCopy mc"
  "KahunaClusterList_DeepCopyObject mc = KahunaClusterList_DeepCopy mc"
  by (auto simp: fun_eq_iff KahunaCluster_DeepCopyObject_def KahunaClusterList_DeepCopyObject_def split: bind_splits)


section \<open>Snapshots\<close>

definition snapshot :: "(cells \<Rightarrow> addr option \<Rightarrow> 'v option) \<Rightarrow> (store \<Rightarrow> addr option \<Rightarrow> (store \<times> addr option) option) \<Rightarrow> store \<Rightarrow> addr option \<Rightarrow> bool" where
  "snapshot load cp s p \<longleftrightarrow> (\<forall>v. load (so_cells s) p = Some v \<longrightarrow>
     (\<exists>s' q. cp s p = Some (s', q) \<and> load (so_cells s') q = Some v \<and> load (so_cells s') p = Some v \<and>
        (\<forall>m. (\<forall>a. so_next s \<le> a \<longrightarrow> m a = so_cells s' a) \<longrightarrow> load m q = Some v)))"

lemma deep_copy_snapshot:
  assumes d: "deep_copy load cp" and ok: "store_ok s"
  shows "snapshot load cp s p"
  unfolding snapshot_def
proof (intro allI impI)
  fix v
  assume l: "load (so_cells s) p = Some v"
  obtain s' q where c: "cp s p = Some (s', q)" using deep_copy.cp_fresh [OF d ok l] by blast
  show "\<exists>s' q. cp s p = Some (s', q) \<and> load (so_cells s') q = Some v \<and> load (so_cells s') p = Some v \<and>
      (\<forall>m. (\<forall>a. so_next s \<le> a \<longrightarrow> m a = so_cells s' a) \<longrightarrow> load m q = Some v)"
    using c deep_copy.cp_value [OF d ok l c] deep_copy.cp_snapshot [OF d ok l c] by blast
qed

text \<open>
  C32: the deep copy behind a pointer to a status, to its autoscaling or backup part, to a cluster or to a
  list of clusters exists, reads as the same object, and goes on reading as it whatever is written later
  to any cell that existed when the copy was made. So the copy of the stored status that a pass compares
  with cannot be changed through the status it goes on to edit.
\<close>

theorem copies_are_snapshots:
  assumes "meta_copy_laws mc" "store_ok s"
  shows "snapshot load_KahunaClusterStatus_ref (KahunaClusterStatus_DeepCopy mc) s p \<and>
    snapshot load_AutoscalingStatus_ref (AutoscalingStatus_DeepCopy mc) s p \<and>
    snapshot load_BackupStatus_ref (BackupStatus_DeepCopy mc) s p \<and>
    snapshot load_KahunaCluster_ref (KahunaCluster_DeepCopyObject mc) s p \<and>
    snapshot load_KahunaClusterList_ref (KahunaClusterList_DeepCopyObject mc) s p"
  unfolding object_copies
  by (intro conjI deep_copy_snapshot assms KahunaClusterStatus_ref_deep AutoscalingStatus_ref_deep BackupStatus_ref_deep
      KahunaCluster_ref_deep KahunaClusterList_ref_deep)

text \<open>A status with two live pointers, one to a struct that has a pointer of its own.\<close>

definition live_status :: statusMem where
  "live_status =
     \<lparr>stm_ObservedGeneration = 4, stm_Phase = None, stm_Replicas = 3, stm_ReadyReplicas = 3, stm_Voters = 3,
      stm_Learners = 0, stm_MembershipVersion = 7, stm_Members = None, stm_Bootstrapped = True, stm_BootstrapSize = 3,
      stm_CurrentImage = [], stm_LabelSelector = [], stm_UpdatePartition = Some 2, stm_Autoscaling = Some 1,
      stm_Backup = None, stm_Conditions = None\<rparr>"

definition live_autoscaling :: autoscalingMem where
  "live_autoscaling =
     \<lparr>astm_DesiredReplicas = 3, astm_RecommendedReplicas = 5, astm_WritesPerSecondPerNode = None,
      astm_QueueDepthPerNode = None, astm_AboveTargetSince = Some 0, astm_BelowTargetSince = None,
      astm_LastScaleTime = None\<rparr>"

definition live_store :: store where
  "live_store =
     \<lparr>so_cells = [0 \<mapsto> TimeCell 60, 1 \<mapsto> AutoscalingCell live_autoscaling, 2 \<mapsto> IntCell 1, 3 \<mapsto> StatusCell live_status],
      so_next = 4\<rparr>"

definition assigning_copies :: metaCopy where
  "assigning_copies =
     \<lparr>mc_Time = (\<lambda>v. v), mc_Condition = (\<lambda>v. v), mc_Quantity = (\<lambda>v. v), mc_SecretKeySelector = (\<lambda>v. v),
      mc_Resources = (\<lambda>v. v), mc_Toleration = (\<lambda>v. v), mc_Affinity = (\<lambda>v. v), mc_TopologySpreadConstraint = (\<lambda>v. v),
      mc_PodSecurityContext = (\<lambda>v. v), mc_SecurityContext = (\<lambda>v. v), mc_ObjectMeta = (\<lambda>v. v), mc_ListMeta = (\<lambda>v. v)\<rparr>"

lemmas live_defs = live_status_def live_autoscaling_def live_store_def assigning_copies_def

lemma live_loads: "load_KahunaClusterStatus_ref (so_cells live_store) (Some 3) \<noteq> None"
  by (simp add: live_defs load_KahunaClusterStatus_def load_AutoscalingStatus_def load_ref_def as_is_def)

theorem copies_are_snapshots_witness:
  "\<exists>s' q. KahunaClusterStatus_DeepCopy assigning_copies live_store (Some 3) = Some (s', q) \<and>
     load_KahunaClusterStatus_ref ((so_cells s')(0 := Some (TimeCell 99), 2 := None)) q =
     load_KahunaClusterStatus_ref (so_cells live_store) (Some 3)"
proof -
  obtain v where v: "load_KahunaClusterStatus_ref (so_cells live_store) (Some 3) = Some v" using live_loads by blast
  have "meta_copy_laws assigning_copies" "store_ok live_store"
    by (auto simp: live_defs meta_copy_laws_def store_ok_def split: if_splits)
  from copies_are_snapshots [OF this, of "Some 3"]
  have "snapshot load_KahunaClusterStatus_ref (KahunaClusterStatus_DeepCopy assigning_copies) live_store (Some 3)" by simp
  with v obtain s' q where c: "KahunaClusterStatus_DeepCopy assigning_copies live_store (Some 3) = Some (s', q)"
    and w: "\<And>m. \<forall>a. so_next live_store \<le> a \<longrightarrow> m a = so_cells s' a \<Longrightarrow> load_KahunaClusterStatus_ref m q = Some v"
    unfolding snapshot_def by blast
  have "load_KahunaClusterStatus_ref ((so_cells s')(0 := Some (TimeCell 99), 2 := None)) q = Some v"
    by (rule w) (simp add: live_store_def)
  with c v show ?thesis by simp
qed

end
