(* ===== verification/Status_Memory.thy ===== *)
theory Status_Memory
  imports Deep_Copy Status_Conditions
begin

text \<open>
  Comparing two statuses in memory, from \<open>equalStatus\<close> of
  \<open>src/internal/controller/kahunacluster_controller.go\<close>: it copies both, clears the timestamps of the
  copies' conditions in place, and compares the copies. \<open>equalStatus_mem\<close> does this on the store; the comparison
  of \<open>Status_Conditions\<close> is what it computes, and neither argument is changed by it.

  \<open>Semantic.DeepEqual\<close> of the API machinery is the parameter \<open>deq\<close>: it compares what two pointers
  point to, and does not tell a nil slice from an empty one.
\<close>


section \<open>The comparison\<close>

text \<open>The loop that assigns to the timestamp of each element of a slice.\<close>

definition zero_times :: "Condition list \<Rightarrow> Condition list" where
  "zero_times cs = fold (\<lambda>i cs. cs[i := (cs ! i)\<lparr>cond_LastTransitionTime := 0\<rparr>]) [0..<length cs] cs"

definition clear_times :: "store \<Rightarrow> addr option \<Rightarrow> store option" where
  "clear_times s x = do {
     a \<leftarrow> x;
     c \<leftarrow> so_cells s a;
     st \<leftarrow> status_view c;
     (case stm_Conditions st of
        None \<Rightarrow> Some s
      | Some b \<Rightarrow> do {
          d \<leftarrow> so_cells s b;
          cs \<leftarrow> conditions_view d;
          Some (s\<lparr>so_cells := (so_cells s)(b \<mapsto> ConditionsCell (zero_times cs))\<rparr>)
        })
   }"

type_synonym deep_equal = "cells \<Rightarrow> addr option \<Rightarrow> addr option \<Rightarrow> bool"

definition deep_equal_laws :: "deep_equal \<Rightarrow> bool" where
  "deep_equal_laws deq \<longleftrightarrow> (\<forall>m x y v w. load_KahunaClusterStatus_ref m x = Some v \<and>
     load_KahunaClusterStatus_ref m y = Some w \<longrightarrow> deq m x y = (v = w))"

definition equalStatus_mem :: "metaCopy \<Rightarrow> deep_equal \<Rightarrow> store \<Rightarrow> addr option \<Rightarrow> addr option \<Rightarrow> (store \<times> bool) option" where
  "equalStatus_mem mc deq s a b = do {
     (s, x) \<leftarrow> KahunaClusterStatus_DeepCopy mc s a;
     (s, y) \<leftarrow> KahunaClusterStatus_DeepCopy mc s b;
     s \<leftarrow> clear_times s x;
     s \<leftarrow> clear_times s y;
     Some (s, deq (so_cells s) x y)
   }"


section \<open>Clearing the timestamps\<close>

lemma zero_times_map: "zero_times cs = map (\<lambda>c. c\<lparr>cond_LastTransitionTime := 0\<rparr>) cs"
proof -
  let ?f = "\<lambda>c :: Condition. c\<lparr>cond_LastTransitionTime := 0\<rparr>"
  have "fold (\<lambda>i xs. xs[i := ?f (xs ! i)]) [0..<n] cs = map ?f (take n cs) @ drop n cs" if "n \<le> length cs" for n
    using that
  proof (induction n)
    case (Suc n)
    hence "fold (\<lambda>i xs. xs[i := ?f (xs ! i)]) [0..<Suc n] cs =
        (map ?f (take n cs) @ drop n cs)[n := ?f ((map ?f (take n cs) @ drop n cs) ! n)]" by simp
    also have "\<dots> = map ?f (take (Suc n) cs) @ drop (Suc n) cs"
      using Suc.prems by (simp add: nth_append list_update_append take_Suc_conv_app_nth flip: Cons_nth_drop_Suc)
    finally show ?case .
  qed simp
  from this [of "length cs"] show ?thesis by (simp add: zero_times_def)
qed

text \<open>
  A cell that holds conditions is seen by pointers to conditions only, so writing conditions to it
  leaves everything else that can be read as it is.
\<close>

definition rewritten :: "addr \<Rightarrow> Condition list \<Rightarrow> cells \<Rightarrow> cells" where
  "rewritten b cs m = m(b \<mapsto> ConditionsCell cs)"

lemma view_eq_Some:
  "status_view c = Some st \<longleftrightarrow> c = StatusCell st" "conditions_view c = Some cs \<longleftrightarrow> c = ConditionsCell cs"
  by (cases c; simp add: status_view_def conditions_view_def eq_commute)+

lemma other_views:
  "int_view (ConditionsCell cs) = None" "time_view (ConditionsCell cs) = None"
  "members_view (ConditionsCell cs) = None" "autoscaling_view (ConditionsCell cs) = None"
  "backup_view (ConditionsCell cs) = None" "status_view (ConditionsCell cs) = None"
  by (simp_all add: int_view_def time_view_def members_view_def autoscaling_view_def backup_view_def status_view_def)

lemma load_ref_rewritten:
  assumes "m b = Some (ConditionsCell cs0)" "\<And>cs. view (ConditionsCell cs) = None"
    and "\<And>x. load (rewritten b cs m) x = load m x"
  shows "load_ref view load (rewritten b cs m) p = load_ref view load m p"
  using assms by (auto simp: load_ref_def rewritten_def split: option.split)

lemma parts_rewritten:
  assumes "m b = Some (ConditionsCell cs0)"
  shows "load_int (rewritten b cs m) = load_int m" "load_members (rewritten b cs m) = load_members m"
    "load_AutoscalingStatus_ref (rewritten b cs m) = load_AutoscalingStatus_ref m"
    "load_BackupStatus_ref (rewritten b cs m) = load_BackupStatus_ref m"
proof -
  note R = load_ref_rewritten [where m = m and b = b, OF assms]
  have i: "load_int (rewritten b cs m) = load_int m" and t: "load_time (rewritten b cs m) = load_time m"
    and "load_members (rewritten b cs m) = load_members m"
    by (intro ext R; simp add: other_views as_is_def)+
  thus "load_int (rewritten b cs m) = load_int m" "load_members (rewritten b cs m) = load_members m" by simp_all
  show "load_AutoscalingStatus_ref (rewritten b cs m) = load_AutoscalingStatus_ref m"
    by (intro ext R) (simp_all add: other_views load_AutoscalingStatus_def i t)
  show "load_BackupStatus_ref (rewritten b cs m) = load_BackupStatus_ref m"
    by (intro ext R) (simp_all add: other_views load_BackupStatus_def i t)
qed

lemma status_rewritten:
  assumes "load_KahunaClusterStatus m st = Some v" "stm_Conditions st = Some b" "m b = Some (ConditionsCell cs)"
  shows "load_KahunaClusterStatus (rewritten b cs' m) st = Some (v\<lparr>st_Conditions := cs'\<rparr>)" "st_Conditions v = cs"
proof -
  have c: "load_conditions m (Some b) = Some (Some cs)" "load_conditions (rewritten b cs' m) (Some b) = Some (Some cs')"
    using assms(3) by (simp_all add: load_ref_def as_is_def rewritten_def)
  show "load_KahunaClusterStatus (rewritten b cs' m) st = Some (v\<lparr>st_Conditions := cs'\<rparr>)"
    using assms(1,2) c parts_rewritten [where m = m and b = b, OF assms(3)]
    by (auto simp: load_KahunaClusterStatus_def bind_eq_Some_conv nil_as_def)
  show "st_Conditions v = cs"
    using assms(1,2) c by (auto simp: load_KahunaClusterStatus_def bind_eq_Some_conv nil_as_def)
qed

text \<open>
  Clearing the timestamps behind a pointer whose status is read from the cells \<open>f\<close> writes to one of these
  cells at most, and the pointer then reads the status without timestamps.
\<close>

lemma clear_times_effect:
  assumes l: "load_KahunaClusterStatus_ref f x = Some (Some v)" and le: "f \<subseteq>\<^sub>m so_cells s"
  shows "\<exists>s'. clear_times s x = Some s' \<and> so_next s' = so_next s \<and>
    (\<forall>a. a \<notin> dom f \<longrightarrow> so_cells s' a = so_cells s a) \<and> dom (so_cells s') = dom (so_cells s) \<and>
    load_KahunaClusterStatus_ref (so_cells s' |` dom f) x = Some (Some (strip_times v))"
proof -
  obtain a st where x: "x = Some a" "f a = Some (StatusCell st)" "load_KahunaClusterStatus f st = Some v"
    using l by (auto simp: load_ref_def bind_eq_Some_conv view_eq_Some split: option.splits)
  have at: "so_cells s c = f c" if "c \<in> dom f" for c using le that by (auto simp: map_le_def)
  have a: "so_cells s a = Some (StatusCell st)" using at [of a] x(2) by auto
  have same: "so_cells s |` dom f = f" using at by (auto simp: fun_eq_iff restrict_map_def domIff)
  show ?thesis
  proof (cases "stm_Conditions st")
    case None
    have "st_Conditions v = []"
      using x(3) None by (auto simp: load_KahunaClusterStatus_def bind_eq_Some_conv nil_as_def load_ref_def)
    hence "strip_times v = v" by (simp add: strip_times_def)
    thus ?thesis using l None a same by (simp add: clear_times_def x(1))
  next
    case (Some b)
    obtain cs where b: "f b = Some (ConditionsCell cs)"
      using x(3) Some by (auto simp: load_KahunaClusterStatus_def bind_eq_Some_conv load_ref_def view_eq_Some)
    have sb: "so_cells s b = Some (ConditionsCell cs)" using at [of b] b by auto
    let ?s = "s\<lparr>so_cells := (so_cells s)(b \<mapsto> ConditionsCell (zero_times cs))\<rparr>"
    have r: "so_cells ?s |` dom f = rewritten b (zero_times cs) f"
      using at b by (auto simp: fun_eq_iff restrict_map_def rewritten_def)
    have "load_KahunaClusterStatus (rewritten b (zero_times cs) f) st = Some (strip_times v)"
      using status_rewritten [OF x(3) Some b] by (simp add: strip_times_def zero_times_map)
    moreover have "rewritten b (zero_times cs) f a = Some (StatusCell st)" using x(2) b by (auto simp: rewritten_def)
    ultimately have "load_KahunaClusterStatus_ref (rewritten b (zero_times cs) f) x = Some (Some (strip_times v))"
      by (simp add: x(1) load_ref_def)
    moreover have "clear_times s x = Some ?s" using a sb Some by (simp add: clear_times_def x(1))
    ultimately show ?thesis using b sb r by (auto intro!: exI [of _ ?s])
  qed
qed


section \<open>The comparison computes equality up to timestamps\<close>

text \<open>
  C33: comparing two statuses in memory computes their equality without the condition timestamps, and
  leaves both arguments as they were, even when they are the same object: the timestamps are
  cleared in the copies only.
\<close>

theorem equalStatus_refines:
  assumes laws: "meta_copy_laws mc" "deep_equal_laws deq" and ok: "store_ok s"
    and a: "load_KahunaClusterStatus_ref (so_cells s) a = Some (Some va)"
    and b: "load_KahunaClusterStatus_ref (so_cells s) b = Some (Some vb)"
  shows "\<exists>s'. equalStatus_mem mc deq s a b = Some (s', equalStatus va vb) \<and>
    load_KahunaClusterStatus_ref (so_cells s') a = Some (Some va) \<and>
    load_KahunaClusterStatus_ref (so_cells s') b = Some (Some vb)"
proof -
  let ?load = load_KahunaClusterStatus_ref
  note d = KahunaClusterStatus_ref_deep [OF laws(1)]
  note mono = deep_copy.load_mono [OF d]
  obtain s1 x where 1: "KahunaClusterStatus_DeepCopy mc s a = Some (s1, x)" "grows s s1" "?load (fresh_part s s1) x = Some (Some va)"
    using deep_copy.cp_fresh [OF d ok a] by blast
  have ok1: "store_ok s1" "?load (so_cells s1) b = Some (Some vb)" using 1(2) mono [OF b] by (simp_all add: grows_def)
  obtain s2 y where 2: "KahunaClusterStatus_DeepCopy mc s1 b = Some (s2, y)" "grows s1 s2" "?load (fresh_part s1 s2) y = Some (Some vb)"
    using deep_copy.cp_fresh [OF d ok1] by blast
  let ?f = "fresh_part s s1" and ?g = "fresh_part s1 s2"
  have le: "fresh_part t u \<subseteq>\<^sub>m so_cells u" for t u by (auto simp: fresh_part_def map_le_def)
  have in2: "so_cells s1 \<subseteq>\<^sub>m so_cells s2" using 2(2) by (simp add: grows_def)
  have f: "?f \<subseteq>\<^sub>m so_cells s2" and g: "?g \<subseteq>\<^sub>m so_cells s2" and s: "so_cells s \<subseteq>\<^sub>m so_cells s2"
    using map_le_trans [OF le in2] le map_le_trans [OF _ in2, of "so_cells s"] 1(2) by (simp_all add: grows_def)
  have apart: "dom ?f \<inter> dom ?g = {}" "dom (so_cells s) \<inter> dom ?f = {}" "dom (so_cells s) \<inter> dom ?g = {}"
    using ok ok1(1) 1(2) by (force simp: store_ok_def grows_def fresh_part_def restrict_map_def split: if_splits)+
  obtain s3 where 3: "clear_times s2 x = Some s3" "\<And>c. c \<notin> dom ?f \<Longrightarrow> so_cells s3 c = so_cells s2 c"
    "?load (so_cells s3 |` dom ?f) x = Some (Some (strip_times va))"
    using clear_times_effect [OF 1(3) f] by blast
  have g3: "?g \<subseteq>\<^sub>m so_cells s3" using g 3(2) apart(1) unfolding map_le_def by (metis IntI empty_iff)
  obtain s4 where 4: "clear_times s3 y = Some s4" "\<And>c. c \<notin> dom ?g \<Longrightarrow> so_cells s4 c = so_cells s3 c"
    "?load (so_cells s4 |` dom ?g) y = Some (Some (strip_times vb))"
    using clear_times_effect [OF 2(3) g3] by blast
  have "so_cells s \<subseteq>\<^sub>m so_cells s4" using s 3(2) 4(2) apart(2,3) by (fastforce simp: map_le_def)
  hence args: "?load (so_cells s4) a = Some (Some va)" "?load (so_cells s4) b = Some (Some vb)"
    using mono [OF a] mono [OF b] by blast+
  have "so_cells s4 c = so_cells s3 c" if "c \<in> dom ?f" for c using 4(2) apart(1) that by blast
  hence "so_cells s3 |` dom ?f \<subseteq>\<^sub>m so_cells s4" "so_cells s4 |` dom ?g \<subseteq>\<^sub>m so_cells s4"
    by (auto simp: map_le_def)
  hence "?load (so_cells s4) x = Some (Some (strip_times va))" "?load (so_cells s4) y = Some (Some (strip_times vb))"
    using mono [OF 3(3)] mono [OF 4(3)] by blast+
  hence "deq (so_cells s4) x y = equalStatus va vb" using laws(2) by (auto simp: deep_equal_laws_def equalStatus_def)
  hence "equalStatus_mem mc deq s a b = Some (s4, equalStatus va vb)"
    using 1(1) 2(1) 3(1) 4(1) by (simp add: equalStatus_mem_def)
  with args show ?thesis by blast
qed

text \<open>A status with a condition, compared with itself at a later time.\<close>

definition timed_condition :: "gotime \<Rightarrow> Condition" where
  "timed_condition t = \<lparr>cond_Type = ConditionAvailable, cond_Status = ConditionTrue, cond_Reason = ''QuorumReady'',
     cond_Message = [], cond_LastTransitionTime = t\<rparr>"

definition timed_store :: store where
  "timed_store =
     \<lparr>so_cells = [0 \<mapsto> ConditionsCell [timed_condition 60], 1 \<mapsto> StatusCell (live_status\<lparr>stm_UpdatePartition := None,
        stm_Autoscaling := None, stm_Conditions := Some 0\<rparr>), 2 \<mapsto> ConditionsCell [timed_condition 90],
        3 \<mapsto> StatusCell (live_status\<lparr>stm_UpdatePartition := None, stm_Autoscaling := None, stm_Conditions := Some 2\<rparr>)],
      so_next = 4\<rparr>"

definition loaded_equal :: deep_equal where
  "loaded_equal m x y \<longleftrightarrow> load_KahunaClusterStatus_ref m x = load_KahunaClusterStatus_ref m y"

theorem equalStatus_refines_witness:
  "\<exists>s' va. equalStatus_mem assigning_copies loaded_equal timed_store (Some 1) (Some 3) = Some (s', True) \<and>
     load_KahunaClusterStatus_ref (so_cells s') (Some 1) = Some (Some va) \<and> st_Conditions va = [timed_condition 60]"
proof -
  have "meta_copy_laws assigning_copies" "deep_equal_laws loaded_equal" "store_ok timed_store"
    by (auto simp: assigning_copies_def meta_copy_laws_def deep_equal_laws_def loaded_equal_def store_ok_def timed_store_def
        split: if_splits)
  note laws = this
  define v where "v t = \<lparr>st_ObservedGeneration = 4, st_Phase = None, st_Replicas = 3, st_ReadyReplicas = 3, st_Voters = 3,
    st_Learners = 0, st_MembershipVersion = 7, st_Members = [], st_Bootstrapped = True, st_BootstrapSize = 3,
    st_CurrentImage = [], st_LabelSelector = [], st_UpdatePartition = None, st_Autoscaling = None, st_Backup = None,
    st_Conditions = [timed_condition t]\<rparr>" for t
  have l: "load_KahunaClusterStatus_ref (so_cells timed_store) (Some 1) = Some (Some (v 60))"
    "load_KahunaClusterStatus_ref (so_cells timed_store) (Some 3) = Some (Some (v 90))"
    by (simp_all add: timed_store_def load_ref_def load_KahunaClusterStatus_def live_status_def as_is_def nil_as_def v_def)
  have "equalStatus (v 60) (v 90)" by (simp add: v_def equalStatus_def strip_times_def timed_condition_def)
  thus ?thesis using equalStatus_refines [OF laws l] by (auto simp: v_def)
qed

end
