(* ===== verification/Spec2Isabelle.thy ===== *)
theory Spec2Isabelle
  imports Isolation Manager Status_Memory
begin

text \<open>
  A verification library of the Kahuna Kubernetes operator. The operator keeps a KahunaCluster resource
  and the objects behind it in step: a StatefulSet of Kahuna servers, its services, its startup script, its
  keystore, its backup volume, and the status the user reads. It decides when the cluster may grow or shrink,
  asks a node to leave before removing it, scales with traffic, and takes backups on a schedule.

  \<^bold>\<open>The parts and how they interact.\<close> The controller library calls \<open>Reconcile\<close>
  (\<open>src/internal/controller/kahunacluster_controller.go\<close>) for one cluster at a time. A pass reads the
  resource, pins the founding size, writes the managed objects (\<open>resources.go\<close>, \<open>entrypoint.go\<close>,
  \<open>certificate.go\<close>, the volume and key of \<open>backup.go\<close>), lists the pods, asks the servers for the committed
  roster and the replica placement (\<open>membership.go\<close>, over \<open>src/internal/kahuna/client.go\<close>), lets the
  autoscaler set the desired size (\<open>autoscaler.go\<close>), plans the size of the StatefulSet (\<open>plan.go\<close>), runs the
  backup scheduler (\<open>backup.go\<close>), and writes the status. Backups themselves run beside the passes, in
  \<open>backupRunner\<close>. The resource is declared in \<open>src/api/v1alpha1/kahunacluster_types.go\<close>. The process that hosts
  all this is set up by \<open>src/cmd/main.go\<close>.

  \<^bold>\<open>How the code is represented.\<close> Structs are records with one field per field of the source, enums are
  datatypes, pointers are options, maps are partial functions, strings are byte strings. Integers are \<open>int\<close>
  with the wrap-around of their width written out (\<open>wrap32\<close>, \<open>wrap64\<close>) and \<open>in32\<close>/\<open>in64\<close> as the range;
  \<open>float64\<close> is rational arithmetic with IEEE rounding, infinities and NaN; times and durations are integer
  nanoseconds. An error return is the left of a sum, a panic (nil dereference, division by zero) is a value of
  \<open>panic\<close>. The reconciler's own state (traffic samples, running backups) is passed in and returned in
  \<open>pass_result\<close>; everything outside is a world of arbitrary type that each call takes and returns, so an
  effect or an interleaved change between two calls is visible.

  \<^bold>\<open>The theories.\<close>
  \<^item> \<open>Go_Prelude\<close>, \<open>Go_Float\<close>, \<open>Go_Format\<close>, \<open>Go_Sha256\<close>: the language and the standard library as far as
    the operator uses them: integers, strings, sorting, decimal numbers, \<open>float64\<close>, time and duration texts, quoting,
    Base64, SHA-256. Their lemmas (rounding keeps signs and is exact on integers below 2 to the 53, decimal texts
    are injective, sorting permutes) are the library of the component proofs.
  \<^item> \<open>API_Types\<close>: the resource and its admission rules (\<open>valid_spec\<close>, \<open>valid_update\<close>, from the validation
    markers), which are the hypotheses that keep sizes in range.
  \<^item> \<open>Object_Memory\<close>, \<open>Deep_Copy\<close>: the resource as Go holds it, with pointers into a store, and every function
    of \<open>src/api/v1alpha1/zz_generated.deepcopy.go\<close>. The locale \<open>deep_copy\<close> is the contract of a copy;
    \<open>copies_are_snapshots\<close> justifies that the other theories treat the copies a pass makes as values.
    \<open>Status_Memory\<close> has the one function that writes to its copies, \<open>equalStatus\<close>, on the same store.
  \<^item> \<open>Kahuna_Client\<close>: the documents and calls of \<open>src/internal/kahuna/client.go\<close>; sending a request and decoding
    a JSON body are parameters.
  \<^item> \<open>Naming\<close> (\<open>naming.go\<close>): names and addresses, and the locale \<open>roster_names\<close>, interpreted as \<open>rn\<close> on Raft
    endpoints: addresses identify ordinals, so counting and covering a roster coincide.
  \<^item> \<open>Cluster_Members\<close> (\<open>membership.go\<close>): reading the roster, joining it to the pods, decommissioning a node.
  \<^item> \<open>Replica_Placement\<close> and \<open>Autoscaler\<close> (\<open>autoscaler.go\<close>): whether replicas have settled; samples, signals, the
    decision, the whole autoscaling pass, and runs of passes (\<open>autoscale_run\<close>).
  \<^item> \<open>Scale_Plan\<close> (\<open>plan.go\<close>): \<open>rosterMatches\<close>, \<open>buildPlan\<close>. The locale \<open>one_node_stepper\<close> states what a size
    that moves one node at a time guarantees; it is interpreted on the plan (\<open>ps\<close>) and on the autoscaler's
    decision (\<open>as\<close>).
  \<^item> \<open>Status_Conditions\<close>: \<open>setCondition\<close> and \<open>equalStatus\<close>.
  \<^item> \<open>Entrypoint\<close> (\<open>entrypoint.go\<close>): the server's arguments, the startup script as text, and what a shell does when
    it runs that script on a pod (\<open>run_entrypoint\<close>).
  \<^item> \<open>Backup_Schedule\<close>, \<open>Backup_Runner\<close>, \<open>Backups\<close> (\<open>backup.go\<close>): what is due, the runner with its jobs shared
    between the pass and the goroutine, the request to the nodes, the result, the volume and key, and
    \<open>reconcileBackup\<close>. The locale \<open>job_store\<close> is the runner's abstract contract, a map from clusters to jobs; it is
    interpreted as \<open>jr\<close> on the runner and its heap.
  \<^item> \<open>Kube_API\<close>: the objects, the API server as a record of calls, the laws, and a server in memory that obeys
    them.
  \<^item> \<open>Resources\<close> (\<open>resources.go\<close>), \<open>Certificates\<close> (\<open>certificate.go\<close>): the desired objects; the keystore password,
    the certificate, stale keystores.
  \<^item> \<open>Controller\<close>: every handler of \<open>kahunacluster_controller.go\<close> and \<open>Reconcile\<close>, with frame lemmas (what each
    step leaves alone), case rules for the ways a pass can go, and the lemmas on what a pass stores.
  \<^item> \<open>Operator\<close>: the running operator as a state machine, \<open>operator_reach\<close>. Its state is the outside world, the
    sampler and the runner that \<open>KahunaClusterReconciler\<close> keeps between passes, and the goroutines that
    \<open>backupRunner.start\<close> left running; its steps are passes, panics, ends of goroutines, restarts and changes outside. The
    invariant \<open>operator_ok\<close> ties the runner's jobs to the goroutines.
  \<^item> \<open>Isolation\<close>: passes over different clusters, and which objects two clusters could share.
  \<^item> \<open>Manager\<close> (\<open>src/cmd/main.go\<close>, \<open>groupversion_info.go\<close>, \<open>SetupWithManager\<close>): the command line as Go's \<open>flag\<close>
    package reads it, the options of the servers, the registration of the types, and the calls of \<open>main\<close> in order.
  \<^item> This theory: the properties of whole passes and of sequences of passes.

  \<^bold>\<open>What is shown.\<close> Of whole passes: a bootstrapped cluster shrinks by one node at a time and only after
  the roster, the placement and the node itself agree (\<open>Reconcile_shrinks_safely\<close>); no claim that can hold data and no secret but a
  stale keystore is lost (\<open>Reconcile_keeps_data\<close>); the founding fields are never revised
  (\<open>founding_is_permanent\<close>, over \<open>operator_run\<close>: passes interleaved with changes by others that leave the stored statuses alone); the pod
  template is applied and the immutable parts are kept; a successful pass is always followed by another one; a pass
  leaves the StatefulSet, status, backup and samples of every other cluster alone (\<open>Reconcile_touches_own\<close>). Of the
  running operator: passes without autoscaling keep returning however long it has run (\<open>operator_passes_return\<close>); the backups of a
  cluster that stays in place never overlap (\<open>backups_never_overlap\<close>); a backup that succeeds is in the stored
  status after the next successful pass (\<open>backup_result_recorded\<close>). Of the process: its servers are closed unless the command line
  opens them, and the manager starts last. Of the parts: the size
  reaches its target when the cluster keeps up (\<open>buildPlan_reaches_target\<close>); autoscaling steps stay in
  bounds, obey their windows and are apart in time; backups start only when safe, start when due, are never sent to
  two nodes, and their results are delivered once; the runner refines its store; the doubling loop of the retry
  delay equals its closed form; the script passes each node its own identity; the objects fit together (mounts, volumes,
  certificate names); deep copies are snapshots, and comparing statuses through them is comparing values. Some theorems record what the code does where it departs from its
  documentation: \<open>reconcileAutoscaling_panics_iff\<close>, \<open>unbootstrapped_shrink_at_once\<close>,
  \<open>run_entrypoint_repeats_node_flag\<close>, \<open>forgotten_backup_overlaps\<close>, \<open>owned_objects_clash_iff\<close>.

  \<^bold>\<open>Loops and bounds.\<close> Every loop of the source runs over a list or a counter and is a structural recursion, so
  every definition is total. \<open>latestDue\<close> walks at most \<open>maxMissedSchedules\<close> = 100000 missed times, as the code
  does, and the bound is the recursion's fuel; \<open>latestDue_latest\<close> shows that it ends at the latest missed time whenever no more
  than that many were missed. \<open>flag_Parse\<close> recurses on the arguments left.
  \<open>autoscale_run\<close>, \<open>operator_run\<close> and \<open>operator_reach\<close> have no bound.

  \<^bold>\<open>Parameters and their laws.\<close> Code that is not in the repository is an argument of the definitions:
  the API server and its client (\<open>kb\<close>, with \<open>kube_laws\<close>, \<open>status_laws\<close> and \<open>backup_laws\<close>: what a read returns, what a
  write may change, also when it fails, and which fields an accepted status write stores as sent), the condition helpers of the API machinery (\<open>am\<close>, \<open>apimeta_laws\<close>), the cron parser (\<open>parse\<close>, with the
  laws of a schedule in \<open>Backup_Schedule\<close>), the text of a label selector (\<open>sel\<close>), the size of a quantity (\<open>qv\<close>),
  the conversion of a float that no integer represents (\<open>impl\<close>), the copies of the Kubernetes structs (\<open>mc\<close>,
  \<open>meta_copy_laws\<close>) and the semantic comparison of statuses (\<open>deep_equal_laws\<close>), and for \<open>main\<close> the controller library (\<open>mgr\<close>),
  the scheme and the flags of other libraries (\<open>lib\<close>), on which nothing is assumed. Each property with such a hypothesis has a witness on a concrete instance.

  \<^bold>\<open>Not modelled.\<close> \<open>src/test/utils\<close> drives command-line tools for the end-to-end tests and is no part of the
  operator. Log output, the HTTP transport and its deadlines, JSON, and the cron syntax (\<open>parseSchedule\<close> only calls the cron
  library) are outside the model. Passes are whole steps of \<open>operator_reach\<close>, while the operator runs up to four of them in
  parallel, never two of one cluster. Two passes in parallel share only the runner and the sampler, whose operations take a lock and
  are keyed by cluster, and \<open>Reconcile_touches_own\<close> shows that a pass leaves what the other works on alone; but the
  interleaving of their single calls is not part of the model.
\<close>


section \<open>What a pass leaves stored\<close>

lemma pass_sts_effect:
  assumes laws: "kube_laws V kb"
    and run: "reconcile_cluster impl qv am sel parse kb c b pods traffic backups w = (w', r)"
  defines "m \<equiv> known_membership kb c pods w"
    and "pl \<equiv> fst (known_placement kb c pods w)" and "perr \<equiv> snd (known_placement kb c pods w)"
  shows "vw_StatefulSet V w' = vw_StatefulSet V w \<and> (\<forall>x d. r = Inr x \<longrightarrow> pr_result x \<noteq> Inr d) \<or>
    (\<exists>st y. sts_created impl qv V (c\<lparr>kc_Status := st\<rparr>) y w w' \<or>
       sts_planned impl qv V kb (c\<lparr>kc_Status := st\<rparr>) b m pl perr pods (sts_read kb c w) y w w')"
proof -
  let ?view = "vw_StatefulSet V"
  have calls: "calls_keep ?view kb" "reads_keep ?view kb" "\<forall>k. keeps ?view (ka_Get (kb_Secret kb) k)" "resource_keeps ?view (kb_PVC kb)"
    using laws by (simp_all add: kube_laws_def calls_keep_def resource_keeps_def)
  have gets: "\<forall>k. keeps ?view (ka_Get (kb_PVC kb) k)" "\<forall>k. keeps ?view (ka_Get (kb_StatefulSet kb) k)"
    using calls(4) kube_sts_laws [OF laws] by (simp_all add: resource_keeps_def resource_laws_def keeps_def)
  note bk = reconcileBackup_frame [OF gets(1) calls(2)]
  have upd: "?view (fst (kb_UpdateStatus kb x w1)) = ?view w1" for x w1
    using calls(1) by (simp add: calls_keep_def keeps_def)
  have status: "?view w3 = ?view w2" if "reconcileStatus am sel kb c' p s pods m' w2 = (w3, x)" for c' p s m' w2 w3 x
    using reconcileStatus_write [OF gets(2) calls(3) that] upd by metis
  from run show ?thesis
  proof (cases rule: reconcile_cluster_cases)
    case (sts_failed st t err)
    from reconcileStatefulSet_effect [OF laws sts_failed(2)] sts_failed(3) show ?thesis
      unfolding m_def pl_def perr_def by auto
  next
    case (backup_panicked st t w1 sts p)
    have "?view w' = ?view w1" using bk backup_panicked(3) by blast
    from reconcileStatefulSet_effect [OF laws backup_panicked(2)] show ?thesis
      unfolding m_def pl_def perr_def sts_effect_cong [OF \<open>?view w' = ?view w1\<close>] by auto
  next
    case (finished st t w1 sts w2 st2 b2 wake launch res)
    have "?view w' = ?view w1" using bk [OF finished(3)] status [OF finished(4)] by simp
    from reconcileStatefulSet_effect [OF laws finished(2)] show ?thesis
      unfolding m_def pl_def perr_def sts_effect_cong [OF \<open>?view w' = ?view w1\<close>] by auto
  qed auto
qed

text \<open>
  The pass that read cluster \<open>c\<close> and was then in world \<open>w0\<close> has pinned the founding size, which gave \<open>c1\<close>,
  put the objects in place and listed the pods, and is now in world \<open>wr\<close>.
\<close>

definition pass_reaches :: "f64_impl \<Rightarrow> (quantity \<Rightarrow> int64) \<Rightarrow> 'w kube \<Rightarrow> KahunaCluster \<Rightarrow> 'w \<Rightarrow> KahunaCluster \<Rightarrow> Pod list \<Rightarrow> 'w \<Rightarrow> bool" where
  "pass_reaches impl qv kb c w0 c1 pods wr \<longleftrightarrow>
     (\<exists>w1 wp. pin_bootstrap_size kb c w0 = (w1, Inr c1) \<and> reconcile_objects impl qv kb c1 w1 = (wp, None) \<and>
        listPods kb c1 wp = (wr, Inr pods))"

text \<open>A pass that touches a StatefulSet has come that far, and \<open>cl\<close> is its cluster up to the status.\<close>

lemma Reconcile_sts_effect:
  assumes laws: "kube_laws V kb" "status_laws vs kb"
    and run: "Reconcile impl qv am sel parse kb req traffic backups w = (w', r)"
    and read: "kb_GetCluster kb req w = (w0, Inr c)"
  shows "vw_StatefulSet V w' = vw_StatefulSet V w \<and> (\<forall>x d. r = Inr x \<longrightarrow> pr_result x \<noteq> Inr d) \<or>
    (\<exists>c1 st cl y pods wr. pass_reaches impl qv kb c w0 c1 pods wr \<and> cl = c1\<lparr>kc_Status := st\<rparr> \<and>
       kc_Spec cl = kc_Spec c \<and> (kc_Namespace cl, kc_Name cl) = req \<and>
       (sts_created impl qv V cl y w w' \<or>
        sts_planned impl qv V kb cl (st_Bootstrapped (kc_Status c)) (known_membership kb cl pods wr)
          (fst (known_placement kb cl pods wr)) (snd (known_placement kb cl pods wr)) pods (sts_read kb cl wr) y w w'))"
proof -
  let ?view = "vw_StatefulSet V"
  have O: "objects_keep ?view kb" by (rule kube_objects_keep [OF laws(1)])
  hence R: "reads_keep ?view kb" by (simp add: objects_keep_def)
  have "calls_keep ?view kb" using laws(1) by (simp add: kube_laws_def)
  note pin = pin_bootstrap_size_frame [OF this] and list = listPods_frame [OF R]
  have v0: "?view w0 = ?view w" by (rule reads_keepD(1) [OF R read])
  note objects = reconcile_objects_frame [OF O]
  have key: "(kc_Namespace c, kc_Name c) = req" and st: "vs w0 (kc_Namespace c, kc_Name c) = Some (kc_Status c)"
    using status_get(1) [OF laws(2) read] status_get(2,3) [OF laws(2) read refl] by simp_all
  from run show ?thesis
  proof (cases rule: Reconcile_cases)
    case (unread err)
    thus ?thesis using read by simp
  next
    case (unpinned c' w0' err)
    thus ?thesis using read v0 pin by auto
  next
    case (objects_failed c' w0' c1 w1 err)
    thus ?thesis using read v0 pin objects by (metis Pair_inject Inl_Inr_False Inr_inject)
  next
    case (unlisted c' w0' c1 w1 w2 err)
    thus ?thesis using read v0 pin objects list by (metis Pair_inject Inl_Inr_False Inr_inject)
  next
    case (listed c' w0' c1 w1 w2 w3 pods)
    have same: "c' = c" "w0' = w0" using listed(1) read by simp_all
    note P = pin_bootstrap_size_stored(2) [OF laws(2) listed(2) [unfolded same] st refl]
    have v3: "?view w3 = ?view w" using v0 pin [OF listed(2)] objects [OF listed(3)] list [OF listed(4)] same by simp
    have far: "pass_reaches impl qv kb c w0 c1 pods w3" using listed(2-4) same unfolding pass_reaches_def by blast
    have eff: "sts_created impl qv V x y w3 w' = sts_created impl qv V x y w w'"
      "sts_planned impl qv V kb x b m pl perr pods wl y w3 w' = sts_planned impl qv V kb x b m pl perr pods wl y w w'"
      for x y b m pl perr wl
      by (simp_all add: sts_created_def sts_planned_def v3)
    from pass_sts_effect [OF laws(1) listed(5), unfolded eff v3 same] show ?thesis
    proof (elim disjE exE)
      fix st y
      let ?cl = "c1\<lparr>kc_Status := st\<rparr>"
      have cl: "kc_Spec ?cl = kc_Spec c" "(kc_Namespace ?cl, kc_Name ?cl) = req" using P key by simp_all
      show ?thesis if "sts_created impl qv V ?cl y w w'" using far cl that by blast
      show ?thesis if "sts_planned impl qv V kb ?cl (st_Bootstrapped (kc_Status c)) (known_membership kb c1 pods w3)
          (fst (known_placement kb c1 pods w3)) (snd (known_placement kb c1 pods w3)) pods (sts_read kb c1 w3) y w w'"
        using far cl that [folded reads_status_irrelevant [where c = c1 and st = st]
          status_irrelevant(3) [where c = c1 and st = st]] by blast
    qed blast
  qed
qed

text \<open>C1: No node of a running cluster is dropped without its consent. If a pass over a bootstrapped cluster
  makes its StatefulSet smaller, it removes exactly one node and never the last one, more nodes than
  desired were running, the roster the pass read was exactly those nodes, the placement was read and
  settled, and the pod of the node that goes had no address or confirmed that it left the roster.\<close>

theorem Reconcile_shrinks_safely:
  assumes laws: "kube_laws V kb" "status_laws vs kb"
    and run: "Reconcile impl qv am sel parse kb req traffic backups w = (w', r)"
    and read: "kb_GetCluster kb req w = (w0, Inr c)" "st_Bootstrapped (kc_Status c)"
    and before: "vw_StatefulSet V w req = Some s0" "0 \<le> spec_size s0" "spec_size s0 < 2 ^ 31 - 1"
    and after: "vw_StatefulSet V w' req = Some s1" "spec_size s1 < spec_size s0"
  shows "\<exists>c1 st cl pods wr. pass_reaches impl qv kb c w0 c1 pods wr \<and> cl = c1\<lparr>kc_Status := st\<rparr> \<and>
    kc_Spec cl = kc_Spec c \<and> (kc_Namespace cl, kc_Name cl) = req \<and>
    spec_size s1 = spec_size s0 - 1 \<and> 1 \<le> spec_size s1 \<and> desiredReplicas cl < spec_size s0 \<and>
    rosterMatches cl (known_membership kb cl pods wr) (spec_size s0) \<and>
    snd (known_placement kb cl pods wr) = None \<and>
    snd (snd (placementSettled cl (fst (known_placement kb cl pods wr)) (spec_size s0))) = [] \<and>
    removal_confirmed kb cl pods (spec_size s1) (sts_read kb cl wr)"
proof -
  have changed: "vw_StatefulSet V w' \<noteq> vw_StatefulSet V w" using before(1) after by auto
  from Reconcile_sts_effect [OF laws run read(1), unfolded eqTrueI [OF read(2)]] changed obtain c1 st cl y pods wr where cl: "pass_reaches impl qv kb c w0 c1 pods wr"
    "cl = c1\<lparr>kc_Status := st\<rparr>" "kc_Spec cl = kc_Spec c" "(kc_Namespace cl, kc_Name cl) = req"
    "sts_created impl qv V cl y w w' \<or> sts_planned impl qv V kb cl True (known_membership kb cl pods wr)
       (fst (known_placement kb cl pods wr)) (snd (known_placement kb cl pods wr)) pods (sts_read kb cl wr) y w w'"
    by blast
  have key: "stsKey cl = req" using cl(4) by (simp add: stsKey_cluster_key)
  have planned: "sts_planned impl qv V kb cl True (known_membership kb cl pods wr)
       (fst (known_placement kb cl pods wr)) (snd (known_placement kb cl pods wr)) pods (sts_read kb cl wr) y w w'"
    using cl(5) before(1) key by (auto simp: sts_created_def)
  have "y = s1" using planned after(1) key by (auto simp: sts_planned_def)
  with sts_planned_shrinks [OF planned, unfolded key, OF before(1) _ before(2,3)] after(2) cl(1-4) show ?thesis by blast
qed

text \<open>C15: After a successful pass the StatefulSet is the one the specification asks for: it exists, its pods are
  built from the current pod template, and of a StatefulSet that existed before, the parts that
  Kubernetes does not allow to change (service name, selector, pod management policy, volume claim
  templates) are as they were.\<close>

theorem Reconcile_applies_template:
  assumes laws: "kube_laws V kb" "status_laws vs kb"
    and run: "Reconcile impl qv am sel parse kb req traffic backups w = (w', Inr x)"
    and ok: "pr_result x = Inr d" and read: "kb_GetCluster kb req w = (w0, Inr c)"
  shows "\<exists>cl y. kc_Spec cl = kc_Spec c \<and> (kc_Namespace cl, kc_Name cl) = req \<and>
    vw_StatefulSet V w' req = Some y \<and> ss_Template (sts_Spec y) = podTemplate impl qv cl \<and>
    (\<forall>s0. vw_StatefulSet V w req = Some s0 \<longrightarrow>
       ss_ServiceName (sts_Spec y) = ss_ServiceName (sts_Spec s0) \<and> ss_Selector (sts_Spec y) = ss_Selector (sts_Spec s0) \<and>
       ss_PodManagementPolicy (sts_Spec y) = ss_PodManagementPolicy (sts_Spec s0) \<and>
       ss_VolumeClaimTemplates (sts_Spec y) = ss_VolumeClaimTemplates (sts_Spec s0))"
proof -
  from Reconcile_sts_effect [OF laws run read] ok obtain cl y pods wr where cl: "kc_Spec cl = kc_Spec c"
    "(kc_Namespace cl, kc_Name cl) = req"
    "sts_created impl qv V cl y w w' \<or> sts_planned impl qv V kb cl (st_Bootstrapped (kc_Status c)) (known_membership kb cl pods wr)
       (fst (known_placement kb cl pods wr)) (snd (known_placement kb cl pods wr)) pods (sts_read kb cl wr) y w w'"
    by blast
  have key: "stsKey cl = req" using cl(2) by (simp add: stsKey_cluster_key)
  from cl(3) have "vw_StatefulSet V w' req = Some y \<and> ss_Template (sts_Spec y) = podTemplate impl qv cl \<and>
    (\<forall>s0. vw_StatefulSet V w req = Some s0 \<longrightarrow>
       ss_ServiceName (sts_Spec y) = ss_ServiceName (sts_Spec s0) \<and> ss_Selector (sts_Spec y) = ss_Selector (sts_Spec s0) \<and>
       ss_PodManagementPolicy (sts_Spec y) = ss_PodManagementPolicy (sts_Spec s0) \<and>
       ss_VolumeClaimTemplates (sts_Spec y) = ss_VolumeClaimTemplates (sts_Spec s0))"
  proof
    assume "sts_created impl qv V cl y w w'"
    thus ?thesis by (auto simp: sts_created_def key desiredStatefulSet_def Let_def)
  next
    assume "sts_planned impl qv V kb cl (st_Bootstrapped (kc_Status c)) (known_membership kb cl pods wr)
       (fst (known_placement kb cl pods wr)) (snd (known_placement kb cl pods wr)) pods (sts_read kb cl wr) y w w'"
    then obtain s0 p where "vw_StatefulSet V w req = Some s0" "sts_Spec y = spec_of_plan impl qv cl p (sts_Spec s0)"
      "vw_StatefulSet V w' = (vw_StatefulSet V w)(req \<mapsto> y)"
      by (auto simp: sts_planned_def key)
    thus ?thesis by (auto simp: spec_of_plan_def desiredStatefulSet_def Let_def)
  qed
  with cl(1,2) show ?thesis by blast
qed


section \<open>Data safety\<close>

definition claims_kept :: "'w kube_view \<Rightarrow> 'w \<Rightarrow> 'w \<Rightarrow> bool" where
  "claims_kept V w w' \<longleftrightarrow> (\<forall>k p. vw_PVC V w k = Some p \<and> claim_protected p \<longrightarrow> vw_PVC V w' k = Some p)"

definition secrets_kept :: "'w kube_view \<Rightarrow> 'w kube \<Rightarrow> KahunaCluster \<Rightarrow> 'w \<Rightarrow> 'w \<Rightarrow> bool" where
  "secrets_kept V kb c w w' \<longleftrightarrow> (\<forall>k s. vw_Secret V w k = Some s \<longrightarrow> vw_Secret V w' k = Some s \<or>
     k = (kc_Namespace c, tlsSecretName c) \<and> (\<exists>w1. vw_Secret V w1 k = Some s \<and> stale_keystore V kb c w1))"

lemma claims_kept_trans: "claims_kept V a b \<Longrightarrow> claims_kept V b c \<Longrightarrow> claims_kept V a c"
  by (simp add: claims_kept_def)

lemma secrets_kept_trans: "secrets_kept V kb x a b \<Longrightarrow> secrets_kept V kb x b c \<Longrightarrow> secrets_kept V kb x a c"
  unfolding secrets_kept_def by blast

lemma kept_eq:
  "vw_PVC V w' = vw_PVC V w \<Longrightarrow> claims_kept V w w'" "vw_Secret V w' = vw_Secret V w \<Longrightarrow> secrets_kept V kb c w w'"
  by (simp_all add: claims_kept_def secrets_kept_def)

lemma reconcile_objects_claims_kept:
  assumes laws: "kube_laws V kb" and run: "reconcile_objects impl qv kb c w = (w', e)"
  shows "claims_kept V w w'"
proof -
  let ?v = "vw_PVC V"
  have k: "resource_keeps ?v (kb_Secret kb)" "reads_keep ?v kb" "resource_keeps ?v (kb_Certificate kb)"
    "resource_keeps ?v (kb_Service kb)" "resource_keeps ?v (kb_ConfigMap kb)" "resource_keeps ?v (kb_PDB kb)"
    using laws by (simp_all add: kube_laws_def calls_keep_def)
  note frames = reconcileKeystorePassword_frame [OF k(1,2)] reconcileCertificate_frame [OF k(1,3)]
    reconcileServices_frame [OF k(4)] reconcileConfigMap_frame [OF k(5)] reconcilePDB_frame [OF k(6)]
  have last: "claims_kept V w1 w2" if "reconcileBackupResources kb c w1 = (w2, x)" for w1 w2 x
    using reconcileBackupResources_keeps(1) [OF laws that] by (auto simp: claims_kept_def)
  show ?thesis using run unfolding reconcile_objects_def
    by (elim and_then_rel [where rel = "claims_kept V"])
      (blast dest: wrapped_run last kept_eq(1) [OF frames(1)] kept_eq(1) [OF frames(2)] kept_eq(1) [OF frames(3)]
         kept_eq(1) [OF frames(4)] kept_eq(1) [OF frames(5)] intro: claims_kept_trans)+
qed

lemma reconcile_objects_secrets_kept:
  assumes laws: "kube_laws V kb" and run: "reconcile_objects impl qv kb c w = (w', e)"
  shows "secrets_kept V kb c w w'"
proof -
  let ?v = "vw_Secret V"
  have k: "resource_keeps ?v (kb_Service kb)" "resource_keeps ?v (kb_ConfigMap kb)" "resource_keeps ?v (kb_PDB kb)"
    using laws by (simp_all add: kube_laws_def)
  note frames = reconcileServices_frame [OF k(1)] reconcileConfigMap_frame [OF k(2)] reconcilePDB_frame [OF k(3)]
  have pw: "secrets_kept V kb c w1 w2" if "reconcileKeystorePassword kb c w1 = (w2, x)" for w1 w2 x
    using reconcileKeystorePassword_keeps [OF laws that] by (auto simp: secrets_kept_def)
  have cert: "secrets_kept V kb c w1 w2" if "reconcileCertificate kb c w1 = (w2, x)" for w1 w2 x
    using reconcileCertificate_only [OF laws that] unfolding secrets_kept_def by metis
  have last: "secrets_kept V kb c w1 w2" if "reconcileBackupResources kb c w1 = (w2, x)" for w1 w2 x
    using reconcileBackupResources_keeps(2) [OF laws that] by (auto simp: secrets_kept_def)
  show ?thesis using run unfolding reconcile_objects_def
    by (elim and_then_rel [where rel = "secrets_kept V kb c"])
      (blast dest: wrapped_run pw cert last kept_eq(2) [OF frames(1)] kept_eq(2) [OF frames(2)] kept_eq(2) [OF frames(3)]
       intro: secrets_kept_trans)+
qed

text \<open>Past the managed objects, a pass writes nothing but the StatefulSet and the status.\<close>

lemma reconcile_cluster_frame:
  assumes v: "calls_keep v kb" "resource_keeps v (kb_StatefulSet kb)" "\<forall>k. keeps v (ka_Get (kb_PVC kb) k)"
      "\<forall>k. keeps v (ka_Get (kb_Secret kb) k)"
    and run: "reconcile_cluster impl qv am sel parse kb c b pods traffic backups w = (w', r)"
  shows "v w' = v w"
proof -
  note R = calls_keepD(1) [OF v(1)]
  note frames = reconcileStatefulSet_frame [OF R v(2)] reconcileBackup_frame [OF v(3) R]
  have upd: "v (fst (kb_UpdateStatus kb x w1)) = v w1" for x w1
    using v(1) by (simp add: calls_keep_def keeps_def)
  have status: "v w3 = v w2" if "reconcileStatus am sel kb c' p s pods m' w2 = (w3, x)" for c' p s m' w2 w3 x
    using reconcileStatus_write [OF resource_gets(1) [OF v(2)] v(4) that] upd by metis
  from run show ?thesis
  proof (cases rule: reconcile_cluster_cases)
    case (finished st t w1 sts w2 st2 b2 wake launch res)
    thus ?thesis using frames(1) [OF finished(2)] frames(2) [OF finished(3)] status [OF finished(4)] by simp
  qed (use frames in \<open>auto\<close>)
qed

lemma Reconcile_frame:
  assumes laws: "status_laws vs kb"
    and v: "calls_keep v kb" "resource_keeps v (kb_StatefulSet kb)" "\<forall>k. keeps v (ka_Get (kb_PVC kb) k)"
      "\<forall>k. keeps v (ka_Get (kb_Secret kb) k)"
    and run: "Reconcile impl qv am sel parse kb req traffic backups w = (w', r)"
  shows "v w' = v w \<or> (\<exists>cl w1 w2 e. (kc_Namespace cl, kc_Name cl) = req \<and> v w1 = v w \<and>
    reconcile_objects impl qv kb cl w1 = (w2, e) \<and> v w' = v w2)"
proof -
  note R = calls_keepD(1) [OF v(1)]
  note frames = reads_keepD(1) [OF R] pin_bootstrap_size_frame [OF v(1)] listPods_frame [OF R] reconcile_cluster_frame [OF v]
  have key: "(kc_Namespace c1, kc_Name c1) = req"
    if "kb_GetCluster kb req w = (w0, Inr c)" "pin_bootstrap_size kb c w0 = (w1, Inr c1)" for c w0 w1 c1
  proof -
    have "(kc_Namespace c, kc_Name c) = req" "vs w0 (kc_Namespace c, kc_Name c) = Some (kc_Status c)"
      using status_get(1) [OF laws that(1)] status_get(2,3) [OF laws that(1) refl] by simp_all
    thus ?thesis using pin_bootstrap_size_stored(2) [OF laws that(2) _ refl] by simp
  qed
  from run show ?thesis
  proof (cases rule: Reconcile_cases)
    case (objects_failed c w0 c1 w1 err)
    have "v w1 = v w" using frames(1,2) objects_failed(1,2) by metis
    thus ?thesis using key [OF objects_failed(1,2)] objects_failed(3) by blast
  next
    case (unlisted c w0 c1 w1 w2 err)
    have "v w1 = v w" using frames(1,2) unlisted(1,2) by metis
    thus ?thesis using key [OF unlisted(1,2)] unlisted(3) frames(3) [OF unlisted(4)] by blast
  next
    case (listed c w0 c1 w1 w2 w3 pods)
    have "v w1 = v w" using frames(1,2) listed(1,2) by metis
    moreover have "v w' = v w2" using frames(3) [OF listed(4)] frames(4) [OF listed(5)] by simp
    ultimately show ?thesis using key [OF listed(1,2)] listed(3) by blast
  next
    case (unread err)
    thus ?thesis using frames(1) by blast
  next
    case (unpinned c w0 err)
    thus ?thesis using frames(1,2) by metis
  qed
qed



section \<open>Passes in sequence\<close>

text \<open>
  Passes over any clusters, with the in-memory state of the operator arbitrary at each of them (it is
  lost when the operator restarts, and background jobs change it), and anything else in between that
  does not write the status of an existing cluster: edits, pods, rosters, other objects, the clock.
\<close>

inductive operator_run :: "f64_impl \<Rightarrow> (quantity \<Rightarrow> int64) \<Rightarrow> apimeta \<Rightarrow> (labels \<Rightarrow> goerr + string) \<Rightarrow> (string \<Rightarrow> goerr + schedule) \<Rightarrow> 'w kube \<Rightarrow> ('w \<Rightarrow> object_key \<rightharpoonup> KahunaClusterStatus) \<Rightarrow> 'w \<Rightarrow> 'w \<Rightarrow> bool"
  for impl qv am sel parse kb vs w where
  run_start: "operator_run impl qv am sel parse kb vs w w"
| run_pass: "operator_run impl qv am sel parse kb vs w w1 \<Longrightarrow>
    Reconcile impl qv am sel parse kb req traffic backups w1 = (w2, r) \<Longrightarrow> operator_run impl qv am sel parse kb vs w w2"
| run_other: "operator_run impl qv am sel parse kb vs w w1 \<Longrightarrow> vs w1 \<subseteq>\<^sub>m vs w2 \<Longrightarrow> operator_run impl qv am sel parse kb vs w w2"

text \<open>C5: How a cluster was founded is never revised. Over any sequence of passes and outside changes, the
  founding size, once pinned, keeps its value, and a cluster that was bootstrapped once stays so;
  neither a failed pass nor a lost answer to a status write can undo them.\<close>

theorem founding_is_permanent:
  assumes "status_laws vs kb" "operator_run impl qv am sel parse kb vs w w'" "vs w k = Some st"
  shows "\<exists>st'. vs w' k = Some st' \<and>
    (st_BootstrapSize st \<noteq> 0 \<longrightarrow> st_BootstrapSize st' = st_BootstrapSize st) \<and>
    (st_Bootstrapped st \<longrightarrow> st_Bootstrapped st')"
proof -
  from assms(2) have "stored_kept vs w w'"
  proof (induction rule: operator_run.induct)
    case run_start
    show ?case by (simp add: stored_kept_eq)
  next
    case (run_pass w1 req traffic backups w2 r)
    show ?case by (rule stored_kept_trans [OF run_pass.IH Reconcile_stored_kept [OF assms(1) run_pass.hyps(2)]])
  next
    case (run_other w1 w2)
    have "stored_kept vs w1 w2"
      using run_other.hyps(2) founding_kept_refl unfolding stored_kept_def map_le_def by (metis domI)
    thus ?case by (rule stored_kept_trans [OF run_other.IH])
  qed
  thus ?thesis using assms(3) unfolding stored_kept_def founding_kept_def by blast
qed

text \<open>C17: The operator always comes back. A pass over a cluster that it could read and that it finished without
  an error asks for the next pass after a positive time of at most a minute.\<close>

theorem Reconcile_requeues:
  assumes "Reconcile impl qv am sel parse kb req traffic backups w = (w', Inr x)" "pr_result x = Inr d"
    "kb_GetCluster kb req w = (w0, Inr c)"
  shows "0 < d \<and> d \<le> requeueSteady"
proof -
  have status: "0 < after \<and> after \<le> requeueSteady" if "reconcileStatus am sel kb c p s pods m w1 = (w2, Inr after)" for c p s pods m w1 w2 after
    using that by (auto simp: reconcileStatus_def requeue_after_def requeueProgressing_def requeueAutoscaling_def requeueSteady_def
        second_def Let_def split: sum.splits prod.splits if_splits)
  from assms(1) show ?thesis
  proof (cases rule: Reconcile_cases)
    case (listed c w0 c1 w1 w2 w3 pods)
    from listed(5) show ?thesis
    proof (cases rule: reconcile_cluster_cases)
      case (finished st t w1 sts w2 st2 b2 wake launch res)
      then obtain after where "res = Inr after" "d = sooner after wake" using assms(2) by (cases res) auto
      with status [OF finished(4) [unfolded \<open>res = Inr after\<close>]] show ?thesis by (auto simp: sooner_def)
    qed (use assms(2) in auto)
  qed (use assms(2,3) in auto)
qed

section \<open>A pass that removes a node\<close>

text \<open>Three nodes are desired and four run, all of them voters; the server has no replica placement, and every
  leave is committed.\<close>

definition large_cluster :: KahunaCluster where
  "large_cluster = example_cluster\<lparr>kc_Status := KahunaClusterStatus_zero\<lparr>st_Bootstrapped := True, st_BootstrapSize := 3\<rparr>\<rparr>"

abbreviation large_key :: object_key where
  "large_key \<equiv> (kc_Namespace large_cluster, kc_Name large_cluster)"

definition large_sts :: StatefulSet where
  "large_sts = (let s = desiredStatefulSet example_impl (\<lambda>_. 0) large_cluster 0 in
     s\<lparr>sts_Spec := (sts_Spec s)\<lparr>ss_Replicas := Some 4\<rparr>\<rparr>)"

definition large_pods :: "Pod list" where
  "large_pods = map (\<lambda>i. example_pod (podName large_cluster i) ''10.0.0.1'') [0, 1, 2, 3]"

definition large_world :: mem_world where
  "large_world = \<lparr>mw_PVC = [large_key \<mapsto> example_claim], mw_Secret = [large_key \<mapsto> example_keystore], mw_Service = Map.empty,
     mw_ConfigMap = Map.empty, mw_PDB = Map.empty, mw_StatefulSet = [large_key \<mapsto> large_sts], mw_Certificate = Map.empty,
     mw_Cluster = [large_key \<mapsto> large_cluster], mw_Pods = large_pods, mw_Now = 0,
     mw_Membership = (\<lambda>_. Inr (example_roster large_cluster (range_int 4))),
     mw_Placement = (\<lambda>_. Inl ErrPlacementUnsupported),
     mw_Leave = (\<lambda>_. Inr \<lparr>lr_Left = True, lr_Outcome = OutcomeCommitted, lr_MembershipVersion = 2, lr_Retryable = False, lr_Reason = []\<rparr>)\<rparr>"

lemma large_fields [simp]:
  "kc_Spec large_cluster = example_spec" "st_Bootstrapped (kc_Status large_cluster)" "st_BootstrapSize (kc_Status large_cluster) = 3"
  "desiredReplicas large_cluster = 3" "spec_size large_sts = 4"
  by (simp_all add: large_cluster_def large_sts_def spec_size_def example_cluster_def desiredReplicas_def specReplicas_def Let_def)

lemma large_world_fields [simp]:
  "mw_StatefulSet large_world = [large_key \<mapsto> large_sts]" "mw_Cluster large_world = [large_key \<mapsto> large_cluster]"
  "mw_Pods large_world = large_pods" "mw_PVC large_world = [large_key \<mapsto> example_claim]"
  "mw_Secret large_world = [large_key \<mapsto> example_keystore]"
  by (simp_all add: large_world_def)

lemma large_reads:
  assumes "mw_Membership w = mw_Membership large_world" "mw_Placement w = mw_Placement large_world"
  shows "known_membership mem_kube c large_pods w = Some (example_roster large_cluster (range_int 4))"
    "known_placement mem_kube c large_pods w = (None, None)"
proof -
  have "membership_candidates large_pods \<noteq> []" by (simp add: membership_candidates_def large_pods_def example_pod_def)
  thus "known_membership mem_kube c large_pods w = Some (example_roster large_cluster (range_int 4))"
    by (simp add: known_membership_def assms large_world_def readMembership_all_answer)
  show "known_placement mem_kube c large_pods w = (None, None)"
    by (simp add: known_placement_def readPlacement_def assms large_world_def large_pods_def example_pod_def podIsReady_def)
qed

lemma large_plan:
  assumes "mw_Leave w = mw_Leave large_world" "kc_Spec c = example_spec" "desiredReplicas c = 3"
    "kc_Name c = kc_Name large_cluster" "kc_Namespace c = kc_Namespace large_cluster"
  shows "held_plan mem_kube c large_pods 4
      (buildPlan c 4 True (Some (example_roster large_cluster (range_int 4))) None None) w =
    (w, \<lparr>pl_Replicas = 3, pl_Partition = 0, pl_Reason = []\<rparr>)"
proof -
  have n: "podName c i = podName large_cluster i" "raftEndpoint c i = raftEndpoint large_cluster i" for i
    using assms(2,4,5) by (simp_all add: podName_def stsName_def raftEndpoint_def podFQDN_def peerDomain_def peerServiceName_def ports_def)
  have "rosterMatches c (Some (example_roster large_cluster (range_int 4))) 4"
    using example_roster_matches [of 4 large_cluster] by (simp add: rosterMatches_def n split: if_splits)
  hence plan: "buildPlan c 4 True (Some (example_roster large_cluster (range_int 4))) None None =
      \<lparr>pl_Replicas = 3, pl_Partition = 0, pl_Reason = []\<rparr>"
    by (simp add: buildPlan_def assms(3) placementSettled_def in32_def)
  have "find (\<lambda>p. pod_Name p = podName c 3 \<and> pod_PodIP p \<noteq> []) large_pods = Some (example_pod (podName large_cluster 3) ''10.0.0.1'')"
    by (simp add: large_pods_def example_pod_def n podName_inject)
  thus ?thesis unfolding plan
    by (simp add: held_plan_def decommission_step_def decommission_def assms(1) large_world_def Removed_def in32_def Let_def)
qed

abbreviation large_pass :: "mem_world \<Rightarrow> mem_world \<times> (panic + pass_result)" where
  "large_pass \<equiv> Reconcile example_impl (\<lambda>_. 0) apimeta_simple (\<lambda>_. Inr ''app=kahuna'') (\<lambda>_. Inr hourly) mem_kube large_key
     Map.empty runner_empty"

lemma large_pass_shrinks:
  "\<exists>w' x d s1. large_pass large_world = (w', Inr x) \<and> pr_result x = Inr d \<and>
     mw_StatefulSet w' large_key = Some s1 \<and> spec_size s1 = 3"
proof -
  have key: "kb_GetCluster mem_kube large_key large_world = (large_world, Inr large_cluster)" by simp
  have pin: "pin_bootstrap_size mem_kube large_cluster large_world = (large_world, Inr large_cluster)"
    by (simp add: pin_bootstrap_size_def)
  obtain w1 where w1: "reconcile_objects example_impl (\<lambda>_. 0) mem_kube large_cluster large_world = (w1, None)"
    "mw_StatefulSet w1 = mw_StatefulSet large_world" "mw_Pods w1 = large_pods" "mw_Cluster w1 = mw_Cluster large_world"
    "mw_Membership w1 = mw_Membership large_world" "mw_Placement w1 = mw_Placement large_world" "mw_Leave w1 = mw_Leave large_world"
    using mem_objects [of large_cluster example_impl "\<lambda>_. 0" large_world] by (auto simp: example_tls_def)
  have list: "listPods mem_kube large_cluster w1 = (w1, Inr large_pods)" by (simp add: listPods_def w1(3))
  let ?st = "(kc_Status large_cluster)\<lparr>st_Autoscaling := None,
     st_Conditions := am_Remove apimeta_simple (st_Conditions (kc_Status large_cluster)) ConditionAutoscalingLimited\<rparr>"
  let ?c = "large_cluster\<lparr>kc_Status := ?st\<rparr>"
  have c: "kc_Spec ?c = example_spec" "desiredReplicas ?c = 3"
    by (simp_all add: desiredReplicas_def specReplicas_def)
  let ?m = "Some (example_roster large_cluster (range_int 4))"
  note reads = large_reads [OF w1(5,6)]
  have auto: "reconcileAutoscaling example_impl apimeta_simple q now large_cluster True ?m None None large_pods Map.empty =
      Inr (?st, traffic_forget Map.empty (cluster_key large_cluster))" for q now
    by (simp add: reconcileAutoscaling_def)
  obtain w2 y where sts: "reconcileStatefulSet example_impl (\<lambda>_. 0) mem_kube ?c True ?m None None large_pods w1 = (w2, Inr y)"
    "spec_size y = 3" "mw_StatefulSet w2 large_key = Some y" "mw_Cluster w2 = mw_Cluster w1"
    using mem_sts_step [of w1 ?c large_sts large_pods True ?m None None "\<lparr>pl_Replicas = 3, pl_Partition = 0, pl_Reason = []\<rparr>"
        example_impl "\<lambda>_. 0"] large_plan [OF w1(7) c] w1(2)
    by (auto simp: stsKey_cluster_key)
  obtain st2 b2 where backup: "reconcileBackup example_impl (\<lambda>_. 0) apimeta_simple (\<lambda>_. Inr hourly) mem_kube ?c ?m large_pods runner_empty w2 =
      (w2, Inr (st2, b2, 0, None))"
    by (simp add: reconcileBackup_def)
  obtain w3 d where status: "reconcileStatus apimeta_simple (\<lambda>_. Inr ''app=kahuna'') mem_kube (?c\<lparr>kc_Status := st2\<rparr>) (kc_Status large_cluster) y
      large_pods ?m w2 = (w3, Inr d)"
    using mem_status_step [of w2 "?c\<lparr>kc_Status := st2\<rparr>" large_cluster apimeta_simple "''app=kahuna''"] sts(4) w1(4)
    by fastforce
  have "mw_StatefulSet w3 = mw_StatefulSet w2"
    using reconcileStatus_write [OF _ _ status, of mw_StatefulSet] by (auto simp: keeps_def mem_resource_def split: option.splits)
  moreover have "large_pass large_world = (w3, Inr \<lparr>pr_traffic = traffic_forget Map.empty (cluster_key large_cluster), pr_backups = b2,
      pr_launch = None, pr_result = Inr (sooner d 0)\<rparr>)"
    unfolding Reconcile_def Let_def key prod.case sum.case pin w1(1) option.case list reconcile_cluster_def reads
    using auto sts(1) backup status by simp
  ultimately show ?thesis using sts(2,3) by auto
qed

text \<open>The properties of a pass at this pass.\<close>

theorem Reconcile_shrinks_safely_witness:
  "\<exists>w' r s1. large_pass large_world = (w', r) \<and> mw_StatefulSet w' large_key = Some s1 \<and>
     (\<exists>c1 st pods wr. pass_reaches example_impl (\<lambda>_. 0) mem_kube large_cluster large_world c1 pods wr \<and> spec_size s1 = 3 \<and>
        removal_confirmed mem_kube (c1\<lparr>kc_Status := st\<rparr>) pods (spec_size s1) (sts_read mem_kube c1 wr))"
proof -
  obtain w' x d s1 where run: "large_pass large_world = (w', Inr x)" "mw_StatefulSet w' large_key = Some s1" "spec_size s1 = 3"
    using large_pass_shrinks by blast
  have "\<exists>c1 st pods wr. pass_reaches example_impl (\<lambda>_. 0) mem_kube large_cluster large_world c1 pods wr \<and> spec_size s1 = 3 \<and>
      removal_confirmed mem_kube (c1\<lparr>kc_Status := st\<rparr>) pods (spec_size s1) (sts_read mem_kube c1 wr)"
    using Reconcile_shrinks_safely [OF mem_kube_laws mem_status_laws run(1), of large_world large_cluster large_sts s1] run(2,3) by auto
  with run show ?thesis by blast
qed

theorem Reconcile_applies_template_witness:
  "\<exists>w' y cl. mw_StatefulSet w' large_key = Some y \<and> fst (large_pass large_world) = w' \<and> kc_Spec cl = example_spec \<and>
     ss_Template (sts_Spec y) = podTemplate example_impl (\<lambda>_. 0) cl"
proof -
  obtain w' x d where run: "large_pass large_world = (w', Inr x)" "pr_result x = Inr d"
    using large_pass_shrinks by blast
  thus ?thesis
    using Reconcile_applies_template [OF mem_kube_laws mem_status_laws run, of large_world large_cluster] by fastforce
qed


theorem founding_is_permanent_witness:
  "\<exists>st. mem_status (fst (large_pass large_world)) large_key = Some st \<and> st_BootstrapSize st = 3 \<and> st_Bootstrapped st"
proof -
  obtain w' r where run: "large_pass large_world = (w', r)" by fastforce
  have "operator_run example_impl (\<lambda>_. 0) apimeta_simple (\<lambda>_. Inr ''app=kahuna'') (\<lambda>_. Inr hourly) mem_kube mem_status large_world w'"
    by (rule run_pass [OF run_start run])
  from founding_is_permanent [OF mem_status_laws this, of large_key "kc_Status large_cluster"] run show ?thesis
    by (auto simp: mem_status_def)
qed

theorem Reconcile_requeues_witness:
  "\<exists>w' x d. large_pass large_world = (w', Inr x) \<and> pr_result x = Inr d \<and> 0 < d \<and> d \<le> requeueSteady"
proof -
  obtain w' x d where run: "large_pass large_world = (w', Inr x)" "pr_result x = Inr d"
    using large_pass_shrinks by blast
  thus ?thesis using Reconcile_requeues [OF run, of large_world large_cluster] by auto
qed

text \<open>C37: Before bootstrap ends the sizing is not one node at a time. A pass over a cluster that is still
  forming, whose StatefulSet is larger than desired, either keeps its size or brings it to the desired
  size in one step, however many nodes that removes; which of the two depends on the removal of the
  last node alone.\<close>

theorem unbootstrapped_shrink_at_once:
  assumes laws: "kube_laws V kb" and before: "vw_StatefulSet V w (stsKey c) = Some s0" "desiredReplicas c < spec_size s0"
    and run: "reconcileStatefulSet impl qv kb c False m pl perr pods w = (w', Inr y)"
  shows "spec_size y =
    (if removal_confirmed kb c pods (wrap32 (spec_size s0 - 1)) (sts_read kb c w) then desiredReplicas c else spec_size s0)"
proof -
  let ?n = "spec_size s0"
  have "sts_planned impl qv V kb c False m pl perr pods (sts_read kb c w) y w w'"
    using reconcileStatefulSet_effect [OF laws run] before(1) by (simp add: sts_created_def)
  then obtain w2 p where h: "held_plan kb c pods ?n (buildPlan c ?n False m pl perr) (sts_read kb c w) = (w2, p)"
    and y: "sts_Spec y = spec_of_plan impl qv c p (sts_Spec s0)"
    using before(1) unfolding sts_planned_def by auto
  have plan: "pl_Replicas (buildPlan c ?n False m pl perr) = desiredReplicas c" by (simp add: buildPlan_def)
  from held_plan_confirmed [OF h] before(2) plan spec_size_planned(1) [OF y] show ?thesis by (auto split: if_splits)
qed

definition forming_cluster :: KahunaCluster where
  "forming_cluster = large_cluster\<lparr>kc_Status := KahunaClusterStatus_zero\<lparr>st_BootstrapSize := 5\<rparr>\<rparr>"

definition forming_sts :: StatefulSet where
  "forming_sts = large_sts\<lparr>sts_Spec := (sts_Spec large_sts)\<lparr>ss_Replicas := Some 5\<rparr>\<rparr>"

definition forming_world :: mem_world where
  "forming_world = large_world\<lparr>mw_StatefulSet := [large_key \<mapsto> forming_sts]\<rparr>"

definition forming_pods :: "Pod list" where
  "forming_pods = map (\<lambda>i. example_pod (podName forming_cluster i) ''10.0.0.1'') [0, 1, 2, 3, 4]"

theorem unbootstrapped_shrink_at_once_witness:
  "\<exists>w' y. reconcileStatefulSet example_impl (\<lambda>_. 0) mem_kube forming_cluster False None None None forming_pods forming_world = (w', Inr y) \<and>
     spec_size forming_sts = 5 \<and> spec_size y = 3"
proof -
  have n: "spec_size forming_sts = 5" "desiredReplicas forming_cluster = 3"
    by (simp_all add: forming_sts_def spec_size_def forming_cluster_def desiredReplicas_def specReplicas_def)
  have s: "mw_StatefulSet forming_world (stsKey forming_cluster) = Some forming_sts"
    by (simp add: forming_world_def forming_cluster_def stsKey_cluster_key)
  have f: "find (\<lambda>p. pod_Name p = podName forming_cluster 4 \<and> pod_PodIP p \<noteq> []) forming_pods =
      Some (example_pod (podName forming_cluster 4) ''10.0.0.1'')"
    by (simp add: forming_pods_def example_pod_def podName_inject)
  have "held_plan mem_kube forming_cluster forming_pods 5 (buildPlan forming_cluster 5 False None None None) forming_world =
      (forming_world, \<lparr>pl_Replicas = 3, pl_Partition = 0, pl_Reason = []\<rparr>)"
    by (simp add: held_plan_def decommission_step_def decommission_def buildPlan_def n f forming_world_def large_world_def
        Removed_def in32_def Let_def)
  then obtain w' y where run: "reconcileStatefulSet example_impl (\<lambda>_. 0) mem_kube forming_cluster False None None None forming_pods forming_world = (w', Inr y)"
    "spec_size y = 3"
    using mem_sts_step [OF s, of forming_pods False None None None "\<lparr>pl_Replicas = 3, pl_Partition = 0, pl_Reason = []\<rparr>" example_impl "\<lambda>_. 0"] n
    by auto
  have "spec_size y = (if removal_confirmed mem_kube forming_cluster forming_pods (wrap32 (5 - 1))
      (sts_read mem_kube forming_cluster forming_world) then 3 else 5)"
    using unbootstrapped_shrink_at_once [OF mem_kube_laws _ _ run(1), of forming_sts, unfolded n] s by auto
  with run n show ?thesis by auto
qed

end
